theory Spec2Isabelle
  imports Complex_Main
begin

section \<open>Values shared by the whole backend\<close>

text \<open>
  Every \<^verbatim>\<open>raise\<close> and every failing \<^verbatim>\<open>assert\<close> of \<^verbatim>\<open>tsfc/loopy.py\<close> is a value
  of this type. \<open>GemFailure\<close> is the exception carried by a \<^verbatim>\<open>gem.Failure\<close> node and
  \<open>RecursionError\<close> is Python's answer to a call stack that grows past its limit.
\<close>

datatype error =
    AssertionError string
  | KeyError
  | AttributeError
  | IndexError
  | TypeError
  | ValueError
  | NotImplementedError string
  | RecursionError
  | GemFailure string

text \<open>
  A scalar of a numpy floating type. Finite values are kept as exact rationals (every
  binary floating-point number is one); the rounding error of the binary format is not
  part of the model, the special values are.
\<close>

datatype npfloat = NaN | PInf | NInf | Fin rat

datatype dtype = np_int8 | np_float16 | np_float32 | np_float64 | np_complex64 | np_complex128

text \<open>\<^verbatim>\<open>numpy.finfo(t).dtype\<close> and \<^verbatim>\<open>numpy.finfo(t).resolution\<close>; \<^verbatim>\<open>finfo\<close> refuses an
  integer type. The resolution is a number of the type itself: the one nearest to
  \<open>0.001\<close> in half precision (\<open>1049 / 2 ^ 20\<close>), to \<open>0.000001\<close> in single precision
  (\<open>8796093 / 2 ^ 43\<close>) and to \<open>1e-15\<close> in double precision
  (\<open>2535301200456459 / 2 ^ 101\<close>).\<close>

fun finfo_dtype :: "dtype \<Rightarrow> error + dtype" where
  "finfo_dtype np_int8 = Inl ValueError"
| "finfo_dtype np_complex64 = Inr np_float32"
| "finfo_dtype np_complex128 = Inr np_float64"
| "finfo_dtype t = Inr t"

fun finfo_resolution :: "dtype \<Rightarrow> error + rat" where
  "finfo_resolution np_int8 = Inl ValueError"
| "finfo_resolution np_float16 = Inr (1049 / 1048576)"
| "finfo_resolution np_float32 = Inr (8796093 / 8796093022208)"
| "finfo_resolution np_complex64 = Inr (8796093 / 8796093022208)"
| "finfo_resolution t = Inr (2535301200456459 / 2535301200456458802993406410752)"

text \<open>Modelled from the spec: \<^verbatim>\<open>tsfc.parameters.is_complex\<close> is imported by
  \<^verbatim>\<open>tsfc/loopy.py\<close> and is not among the source files; it tells the complex scalar types.\<close>

fun is_complex :: "dtype \<Rightarrow> bool" where
  "is_complex np_complex64 = True"
| "is_complex np_complex128 = True"
| "is_complex t = False"

subsection \<open>The numpy operations of \<^verbatim>\<open>_expression_scalar\<close>\<close>

definition np_isnan :: "npfloat \<Rightarrow> bool" where
  "np_isnan v = (case v of NaN \<Rightarrow> True | _ \<Rightarrow> False)"

text \<open>Rounding to the nearest integer, a tie going to the even neighbour.\<close>

definition rint :: "rat \<Rightarrow> int" where
  "rint q =
     (let f = \<lfloor>q\<rfloor>; d = q - of_int f
      in if d < 1 / 2 then f
         else if 1 / 2 < d then f + 1
         else if even f then f else f + 1)"

text \<open>\<^verbatim>\<open>numpy.round(v, 1)\<close>: scale by ten, round to an integer, scale back.\<close>

definition np_round1 :: "npfloat \<Rightarrow> npfloat" where
  "np_round1 v = (case v of Fin q \<Rightarrow> Fin (of_int (rint (q * 10)) / 10) | _ \<Rightarrow> v)"

text \<open>Python's truth value of a float: only zero is false (a NaN is true).\<close>

definition truthy :: "npfloat \<Rightarrow> bool" where
  "truthy r = (case r of Fin q \<Rightarrow> q \<noteq> 0 | _ \<Rightarrow> True)"

text \<open>\<^verbatim>\<open>numpy.abs(v - r)\<close>: a difference with a NaN, or of two equal infinities, is a NaN.\<close>

fun np_absdiff :: "npfloat \<Rightarrow> npfloat \<Rightarrow> npfloat" where
  "np_absdiff (Fin a) (Fin b) = Fin \<bar>a - b\<bar>"
| "np_absdiff NaN _ = NaN"
| "np_absdiff _ NaN = NaN"
| "np_absdiff PInf PInf = NaN"
| "np_absdiff NInf NInf = NaN"
| "np_absdiff _ _ = PInf"

text \<open>\<open>x < eps\<close> for a finite \<open>eps\<close>: false for a NaN and for plus infinity.\<close>

definition np_less :: "npfloat \<Rightarrow> rat \<Rightarrow> bool" where
  "np_less x eps = (case x of Fin q \<Rightarrow> q < eps | NInf \<Rightarrow> True | _ \<Rightarrow> False)"


section \<open>The data model\<close>

subsection \<open>Target expressions (pymbolic) and instructions (loopy)\<close>

datatype pym =
    p_Variable string
  | p_Int int
  | p_Float npfloat
  | p_Sum "pym list"
  | p_Product "pym list"
  | p_Quotient pym pym
  | p_Call pym "pym list"
  | p_Subscript pym "pym list"
  | p_Comparison pym string pym
  | p_LogicalNot "pym list"
  | p_LogicalAnd "pym list"
  | p_LogicalOr "pym list"
  | p_If pym pym pym
  | SubArrayRef "pym list" pym

text \<open>
  An instruction is an assignment or a call, each with the inames it lies within. The
  auxiliary kernel is built from instruction text and one \<^verbatim>\<open>lp.CInstruction\<close> (its inames,
  its C code, the variables it reads, the instruction it depends on and its id). Inlining
  a kernel puts two kinds of instruction into the caller: a marker that does nothing,
  with the inames of the call it stands for, and an instruction of the inlined kernel,
  with the prefix that renames its inames, temporaries and ids, the expression of the
  caller that stands for each argument, and the inames of the call.
\<close>

datatype lp_insn =
    lp_Assignment pym pym "string set"
  | lp_CallInstruction "pym list" pym "string set"
  | lp_CInstruction string string "string list" string string
  | lp_Text "string list"
  | lp_NoOp "string set"
  | lp_Inlined string "(string \<times> pym) list" "string set" lp_insn

text \<open>Declared data: an argument or a temporary (always in the local address space).\<close>

datatype lp_data =
    lp_GlobalArg (data_name: string) (data_dtype: dtype) (data_shape: "nat list")
      (is_output_only: bool)
  | lp_TemporaryVariable (data_name: string) (data_dtype: dtype) (data_shape: "nat list")
      (initializer: "npfloat list option") (read_only: bool)

text \<open>An iteration domain: for each of its inames the least and the greatest value it
  takes, both included. \<open>0 \<le> i < n\<close> is \<open>(i, 0, n - 1)\<close>; \<open>{[]}\<close> has no iname.\<close>

type_synonym domain = "(string \<times> int \<times> int) list"

text \<open>A kernel: its instructions carry their scheduling priority.\<close>

record lp_kernel =
  knl_name :: string
  knl_domains :: "domain list"
  knl_instructions :: "(lp_insn \<times> nat) list"
  knl_data :: "lp_data list"
  knl_loop_priority :: "string list"

text \<open>A program: a root kernel and the kernels registered as callables of it.\<close>

record lp_program =
  root_kernel :: lp_kernel
  callables :: "lp_kernel list"

datatype generated = Kernel lp_kernel | Program lp_program

subsection \<open>Expression nodes (gem) and the imperative tree (impero)\<close>

text \<open>
  Modelled from the spec: the classes of \<^verbatim>\<open>gem\<close> and \<^verbatim>\<open>gem.impero\<close> are imported by
  \<^verbatim>\<open>tsfc/loopy.py\<close>, their declarations are not among the source files. The spec's data
  model gives the node variants, a shape for every node, and the three kinds of index.
  \<open>ident\<close> tells one instance of a node from another one, as Python's \<^verbatim>\<open>id\<close> does; no
  code of the backend reads it. An \<open>Index\<close> is told from every other one by \<open>idx_count\<close>.
\<close>

datatype 'e gindex =
    Index (idx_count: nat) (idx_name: "string option") (idx_extent: "nat option")
  | VariableIndex 'e
  | IntIndex int

datatype 'e cls =
    gem_Variable string
  | gem_Literal "npfloat list" dtype
  | gem_Zero
  | gem_Identity
  | gem_Delta
  | gem_Failure string
  | gem_Sum
  | gem_Product
  | gem_Division
  | gem_Power
  | gem_MathFunction string
  | gem_MinValue
  | gem_MaxValue
  | gem_Comparison string
  | gem_LogicalNot
  | gem_LogicalAnd
  | gem_LogicalOr
  | gem_Conditional
  | gem_Indexed "'e gindex list"
  | gem_FlexiblyIndexed "(int \<times> ('e gindex \<times> int) list) list"
  | gem_ComponentTensor "'e gindex list"
  | gem_ListTensor
  | gem_IndexSum
  | gem_Inverse
  | gem_Action
  | gem_Solve bool

datatype gem = Node (ident: nat) (cls: "gem cls") (shape: "nat list") (children: "gem list")

text \<open>
  The tables of the backend that are keyed by a node (\<^verbatim>\<open>ctx.gem_to_pymbolic\<close>,
  \<^verbatim>\<open>ctx.indices\<close>) are Python dictionaries: they find a key by the \<^verbatim>\<open>==\<close> and the hash of
  \<^verbatim>\<open>gem.Node\<close>. \<^verbatim>\<open>_expression_mathfunction\<close> compares an operand with a \<^verbatim>\<open>gem.Zero()\<close> it
  has just built, so this equality is not the identity of the instances: two nodes are
  equal when they agree in class, attributes, shape and operands. \<open>gem_key\<close> is a node
  without the identities of its instances, the key under which the tables hold it.
\<close>

primrec gem_key :: "gem \<Rightarrow> gem" where
  "gem_key (Node i c sh cs) = Node 0 (map_cls gem_key c) sh (map gem_key cs)"

datatype impero =
    imp_Block "impero list"
  | imp_For "gem gindex" impero
  | imp_Initialise gem
  | imp_Accumulate gem
  | imp_Return gem gem
  | imp_ReturnAccumulate gem gem
  | imp_Evaluate gem
  | imp_Noop

text \<open>Modelled from the spec: the part of the class hierarchy and of the attributes of a
  node that \<^verbatim>\<open>tsfc/loopy.py\<close> relies on. \<^verbatim>\<open>gem.Constant\<close> covers the literal, zero and
  identity nodes; only a variable and a math function have a \<^verbatim>\<open>name\<close>; the \<^verbatim>\<open>value\<close> of a
  scalar constant is its single entry (zero for \<^verbatim>\<open>gem.Zero\<close>).\<close>

definition is_Constant :: "gem \<Rightarrow> bool" where
  "is_Constant e = (case cls e of gem_Literal _ _ \<Rightarrow> True | gem_Zero \<Rightarrow> True
                     | gem_Identity \<Rightarrow> True | _ \<Rightarrow> False)"

definition node_name :: "gem \<Rightarrow> error + string" where
  "node_name e = (case cls e of gem_Variable n \<Rightarrow> Inr n | gem_MathFunction n \<Rightarrow> Inr n
                   | _ \<Rightarrow> Inl AttributeError)"

definition node_value :: "gem \<Rightarrow> error + npfloat" where
  "node_value e = (case cls e of gem_Zero \<Rightarrow> Inr (Fin 0)
                    | gem_Literal [v] _ \<Rightarrow> Inr v
                    | gem_Literal _ _ \<Rightarrow> Inl TypeError
                    | _ \<Rightarrow> Inl AttributeError)"

text \<open>Modelled from the spec: \<^verbatim>\<open>nu == gem.Zero()\<close> and \<^verbatim>\<open>nu == gem.one\<close> ask whether the
  operand is the literal constant 0, respectively 1; the comparison is by value.\<close>

definition is_gem_Zero :: "gem \<Rightarrow> bool" where
  "is_gem_Zero e = (shape e = [] \<and> (case cls e of gem_Zero \<Rightarrow> True | _ \<Rightarrow> False))"

definition is_gem_one :: "gem \<Rightarrow> bool" where
  "is_gem_one e = (shape e = [] \<and> (case cls e of gem_Literal vs _ \<Rightarrow> vs = [Fin 1] | _ \<Rightarrow> False))"

section \<open>Type inference\<close>

fun sequence :: "(error + 'a) list \<Rightarrow> error + 'a list" where
  "sequence [] = Inr []"
| "sequence (Inl e # _) = Inl e"
| "sequence (Inr x # rs) = (case sequence rs of Inl e \<Rightarrow> Inl e | Inr xs \<Rightarrow> Inr (x # xs))"

text \<open>\<^verbatim>\<open>set.union(*sets)\<close>: without an argument it is a \<^verbatim>\<open>TypeError\<close>.\<close>

definition set_union :: "(error + dtype set) list \<Rightarrow> error + dtype set" where
  "set_union rs = (case sequence rs of Inl e \<Rightarrow> Inl e | Inr [] \<Rightarrow> Inl TypeError
                    | Inr ss \<Rightarrow> Inr (\<Union> (set ss)))"

lemma size_in_children: "x \<in> set cs \<Longrightarrow> size (x::gem) \<le> size_list size cs"
  by (induction cs) auto

lemma size_in_dropped: "x \<in> set (drop n cs) \<Longrightarrow> size (x::gem) \<le> size_list size cs"
  by (rule size_in_children) (rule in_set_dropD)

text \<open>\<^verbatim>\<open>_assign_dtype\<close> with its registered rules; \<open>st\<close> and \<open>rt\<close> are the mapper's
  \<^verbatim>\<open>scalar_type\<close> and \<^verbatim>\<open>real_type\<close>. The memoizer around it does not change what it returns.\<close>

function assign_dtype' :: "dtype \<Rightarrow> dtype \<Rightarrow> gem \<Rightarrow> error + dtype set" where
  "assign_dtype' st rt (Node i c sh cs) =
     (case c of
        gem_Variable _ \<Rightarrow> Inr {st}
      | gem_Failure _ \<Rightarrow> Inr {st}
      | gem_Zero \<Rightarrow> Inr {rt}
      | gem_Identity \<Rightarrow> Inr {rt}
      | gem_Delta \<Rightarrow> Inr {rt}
      | gem_Literal _ dt \<Rightarrow> Inr {dt}
      | gem_Power \<Rightarrow> Inr {st}
      | gem_MathFunction name \<Rightarrow>
          (if name \<in> {''abs'', ''real'', ''imag''} then Inr {rt}
           else if name = ''sqrt'' then Inr {st}
           else set_union (map (assign_dtype' st rt) cs))
      | gem_MinValue \<Rightarrow> Inr {rt}
      | gem_MaxValue \<Rightarrow> Inr {rt}
      | gem_Conditional \<Rightarrow> set_union (map (assign_dtype' st rt) (drop 1 cs))
      | gem_Comparison _ \<Rightarrow> Inr {np_int8}
      | gem_LogicalNot \<Rightarrow> Inr {np_int8}
      | gem_LogicalAnd \<Rightarrow> Inr {np_int8}
      | gem_LogicalOr \<Rightarrow> Inr {np_int8}
      | _ \<Rightarrow> set_union (map (assign_dtype' st rt) cs))"
  by pat_completeness auto
termination
  by (relation "measure (\<lambda>(st, rt, e). size e)")
     (auto dest: size_in_dropped size_in_children)

section \<open>The naming context\<close>

subsection \<open>Unique names\<close>

text \<open>\<^verbatim>\<open>"%d" % k\<close>: the decimal digits of a natural number.\<close>

definition digit_char :: "nat \<Rightarrow> char" where
  "digit_char d = char_of (48 + d)"

fun str_nat :: "nat \<Rightarrow> string" where
  "str_nat n = (if n < 10 then [digit_char n] else str_nat (n div 10) @ [digit_char (n mod 10)])"

declare str_nat.simps [simp del]

text \<open>
  \<^verbatim>\<open>pytools.UniqueNameGenerator\<close>: a call tries \<open>based_on\<close>, then \<open>based_on_0\<close>,
  \<open>based_on_1\<close>, ... and returns the first one that no earlier call returned; the name is
  then taken. With \<open>n\<close> names taken, one of the first \<open>n + 1\<close> candidates is free
  (\<open>unique_name_fresh\<close> below), so the search looks at those.
\<close>

definition candidates :: "string \<Rightarrow> nat \<Rightarrow> string list" where
  "candidates based_on n = based_on # map (\<lambda>k. based_on @ ''_'' @ str_nat k) [0..<n]"

definition unique_name :: "string list \<Rightarrow> string \<Rightarrow> string \<times> string list" where
  "unique_name existing based_on =
     (case find (\<lambda>c. c \<notin> set existing) (candidates based_on (length existing)) of
        Some var_name \<Rightarrow> (var_name, var_name # existing)
      | None \<Rightarrow> (based_on, based_on # existing))"

subsection \<open>Dictionaries whose order matters\<close>

text \<open>A Python \<^verbatim>\<open>dict\<close> (or \<^verbatim>\<open>OrderedDict\<close>) as an association list with distinct keys:
  storing under a key that is present replaces the value in place, a new key goes last;
  \<^verbatim>\<open>pop\<close> of an absent key is a \<^verbatim>\<open>KeyError\<close>.\<close>

fun dict_set :: "'k \<Rightarrow> 'v \<Rightarrow> ('k \<times> 'v) list \<Rightarrow> ('k \<times> 'v) list" where
  "dict_set k v [] = [(k, v)]"
| "dict_set k v (p # ps) = (if fst p = k then (k, v) # ps else p # dict_set k v ps)"

definition dict_update :: "('k \<times> 'v) list \<Rightarrow> ('k \<times> 'v) list \<Rightarrow> ('k \<times> 'v) list" where
  "dict_update d items = fold (\<lambda>(k, v). dict_set k v) items d"

definition dict_of :: "('k \<times> 'v) list \<Rightarrow> ('k \<times> 'v) list" where
  "dict_of items = dict_update [] items"

definition dict_pop :: "'k \<Rightarrow> ('k \<times> 'v) list \<Rightarrow> error + ('k \<times> 'v) list" where
  "dict_pop k d = (if k \<in> fst ` set d then Inr (filter (\<lambda>p. fst p \<noteq> k) d) else Inl KeyError)"

subsection \<open>The context\<close>

record LoopyContext =
  indices :: "gem \<rightharpoonup> gem gindex list"
  index_names :: "(gem gindex + nat) \<rightharpoonup> string"
  active_indices :: "(gem gindex \<times> pym) list"
  index_extent :: "(string \<times> nat) list"
  gem_to_pymbolic :: "gem \<rightharpoonup> pym"
  name_gen :: "string list"
  new_variables :: "(pym \<times> nat list) list"
  epsilon :: rat
  scalar_type :: dtype
  return_increments :: bool
  matfree_solve_knl :: "lp_kernel option"

text \<open>
  The last field is not an attribute of the Python object: it is the module's global
  \<^verbatim>\<open>matfree_solve_knl\<close>, threaded with the context so that one state is passed along.
  \<open>generate\<close> below takes the global's value when it builds its context and hands the
  final value back.
\<close>

text \<open>A call that may raise returns its error or its value, and the context as the call
  left it: Python's mutations of \<open>ctx\<close> stay when an exception leaves the call.\<close>

type_synonym 'a res = "(error + 'a) \<times> LoopyContext"

definition bind_res :: "'a res \<Rightarrow> ('a \<Rightarrow> LoopyContext \<Rightarrow> 'b res) \<Rightarrow> 'b res" where
  "bind_res r f = (case r of (Inl e, c) \<Rightarrow> (Inl e, c) | (Inr v, c) \<Rightarrow> f v c)"

fun map_res :: "('a \<Rightarrow> LoopyContext \<Rightarrow> 'b res) \<Rightarrow> 'a list \<Rightarrow> LoopyContext \<Rightarrow> 'b list res" where
  "map_res f [] c = (Inr [], c)"
| "map_res f (x # xs) c =
     bind_res (f x c) (\<lambda>y c1. bind_res (map_res f xs c1) (\<lambda>ys c2. (Inr (y # ys), c2)))"

text \<open>\<^verbatim>\<open>ctx.name_gen(based_on)\<close>.\<close>

definition name_gen_call :: "string \<Rightarrow> LoopyContext \<Rightarrow> string \<times> LoopyContext" where
  "name_gen_call based_on ctx =
     (let (name, taken) = unique_name (name_gen ctx) based_on in (name, ctx\<lparr>name_gen := taken\<rparr>))"

text \<open>\<^verbatim>\<open>ctx.index_names[key]\<close>: a \<^verbatim>\<open>defaultdict\<close> whose default is \<^verbatim>\<open>"i"\<close>; reading a missing
  key stores the default. A key is an index (\<open>Inl\<close>) or an extent (\<open>Inr\<close>).\<close>

definition index_names_get :: "gem gindex + nat \<Rightarrow> LoopyContext \<Rightarrow> string \<times> LoopyContext" where
  "index_names_get k ctx =
     (case index_names ctx k of
        Some n \<Rightarrow> (n, ctx)
      | None \<Rightarrow> (''i'', ctx\<lparr>index_names := (index_names ctx)(k \<mapsto> ''i'')\<rparr>))"

text \<open>\<^verbatim>\<open>gem_to_pym_multiindex\<close>: only an \<open>Index\<close> has an extent. A name the index brings
  along is used as it is.\<close>

definition gem_to_pym_index :: "gem gindex \<Rightarrow> LoopyContext \<Rightarrow> pym res" where
  "gem_to_pym_index index ctx =
     (case index of
        Index _ nm ext \<Rightarrow>
          (if ext = None \<or> ext = Some 0 then (Inl (AssertionError ''''), ctx)
           else
             let (name, c1) =
                   (if nm = None \<or> nm = Some [] then
                      (let (seed, c0) = index_names_get (Inl index) ctx in name_gen_call seed c0)
                    else (the nm, ctx))
             in (Inr (p_Variable name),
                 c1\<lparr>index_extent := dict_set name (the ext) (index_extent c1)\<rparr>))
      | _ \<Rightarrow> (Inl AttributeError, ctx))"

definition gem_to_pym_multiindex :: "gem gindex list \<Rightarrow> LoopyContext \<Rightarrow> pym list res" where
  "gem_to_pym_multiindex multiindex ctx = map_res gem_to_pym_index multiindex ctx"

text \<open>\<^verbatim>\<open>pymbolic_multiindex\<close>: one fresh index per extent of a shape.\<close>

definition pymbolic_index :: "nat \<Rightarrow> LoopyContext \<Rightarrow> pym res" where
  "pymbolic_index ext ctx =
     (let (seed, c0) = index_names_get (Inr ext) ctx;
          (name, c1) = name_gen_call seed c0
      in (Inr (p_Variable name), c1\<lparr>index_extent := dict_set name ext (index_extent c1)\<rparr>))"

definition pymbolic_multiindex :: "nat list \<Rightarrow> LoopyContext \<Rightarrow> pym list res" where
  "pymbolic_multiindex shp ctx = map_res pymbolic_index shp ctx"

text \<open>\<^verbatim>\<open>_gem_to_pym_var\<close>: the table is read first; a node that is not in it gets a name
  from the generator, seeded with the node's own name, and the table records it.\<close>

definition gem_to_pym_var :: "gem \<Rightarrow> LoopyContext \<Rightarrow> pym res" where
  "gem_to_pym_var node ctx =
     (case gem_to_pymbolic ctx (gem_key node) of
        Some pym \<Rightarrow> (Inr pym, ctx)
      | None \<Rightarrow>
          (case node_name node of
             Inl e \<Rightarrow> (Inl e, ctx)
           | Inr based_on \<Rightarrow>
               (let (name, c1) = name_gen_call based_on ctx;
                    pym = p_Variable name
                in (Inr pym, c1\<lparr>gem_to_pymbolic := (gem_to_pymbolic c1)(gem_key node \<mapsto> pym)\<rparr>))))"

text \<open>\<^verbatim>\<open>active_inames\<close>: the names of the variables the active indices are bound to.\<close>

definition active_inames :: "LoopyContext \<Rightarrow> error + string set" where
  "active_inames ctx =
     (case sequence (map (\<lambda>(k, v). case v of p_Variable n \<Rightarrow> Inr n | _ \<Rightarrow> Inl AttributeError)
                         (active_indices ctx)) of
        Inl e \<Rightarrow> Inl e
      | Inr ns \<Rightarrow> Inr (set ns))"

text \<open>
  The context manager \<^verbatim>\<open>active_indices(mapping, ctx)\<close> around a body: the mapping is
  stored, the body runs, and the code after the \<^verbatim>\<open>yield\<close> pops the keys one by one. The
  generator has no \<^verbatim>\<open>try\<close>: an exception of the body is thrown into it at the \<^verbatim>\<open>yield\<close> and
  leaves it there, so the pops run only when the body returns.
\<close>

fun pop_keys :: "gem gindex list \<Rightarrow> LoopyContext \<Rightarrow> unit res" where
  "pop_keys [] ctx = (Inr (), ctx)"
| "pop_keys (k # ks) ctx =
     (case dict_pop k (active_indices ctx) of
        Inl e \<Rightarrow> (Inl e, ctx)
      | Inr d \<Rightarrow> pop_keys ks (ctx\<lparr>active_indices := d\<rparr>))"

definition active_indices_scope ::
  "(gem gindex \<times> pym) list \<Rightarrow> (LoopyContext \<Rightarrow> 'a res) \<Rightarrow> LoopyContext \<Rightarrow> 'a res" where
  "active_indices_scope mapping body ctx =
     (case body (ctx\<lparr>active_indices := dict_update (active_indices ctx) mapping\<rparr>) of
        (Inl e, c) \<Rightarrow> (Inl e, c)
      | (Inr v, c) \<Rightarrow>
          (case pop_keys (map fst mapping) c of
             (Inl e, c') \<Rightarrow> (Inl e, c')
           | (Inr u, c') \<Rightarrow> (Inr v, c')))"

section \<open>Lowering expressions\<close>

text \<open>
  The handlers registered with \<^verbatim>\<open>_expression\<close>, one definition each. A handler that
  lowers sub-expressions takes the lowering of one sub-expression as \<open>lower\<close> (the call
  \<^verbatim>\<open>expression(c, ctx)\<close>); the recursion is closed in \<open>expression\<close> below.
\<close>

definition arg0 :: "gem \<Rightarrow> error + gem" where
  "arg0 expr = (case children expr of [] \<Rightarrow> Inl IndexError | c # _ \<Rightarrow> Inr c)"

definition expression_nary ::
  "(gem \<Rightarrow> LoopyContext \<Rightarrow> pym res) \<Rightarrow> (pym list \<Rightarrow> pym) \<Rightarrow> gem \<Rightarrow> LoopyContext \<Rightarrow> pym res" where
  "expression_nary lower build expr ctx =
     bind_res (map_res lower (children expr) ctx) (\<lambda>xs c. (Inr (build xs), c))"

text \<open>\<^verbatim>\<open>p.Quotient(*xs)\<close> has a default denominator 1; \<^verbatim>\<open>p.If(*xs)\<close> takes three arguments and
  \<^verbatim>\<open>left, right = xs\<close> unpacks two.\<close>

definition expression_division ::
  "(gem \<Rightarrow> LoopyContext \<Rightarrow> pym res) \<Rightarrow> gem \<Rightarrow> LoopyContext \<Rightarrow> pym res" where
  "expression_division lower expr ctx =
     bind_res (map_res lower (children expr) ctx)
       (\<lambda>xs c. case xs of
                  [a] \<Rightarrow> (Inr (p_Quotient a (p_Int 1)), c)
                | [a, b] \<Rightarrow> (Inr (p_Quotient a b), c)
                | _ \<Rightarrow> (Inl TypeError, c))"

definition expression_comparison ::
  "(gem \<Rightarrow> LoopyContext \<Rightarrow> pym res) \<Rightarrow> string \<Rightarrow> gem \<Rightarrow> LoopyContext \<Rightarrow> pym res" where
  "expression_comparison lower operator expr ctx =
     bind_res (map_res lower (children expr) ctx)
       (\<lambda>xs c. case xs of
                  [left, right] \<Rightarrow> (Inr (p_Comparison left operator right), c)
                | _ \<Rightarrow> (Inl ValueError, c))"

definition expression_conditional ::
  "(gem \<Rightarrow> LoopyContext \<Rightarrow> pym res) \<Rightarrow> gem \<Rightarrow> LoopyContext \<Rightarrow> pym res" where
  "expression_conditional lower expr ctx =
     bind_res (map_res lower (children expr) ctx)
       (\<lambda>xs c. case xs of
                  [a, b, c'] \<Rightarrow> (Inr (p_If a b c'), c)
                | _ \<Rightarrow> (Inl TypeError, c))"

text \<open>\<^verbatim>\<open>_expression_mathfunction\<close>. The test for a complex scalar type comes first in the
  Bessel branch, before the operands are looked at and whatever the function is.\<close>

definition expression_mathfunction ::
  "(gem \<Rightarrow> LoopyContext \<Rightarrow> pym res) \<Rightarrow> string \<Rightarrow> gem \<Rightarrow> LoopyContext \<Rightarrow> pym res" where
  "expression_mathfunction lower name expr ctx =
     (if take 11 name = ''cyl_bessel_'' then
        (if is_complex (scalar_type ctx) then
           (Inl (NotImplementedError
                   ''Bessel functions for complex numbers: missing implementation''), ctx)
         else
           (case children expr of
              [nu, arg] \<Rightarrow>
                bind_res (lower nu ctx) (\<lambda>nu' c1.
                bind_res (lower arg c1) (\<lambda>arg' c2.
                  if name \<in> {''cyl_bessel_i'', ''cyl_bessel_k''} then
                    (Inr (p_Call (p_Variable (''boost::math::'' @ name)) [nu', arg']), c2)
                  else
                    (let nm = [last name] in
                     if is_gem_Zero nu then (Inr (p_Call (p_Variable (nm @ ''0'')) [arg']), c2)
                     else if is_gem_one nu then (Inr (p_Call (p_Variable (nm @ ''1'')) [arg']), c2)
                     else (Inr (p_Call (p_Variable (nm @ ''n'')) [nu', arg']), c2))))
            | _ \<Rightarrow> (Inl ValueError, ctx)))
      else
        expression_nary lower (p_Call (p_Variable (if name = ''ln'' then ''log'' else name)))
          expr ctx)"

text \<open>\<^verbatim>\<open>_expression_scalar\<close>, registered for \<^verbatim>\<open>gem.Constant\<close>.\<close>

definition expression_scalar :: "gem \<Rightarrow> LoopyContext \<Rightarrow> error + pym" where
  "expression_scalar expr ctx =
     (if shape expr \<noteq> [] then Inl (AssertionError '''')
      else
        (case node_value expr of
           Inl e \<Rightarrow> Inl e
         | Inr v \<Rightarrow>
             (if np_isnan v then Inr (p_Variable ''NAN'')
              else
                (let r = np_round1 v in
                 if truthy r \<and> np_less (np_absdiff v r) (epsilon ctx) then Inr (p_Float r)
                 else Inr (p_Float v)))))"

text \<open>\<^verbatim>\<open>_expression_indexed\<close>: the indices of an operand that lowered to a subscript are
  put in front of the node's own.\<close>

definition expression_indexed ::
  "(gem gindex list \<Rightarrow> LoopyContext \<Rightarrow> pym list res) \<Rightarrow> (gem \<Rightarrow> LoopyContext \<Rightarrow> pym res) \<Rightarrow>
   gem gindex list \<Rightarrow> gem \<Rightarrow> LoopyContext \<Rightarrow> pym res" where
  "expression_indexed fetch lower multiindex expr ctx =
     bind_res (fetch multiindex ctx) (\<lambda>rank c1.
       case arg0 expr of
         Inl e \<Rightarrow> (Inl e, c1)
       | Inr child \<Rightarrow>
           bind_res (lower child c1) (\<lambda>var c2.
             case var of
               p_Subscript aggregate index \<Rightarrow> (Inr (p_Subscript aggregate (index @ rank)), c2)
             | _ \<Rightarrow> (Inr (p_Subscript var rank), c2)))"

text \<open>\<^verbatim>\<open>_expression_flexiblyindexed\<close>. For one dimension \<open>(off, idxs)\<close>: every index must
  be an \<open>Index\<close> (the assertion), and each is read from the active indices (a \<^verbatim>\<open>KeyError\<close>
  when it is not bound); the dimension becomes the sum of \<open>off\<close> and the products of an
  index's variable and its stride.\<close>

definition is_Index :: "'e gindex \<Rightarrow> bool" where
  "is_Index index = (case index of Index _ _ _ \<Rightarrow> True | _ \<Rightarrow> False)"

definition flexi_term :: "LoopyContext \<Rightarrow> gem gindex \<times> int \<Rightarrow> error + pym" where
  "flexi_term ctx = (\<lambda>(index, stride).
     case map_of (active_indices ctx) index of
       None \<Rightarrow> Inl KeyError
     | Some v \<Rightarrow> Inr (p_Product [v, p_Int stride]))"

definition flexi_dim :: "LoopyContext \<Rightarrow> int \<times> (gem gindex \<times> int) list \<Rightarrow> error + pym" where
  "flexi_dim ctx = (\<lambda>(off, idxs).
     if \<not> list_all (\<lambda>(index, stride). is_Index index) idxs then Inl (AssertionError '''')
     else
       (case sequence (map (flexi_term ctx) idxs) of
          Inl e \<Rightarrow> Inl e
        | Inr terms \<Rightarrow> Inr (p_Sum (p_Int off # terms))))"

definition expression_flexiblyindexed ::
  "(gem \<Rightarrow> LoopyContext \<Rightarrow> pym res) \<Rightarrow> (int \<times> (gem gindex \<times> int) list) list \<Rightarrow>
   gem \<Rightarrow> LoopyContext \<Rightarrow> pym res" where
  "expression_flexiblyindexed lower dim2idxs expr ctx =
     (case arg0 expr of
        Inl e \<Rightarrow> (Inl e, ctx)
      | Inr child \<Rightarrow>
          bind_res (lower child ctx) (\<lambda>var c.
            case sequence (map (flexi_dim c) dim2idxs) of
              Inl e \<Rightarrow> (Inl e, c)
            | Inr rank \<Rightarrow> (Inr (p_Subscript var rank), c)))"

text \<open>\<^verbatim>\<open>fetch_multiindex\<close> for one index.\<close>

definition fetch_index ::
  "(gem \<Rightarrow> LoopyContext \<Rightarrow> pym res) \<Rightarrow> gem gindex \<Rightarrow> LoopyContext \<Rightarrow> pym res" where
  "fetch_index lower index ctx =
     (case index of
        Index _ _ _ \<Rightarrow>
          (case map_of (active_indices ctx) index of
             None \<Rightarrow> (Inl KeyError, ctx)
           | Some v \<Rightarrow> (Inr v, ctx))
      | VariableIndex e \<Rightarrow> lower e ctx
      | IntIndex n \<Rightarrow> (Inr (p_Int n), ctx))"

text \<open>
  \<^verbatim>\<open>expression\<close>, \<^verbatim>\<open>_expression\<close>, \<^verbatim>\<open>pymbolic_variable\<close> and \<^verbatim>\<open>fetch_multiindex\<close> call one
  another, and the index table of the context can send the lowering of a node to any
  other node. The first argument is the depth the call stack may still grow by; a call
  that finds it exhausted raises \<open>RecursionError\<close>.
\<close>

fun expression :: "nat \<Rightarrow> gem \<Rightarrow> bool \<Rightarrow> LoopyContext \<Rightarrow> pym res"
  and expression' :: "nat \<Rightarrow> gem \<Rightarrow> LoopyContext \<Rightarrow> pym res"
  and pymbolic_variable :: "nat \<Rightarrow> gem \<Rightarrow> LoopyContext \<Rightarrow> pym res"
  and fetch_multiindex :: "nat \<Rightarrow> gem gindex list \<Rightarrow> LoopyContext \<Rightarrow> pym list res"
where
  "expression 0 expr toplevel ctx = (Inl RecursionError, ctx)"
| "expression (Suc d) expr toplevel ctx =
     (if \<not> toplevel \<and> gem_to_pymbolic ctx (gem_key expr) \<noteq> None then pymbolic_variable d expr ctx
      else expression' d expr ctx)"
| "expression' 0 expr ctx = (Inl RecursionError, ctx)"
| "expression' (Suc d) expr ctx =
     (case cls expr of
        gem_Failure exception \<Rightarrow> (Inl (GemFailure exception), ctx)
      | gem_Product \<Rightarrow> expression_nary (\<lambda>c. expression d c False) p_Product expr ctx
      | gem_Sum \<Rightarrow> expression_nary (\<lambda>c. expression d c False) p_Sum expr ctx
      | gem_Division \<Rightarrow> expression_division (\<lambda>c. expression d c False) expr ctx
      | gem_Power \<Rightarrow>
          expression_nary (\<lambda>c. expression d c False) (p_Call (p_Variable ''pow'')) expr ctx
      | gem_MathFunction name \<Rightarrow>
          expression_mathfunction (\<lambda>c. expression d c False) name expr ctx
      | gem_MinValue \<Rightarrow>
          expression_nary (\<lambda>c. expression d c False) (p_Call (p_Variable ''min'')) expr ctx
      | gem_MaxValue \<Rightarrow>
          expression_nary (\<lambda>c. expression d c False) (p_Call (p_Variable ''max'')) expr ctx
      | gem_Comparison operator \<Rightarrow>
          expression_comparison (\<lambda>c. expression d c False) operator expr ctx
      | gem_LogicalNot \<Rightarrow> expression_nary (\<lambda>c. expression d c False) p_LogicalNot expr ctx
      | gem_LogicalAnd \<Rightarrow> expression_nary (\<lambda>c. expression d c False) p_LogicalAnd expr ctx
      | gem_LogicalOr \<Rightarrow> expression_nary (\<lambda>c. expression d c False) p_LogicalOr expr ctx
      | gem_Conditional \<Rightarrow> expression_conditional (\<lambda>c. expression d c False) expr ctx
      | gem_Literal _ _ \<Rightarrow> (expression_scalar expr ctx, ctx)
      | gem_Zero \<Rightarrow> (expression_scalar expr ctx, ctx)
      | gem_Identity \<Rightarrow> (expression_scalar expr ctx, ctx)
      | gem_Variable _ \<Rightarrow> pymbolic_variable d expr ctx
      | gem_Indexed multiindex \<Rightarrow>
          expression_indexed (fetch_multiindex d) (\<lambda>c. expression d c False) multiindex expr ctx
      | gem_FlexiblyIndexed dim2idxs \<Rightarrow>
          expression_flexiblyindexed (\<lambda>c. expression d c False) dim2idxs expr ctx
      | _ \<Rightarrow> (Inl (AssertionError ''cannot generate expression from''), ctx))"
| "pymbolic_variable 0 node ctx = (Inl RecursionError, ctx)"
| "pymbolic_variable (Suc d) node ctx =
     bind_res (gem_to_pym_var node ctx) (\<lambda>pym c.
       case indices c (gem_key node) of
         None \<Rightarrow> (Inr pym, c)
       | Some multiindex \<Rightarrow>
           bind_res (fetch_multiindex d multiindex c) (\<lambda>idxs c'.
             (Inr (if idxs \<noteq> [] then p_Subscript pym idxs else pym), c')))"
| "fetch_multiindex 0 multiindex ctx = (Inl RecursionError, ctx)"
| "fetch_multiindex (Suc d) multiindex ctx =
     map_res (fetch_index (\<lambda>e. expression d e False)) multiindex ctx"

text \<open>\<^verbatim>\<open>pymbolic_variable_and_destruct\<close>.\<close>

definition pymbolic_variable_and_destruct ::
  "nat \<Rightarrow> gem \<Rightarrow> LoopyContext \<Rightarrow> (pym \<times> pym list) res" where
  "pymbolic_variable_and_destruct d node ctx =
     bind_res (pymbolic_variable d node ctx) (\<lambda>pym c.
       case pym of
         p_Subscript aggregate index \<Rightarrow> (Inr (aggregate, index), c)
       | _ \<Rightarrow> (Inr (pym, []), c))"

section \<open>The auxiliary kernel of a matrix-free solve\<close>

text \<open>
  \<^verbatim>\<open>loopy_matfree_solve\<close> builds one kernel from a domain and instructions given as text,
  fixes the parameter \<open>n\<close> to \<open>shape[0]\<close> and stores the kernel in the global. The domain
  text bounds every iname by \<open>0 \<le> i < n\<close>, except \<open>i_6\<close>, the iname of the iteration loop:
  \<^verbatim>\<open>0<=i_6<=3*n\<close>.
\<close>

definition matfree_cg_domain :: "nat \<Rightarrow> domain" where
  "matfree_cg_domain n =
     map (\<lambda>i. (i, 0, int n - 1)) [''i_0'', ''i_1'', ''j_1'', ''i_2'', ''j_2'', ''i_3'', ''i_4'', ''i_5'']
     @ [(''i_6'', 0, 3 * int n)]
     @ map (\<lambda>i. (i, 0, int n - 1))
         [''i_7'', ''j_7'', ''i_8'', ''j_8'', ''i_9'', ''i_10'', ''i_11'', ''i_12'', ''i_13'',
          ''i_14'', ''i_15'', ''i_16'', ''i_17'']"

definition stop_criterion :: lp_insn where
  "stop_criterion =
     lp_CInstruction ''''
       (''if ('' @ (take 4 ''matfree_cg_kernel'' @ ''_'') @ ''rkp1_norm < 0.000001) break;'')
       [''rkp1_norm''] ''rkp1_normk'' ''cond''"

text \<open>The instruction text, a line each, without the indentation.\<close>

definition matfree_cg_text_before :: "string list" where
  "matfree_cg_text_before =
     [''x[i_0] = 1.0 {id=x0}'',
      ''A_on_x[:] = action_A(A[:,:], x[:]) {dep=x0, id=Aonx}'',
      ''<> r[i_3] = A_on_x[i_3]-b[i_3] {dep=Aonx, id=residual0}'',
      ''p[i_4] = -r[i_4] {dep=residual0, id=projector0}'',
      ''<> rk_norm = 0 {dep=projector0, id=rk_norm0}'',
      ''rk_norm = rk_norm + r[i_5]*r[i_5] {dep=projector0, id=rk_norm1}'',
      ''for i_6'',
      ''A_on_p[:] = action_A_on_p(A[:,:], p[:]) {dep=rk_norm1, id=Aonp, inames=i_6}'',
      ''<> p_on_Ap = 0 {dep=Aonp, id=ponAp0}'',
      ''p_on_Ap = p_on_Ap + p[j_2]*A_on_p[j_2] {dep=ponAp0, id=ponAp}'',
      ''<> alpha = rk_norm / p_on_Ap {dep=ponAp, id=alpha}'',
      ''x[i_10] = x[i_10] + alpha*p[i_10] {dep=ponAp, id=xk}'',
      ''r[i_11] = r[i_11] + alpha*A_on_p[i_11] {dep=xk,id=rk}'',
      ''<> rkp1_norm = 0 {dep=rk, id=rkp1_norm0}'',
      ''rkp1_norm = rkp1_norm + r[i_12]*r[i_12] {dep=rkp1_norm0, id=rkp1_normk}'']"

definition matfree_cg_text_after :: "string list" where
  "matfree_cg_text_after =
     [''<> beta = rkp1_norm / rk_norm {dep=cond, id=beta}'',
      ''rk_norm = rkp1_norm {dep=beta, id=rk_normk}'',
      ''p[i_15] = beta * p[i_15] - r[i_15] {dep=rk_normk, id=projectork}'',
      ''A_on_p[i_17] = 0. {dep=rk_normk, id=Aonp0, inames=i_6}'',
      ''end'',
      ''output[i_16] = x[i_16] {dep=projectork, id=out}'']"

definition matfree_cg_kernel :: "nat \<Rightarrow> nat list \<Rightarrow> lp_kernel" where
  "matfree_cg_kernel n shp =
     \<lparr>knl_name = ''matfree_cg_kernel'',
      knl_domains = [matfree_cg_domain n],
      knl_instructions =
        map (\<lambda>insn. (insn, 0))
          [lp_Text matfree_cg_text_before, stop_criterion, lp_Text matfree_cg_text_after],
      knl_data =
        [lp_GlobalArg ''A'' np_float64 [n, n] False,
         lp_GlobalArg ''b'' np_float64 shp False,
         lp_TemporaryVariable ''x'' np_float64 shp None False,
         lp_GlobalArg ''output'' np_float64 shp True,
         lp_TemporaryVariable ''A_on_x'' np_float64 shp None False,
         lp_TemporaryVariable ''A_on_p'' np_float64 shp None False,
         lp_TemporaryVariable ''p'' np_float64 shp None False],
      knl_loop_priority = []\<rparr>"

text \<open>\<^verbatim>\<open>loopy_matfree_solve(lhs, reads, ctx, shape)\<close>; \<^verbatim>\<open>shape[0]\<close> of an empty shape is an
  \<^verbatim>\<open>IndexError\<close>, raised before the global is written.\<close>

definition loopy_matfree_solve ::
  "pym list \<Rightarrow> pym list \<Rightarrow> nat list \<Rightarrow> LoopyContext \<Rightarrow> unit res" where
  "loopy_matfree_solve lhs reads shp ctx =
     (case shp of
        [] \<Rightarrow> (Inl IndexError, ctx)
      | n # _ \<Rightarrow> (Inr (), ctx\<lparr>matfree_solve_knl := Some (matfree_cg_kernel n shp)\<rparr>))"

section \<open>Lowering statements\<close>

text \<open>\<^verbatim>\<open>lhs + rhs\<close> of two pymbolic expressions is the sum of the two; the simplifications
  pymbolic may apply to it are not modelled.\<close>

definition pym_add :: "pym \<Rightarrow> pym \<Rightarrow> pym" where
  "pym_add lhs rhs = p_Sum [lhs, rhs]"

definition assignment :: "pym \<Rightarrow> pym \<Rightarrow> LoopyContext \<Rightarrow> lp_insn res" where
  "assignment lhs rhs ctx =
     (case active_inames ctx of
        Inl e \<Rightarrow> (Inl e, ctx)
      | Inr inames \<Rightarrow> (Inr (lp_Assignment lhs rhs inames), ctx))"

definition call_instruction :: "pym list \<Rightarrow> pym \<Rightarrow> LoopyContext \<Rightarrow> lp_insn list res" where
  "call_instruction lhs rhs ctx =
     (case active_inames ctx of
        Inl e \<Rightarrow> (Inl e, ctx)
      | Inr inames \<Rightarrow> (Inr [lp_CallInstruction lhs rhs inames], ctx))"

definition statement_initialise :: "nat \<Rightarrow> gem \<Rightarrow> LoopyContext \<Rightarrow> lp_insn list res" where
  "statement_initialise d indexsum ctx =
     bind_res (expression d indexsum False ctx) (\<lambda>lhs c.
     bind_res (assignment lhs (p_Float (Fin 0)) c) (\<lambda>insn c'. (Inr [insn], c')))"

definition statement_accumulate :: "nat \<Rightarrow> gem \<Rightarrow> LoopyContext \<Rightarrow> lp_insn list res" where
  "statement_accumulate d indexsum ctx =
     bind_res (expression d indexsum False ctx) (\<lambda>lhs c1.
       case arg0 indexsum of
         Inl e \<Rightarrow> (Inl e, c1)
       | Inr child \<Rightarrow>
           bind_res (expression d child False c1) (\<lambda>x c2.
           bind_res (assignment lhs (pym_add lhs x) c2) (\<lambda>insn c'. (Inr [insn], c'))))"

definition statement_return :: "nat \<Rightarrow> gem \<Rightarrow> gem \<Rightarrow> LoopyContext \<Rightarrow> lp_insn list res" where
  "statement_return d variable expr ctx =
     bind_res (expression d variable False ctx) (\<lambda>lhs c1.
     bind_res (expression d expr False c1) (\<lambda>rhs c2.
     bind_res (assignment lhs (if return_increments c2 then pym_add lhs rhs else rhs) c2)
       (\<lambda>insn c'. (Inr [insn], c'))))"

definition statement_returnaccumulate ::
  "nat \<Rightarrow> gem \<Rightarrow> gem \<Rightarrow> LoopyContext \<Rightarrow> lp_insn list res" where
  "statement_returnaccumulate d variable indexsum ctx =
     bind_res (expression d variable False ctx) (\<lambda>lhs c1.
       case arg0 indexsum of
         Inl e \<Rightarrow> (Inl e, c1)
       | Inr child \<Rightarrow>
           bind_res (expression d child False c1) (\<lambda>x c2.
           bind_res (assignment lhs (pym_add lhs x) c2) (\<lambda>insn c'. (Inr [insn], c'))))"

text \<open>\<^verbatim>\<open>numpy.ndenumerate\<close> visits the multi-indices of a shape in row-major order.\<close>

fun ndindex :: "nat list \<Rightarrow> nat list list" where
  "ndindex [] = [[]]"
| "ndindex (n # ns) = concat (map (\<lambda>i. map ((#) i) (ndindex ns)) [0..<n])"

text \<open>The sub-array reference of a node: fresh indices for its shape around a subscript
  of its variable. \<^verbatim>\<open>statement_evaluate\<close> writes these three lines once for the output and
  once for each operand of a call.\<close>

definition sub_array_ref :: "nat \<Rightarrow> gem \<Rightarrow> LoopyContext \<Rightarrow> pym res" where
  "sub_array_ref d node ctx =
     bind_res (pymbolic_multiindex (shape node) ctx) (\<lambda>idx c1.
     bind_res (pymbolic_variable d node c1) (\<lambda>var c2.
       (Inr (SubArrayRef idx (p_Subscript var idx)), c2)))"

definition statement_evaluate :: "nat \<Rightarrow> gem \<Rightarrow> LoopyContext \<Rightarrow> lp_insn list res" where
  "statement_evaluate d expr ctx =
     (case cls expr of
        gem_ListTensor \<Rightarrow>
          bind_res (pymbolic_variable_and_destruct d expr ctx) (\<lambda>(var, index) c.
            map_res (\<lambda>(multiindex, val) c1.
                       bind_res (expression d val False c1)
                         (assignment (p_Subscript var (index @ map (p_Int \<circ> int) multiindex))))
              (zip (ndindex (shape expr)) (children expr)) c)
      | gem_Literal _ _ \<Rightarrow> (Inr [], ctx)
      | gem_Zero \<Rightarrow> (Inr [], ctx)
      | gem_Identity \<Rightarrow> (Inr [], ctx)
      | gem_ComponentTensor multiindex \<Rightarrow>
          bind_res (gem_to_pym_multiindex multiindex ctx) (\<lambda>idx c1.
          bind_res (pymbolic_variable_and_destruct d expr c1) (\<lambda>(var, sub_idx) c2.
            active_indices_scope (dict_of (zip multiindex idx))
              (\<lambda>ctx_active.
                 case arg0 expr of
                   Inl e \<Rightarrow> (Inl e, ctx_active)
                 | Inr child \<Rightarrow>
                     bind_res (expression d child False ctx_active) (\<lambda>rhs c3.
                     bind_res (assignment (p_Subscript var (idx @ sub_idx)) rhs c3)
                       (\<lambda>insn c'. (Inr [insn], c'))))
              c2))
      | gem_Inverse \<Rightarrow>
          bind_res (sub_array_ref d expr ctx) (\<lambda>lhs c1.
            case arg0 expr of
              Inl e \<Rightarrow> (Inl e, c1)
            | Inr child \<Rightarrow>
                bind_res (sub_array_ref d child c1) (\<lambda>reads c2.
                  call_instruction [lhs] (p_Call (p_Variable ''inverse'') [reads]) c2))
      | gem_Action \<Rightarrow>
          bind_res (sub_array_ref d expr ctx) (\<lambda>lhs c1.
          bind_res (map_res (sub_array_ref d) (children expr) c1) (\<lambda>reads c2.
            call_instruction [lhs] (p_Call (p_Variable ''action'') reads) c2))
      | gem_Solve matfree \<Rightarrow>
          (if matfree then
             bind_res (sub_array_ref d expr ctx) (\<lambda>lhs c1.
             bind_res (map_res (sub_array_ref d) (children expr) c1) (\<lambda>reads c2.
             bind_res (loopy_matfree_solve [lhs] reads (shape expr) c2) (\<lambda>u c3.
               case matfree_solve_knl c3 of
                 None \<Rightarrow> (Inl AttributeError, c3)
               | Some knl \<Rightarrow>
                   call_instruction [lhs] (p_Call (p_Variable (knl_name knl)) reads) c3)))
           else
             bind_res (sub_array_ref d expr ctx) (\<lambda>lhs c1.
             bind_res (map_res (sub_array_ref d) (children expr) c1) (\<lambda>reads c2.
               call_instruction [lhs] (p_Call (p_Variable ''solve'') reads) c2)))
      | _ \<Rightarrow>
          bind_res (pymbolic_variable d expr ctx) (\<lambda>lhs c1.
          bind_res (expression d expr True c1) (\<lambda>rhs c2.
          bind_res (assignment lhs rhs c2) (\<lambda>insn c'. (Inr [insn], c')))))"

text \<open>\<^verbatim>\<open>statement_for\<close>: only an \<open>Index\<close> has an extent, and the extent must be true (not
  \<^verbatim>\<open>None\<close>, not 0).\<close>

definition statement_for ::
  "(impero \<Rightarrow> LoopyContext \<Rightarrow> lp_insn list res) \<Rightarrow> gem gindex \<Rightarrow> impero \<Rightarrow>
   LoopyContext \<Rightarrow> lp_insn list res" where
  "statement_for lower index body ctx =
     (case index of
        Index _ _ ext \<Rightarrow>
          (if ext = None \<or> ext = Some 0 then (Inl (AssertionError ''''), ctx)
           else
             (let (seed, c0) = index_names_get (Inl index) ctx;
                  (idx, c1) = name_gen_call seed c0;
                  c2 = c1\<lparr>index_extent := dict_set idx (the ext) (index_extent c1)\<rparr>
              in active_indices_scope (dict_of [(index, p_Variable idx)]) (lower body) c2))
      | _ \<Rightarrow> (Inl AttributeError, ctx))"

definition statement_block ::
  "(impero \<Rightarrow> LoopyContext \<Rightarrow> lp_insn list res) \<Rightarrow> impero list \<Rightarrow>
   LoopyContext \<Rightarrow> lp_insn list res" where
  "statement_block lower cs ctx =
     bind_res (map_res lower cs ctx) (\<lambda>xss c. (Inr (concat xss), c))"

fun statement :: "nat \<Rightarrow> impero \<Rightarrow> LoopyContext \<Rightarrow> lp_insn list res" where
  "statement 0 tree ctx = (Inl RecursionError, ctx)"
| "statement (Suc d) tree ctx =
     (case tree of
        imp_Block cs \<Rightarrow> statement_block (statement d) cs ctx
      | imp_For index body \<Rightarrow> statement_for (statement d) index body ctx
      | imp_Initialise indexsum \<Rightarrow> statement_initialise d indexsum ctx
      | imp_Accumulate indexsum \<Rightarrow> statement_accumulate d indexsum ctx
      | imp_Return variable expr \<Rightarrow> statement_return d variable expr ctx
      | imp_ReturnAccumulate variable indexsum \<Rightarrow>
          statement_returnaccumulate d variable indexsum ctx
      | imp_Evaluate expr \<Rightarrow> statement_evaluate d expr ctx
      | imp_Noop \<Rightarrow> (Inl (AssertionError ''cannot generate loopy from''), ctx))"

section \<open>Assembling the kernel\<close>

text \<open>\<^verbatim>\<open>numpy.find_common_type\<close> on the types of the model: the result is complex when one of
  the candidates is, and as wide as the widest candidate.\<close>

definition find_common_type :: "dtype set \<Rightarrow> dtype" where
  "find_common_type S =
     (let wide = (np_float64 \<in> S \<or> np_complex128 \<in> S);
          single = (np_float32 \<in> S \<or> np_complex64 \<in> S)
      in if np_complex64 \<in> S \<or> np_complex128 \<in> S then
           (if wide then np_complex128 else np_complex64)
         else if wide then np_float64
         else if single then np_float32
         else if np_float16 \<in> S then np_float16
         else np_int8)"

definition assign_dtypes :: "gem list \<Rightarrow> dtype \<Rightarrow> error + (gem \<times> dtype) list" where
  "assign_dtypes expressions st =
     (case finfo_dtype st of
        Inl e \<Rightarrow> Inl e
      | Inr rt \<Rightarrow>
          sequence (map (\<lambda>e. case assign_dtype' st rt e of
                               Inl err \<Rightarrow> Inl err
                             | Inr S \<Rightarrow> Inr (e, find_common_type S)) expressions))"

text \<open>The imperative tree comes with the list of the nodes that are stored in
  temporaries and with the indices of each of them.\<close>

record ImperoC =
  tree :: impero
  temporaries :: "gem list"
  impero_indices :: "gem \<rightharpoonup> gem gindex list"

text \<open>Modelled from the spec: the array of a constant node, the initializer of its
  temporary.\<close>

definition node_array :: "gem \<Rightarrow> npfloat list" where
  "node_array e =
     (case cls e of
        gem_Literal vs _ \<Rightarrow> vs
      | gem_Identity \<Rightarrow>
          concat (map (\<lambda>i. map (\<lambda>j. if i = j then Fin 1 else Fin 0) [0..<hd (shape e)])
                      [0..<hd (shape e)])
      | _ \<Rightarrow> replicate (prod_list (shape e)) (Fin 0))"

text \<open>The extents of the indices of a temporary. An index without an extent would put
  \<^verbatim>\<open>None\<close> into the shape, which is taken to be refused.\<close>

definition index_extents :: "gem gindex list \<Rightarrow> error + nat list" where
  "index_extents multiindex =
     sequence (map (\<lambda>i. case i of
                           Index _ _ (Some n) \<Rightarrow> Inr n
                         | Index _ _ None \<Rightarrow> Inl TypeError
                         | _ \<Rightarrow> Inl AttributeError) multiindex)"

text \<open>One round of the loop that declares the temporaries: the temporary \<open>t<i>\<close> is
  declared and the node is entered into the table under that name. The name is not
  given to the name generator.\<close>

definition declare_temporary ::
  "nat \<times> gem \<times> dtype \<Rightarrow> LoopyContext \<Rightarrow> lp_data res" where
  "declare_temporary = (\<lambda>(i, temp, dt) ctx.
     (let name = ''t'' @ str_nat i;
          entered = ctx\<lparr>gem_to_pymbolic := (gem_to_pymbolic ctx)(gem_key temp \<mapsto> p_Variable name)\<rparr>
      in if is_Constant temp then
           (Inr (lp_TemporaryVariable name dt (shape temp) (Some (node_array temp)) True), entered)
         else
           (case indices ctx (gem_key temp) of
              None \<Rightarrow> (Inl KeyError, ctx)
            | Some multiindex \<Rightarrow>
                (case index_extents multiindex of
                   Inl e \<Rightarrow> (Inl e, ctx)
                 | Inr exts \<Rightarrow>
                     (Inr (lp_TemporaryVariable name dt (exts @ shape temp) None False),
                      entered)))))"

text \<open>\<^verbatim>\<open>create_domains\<close>: one domain \<open>0 \<le> idx < extent\<close> per index, and the domain without
  an iname when there is no index.\<close>

definition create_domains :: "(string \<times> nat) list \<Rightarrow> domain list" where
  "create_domains idxs =
     (let domains = map (\<lambda>(idx, ext). [(idx, 0, int ext - 1)]) idxs
      in if domains = [] then [[]] else domains)"

text \<open>The priorities \<open>generate\<close> gives to the instructions: the number of instructions
  for the first one, down to 1 for the last.\<close>

definition prioritize :: "lp_insn list \<Rightarrow> (lp_insn \<times> nat) list" where
  "prioritize insns = map (\<lambda>(i, insn). (insn, length insns - i)) (enumerate 0 insns)"

text \<open>
  \<^verbatim>\<open>generate\<close>. \<open>g\<close> is the value of the global \<^verbatim>\<open>matfree_solve_knl\<close> when the call starts;
  the second component of the result is its value when the call ends, by a \<^verbatim>\<open>return\<close> or
  by an exception. \<open>d\<close> bounds the depth of the call stack.
\<close>

definition new_context ::
  "ImperoC \<Rightarrow> dtype \<Rightarrow> rat \<Rightarrow> (gem gindex \<times> string) list \<Rightarrow> bool \<Rightarrow> lp_kernel option \<Rightarrow>
   LoopyContext" where
  "new_context impero_c st eps names incr g =
     \<lparr>indices = impero_indices impero_c,
      index_names = map_of (rev (map (\<lambda>(k, v). (Inl k, v)) names)),
      active_indices = [],
      index_extent = [],
      gem_to_pymbolic = Map.empty,
      name_gen = [],
      new_variables = [],
      epsilon = eps,
      scalar_type = st,
      return_increments = incr,
      matfree_solve_knl = g\<rparr>"

text \<open>
  The four functions of loopy that \<^verbatim>\<open>generate\<close> calls on a kernel with a pending auxiliary
  kernel. loopy is a library, not a part of the backend; the functions are given by what
  they do to the structure of a program. The checks loopy makes on the way are left out
  (the functions always return), and so is the renaming that keeps names apart when a
  kernel is inlined at more than one call.

  \<^verbatim>\<open>make_program\<close> wraps a kernel, and \<^verbatim>\<open>register_callable_kernel\<close> adds a callee to the
  callables. The arguments of a callee are its \<^verbatim>\<open>GlobalArg\<close>s: the parameters of a call
  stand for those it reads, in their order, and the assignees for those that are
  output only.
\<close>

definition make_program :: "lp_kernel \<Rightarrow> lp_program" where
  "make_program knl = \<lparr>root_kernel = knl, callables = []\<rparr>"

definition register_callable_kernel :: "lp_program \<Rightarrow> lp_kernel \<Rightarrow> lp_program" where
  "register_callable_kernel prg callee = prg\<lparr>callables := callables prg @ [callee]\<rparr>"

definition calls :: "string \<Rightarrow> lp_insn \<Rightarrow> bool" where
  "calls name insn =
     (case insn of
        lp_CallInstruction _ (p_Call (p_Variable f) _) _ \<Rightarrow> f = name
      | _ \<Rightarrow> False)"

fun is_input :: "lp_data \<Rightarrow> bool" where
  "is_input (lp_GlobalArg _ _ _ out) = (\<not> out)"
| "is_input _ = False"

fun is_output :: "lp_data \<Rightarrow> bool" where
  "is_output (lp_GlobalArg _ _ _ out) = out"
| "is_output _ = False"

fun is_temporary :: "lp_data \<Rightarrow> bool" where
  "is_temporary (lp_TemporaryVariable _ _ _ _ _) = True"
| "is_temporary _ = False"

definition arg_map :: "lp_kernel \<Rightarrow> lp_insn \<Rightarrow> (string \<times> pym) list" where
  "arg_map callee call =
     (case call of
        lp_CallInstruction assignees (p_Call _ parameters) _ \<Rightarrow>
          zip (map data_name (filter is_input (knl_data callee))) parameters
          @ zip (map data_name (filter is_output (knl_data callee))) assignees
      | _ \<Rightarrow> [])"

text \<open>
  \<^verbatim>\<open>_match_caller_callee_argument_dimension_\<close> looks at the first call of the callee in the
  root kernel and gives each argument of the callee the dimensions of what the caller
  passes for it: the sizes of the inames a sub-array reference sweeps, \<open>(1)\<close> when there
  is none and for an argument that is no array.
\<close>

definition iname_size :: "domain list \<Rightarrow> string \<Rightarrow> nat" where
  "iname_size domains iname =
     (case map_of (concat domains) iname of
        Some (lo, hi) \<Rightarrow> nat (hi - lo + 1)
      | None \<Rightarrow> 1)"

definition sub_array_shape :: "lp_kernel \<Rightarrow> pym \<Rightarrow> nat list" where
  "sub_array_shape caller arg =
     (case arg of
        SubArrayRef swept _ \<Rightarrow>
          (let shp = map (\<lambda>i. case i of p_Variable iname \<Rightarrow> iname_size (knl_domains caller) iname
                                   | _ \<Rightarrow> 1) swept
           in if shp = [] then [1] else shp)
      | _ \<Rightarrow> [1])"

fun with_shape :: "nat list \<Rightarrow> lp_data \<Rightarrow> lp_data" where
  "with_shape shp (lp_GlobalArg name dt _ out) = lp_GlobalArg name dt shp out"
| "with_shape shp (lp_TemporaryVariable name dt _ init ro) =
     lp_TemporaryVariable name dt shp init ro"

definition match_callee :: "lp_kernel \<Rightarrow> lp_insn \<Rightarrow> lp_kernel \<Rightarrow> lp_kernel" where
  "match_callee caller call callee =
     callee\<lparr>knl_data :=
       map (\<lambda>d. case map_of (arg_map callee call) (data_name d) of
                  Some arg \<Rightarrow> with_shape (sub_array_shape caller arg) d
                | None \<Rightarrow> d)
           (knl_data callee)\<rparr>"

definition match_caller_callee_argument_dimension :: "lp_program \<Rightarrow> string \<Rightarrow> lp_program" where
  "match_caller_callee_argument_dimension prg name =
     (case find (\<lambda>x. calls name (fst x)) (knl_instructions (root_kernel prg)) of
        None \<Rightarrow> prg
      | Some (call, _) \<Rightarrow>
          prg\<lparr>callables :=
            map (\<lambda>k. if knl_name k = name then match_callee (root_kernel prg) call k else k)
                (callables prg)\<rparr>)"

text \<open>
  \<^verbatim>\<open>inline_callable_kernel\<close> replaces every call of the callee in the root kernel by a
  marker, the instructions of the callee and a second marker, all with the priority
  and the inames of the call; the inames and the temporaries of the callee come into the
  root kernel under the prefix made of the first four letters of the callee's name.
\<close>

definition inline_call :: "lp_kernel \<Rightarrow> lp_insn \<times> nat \<Rightarrow> (lp_insn \<times> nat) list" where
  "inline_call callee = (\<lambda>(call, priority).
     (let label = take 4 (knl_name callee) @ ''_'';
          call_inames = (case call of lp_CallInstruction _ _ inames \<Rightarrow> inames | _ \<Rightarrow> {})
      in (lp_NoOp call_inames, priority)
         # map (\<lambda>(insn, _). (lp_Inlined label (arg_map callee call) call_inames insn, priority))
               (knl_instructions callee)
         @ [(lp_NoOp call_inames, priority)]))"

fun with_name :: "string \<Rightarrow> lp_data \<Rightarrow> lp_data" where
  "with_name name (lp_GlobalArg _ dt shp out) = lp_GlobalArg name dt shp out"
| "with_name name (lp_TemporaryVariable _ dt shp init ro) =
     lp_TemporaryVariable name dt shp init ro"

definition inline_callable_kernel :: "lp_program \<Rightarrow> string \<Rightarrow> lp_program" where
  "inline_callable_kernel prg name =
     (case find (\<lambda>k. knl_name k = name) (callables prg) of
        None \<Rightarrow> prg
      | Some callee \<Rightarrow>
          (let caller = root_kernel prg;
               label = take 4 (knl_name callee) @ ''_''
           in if \<not> (\<exists>x \<in> set (knl_instructions caller). calls name (fst x)) then prg
              else
                prg\<lparr>root_kernel := caller
                  \<lparr>knl_domains :=
                     knl_domains caller
                     @ map (map (\<lambda>(iname, lo, hi). (label @ iname, lo, hi))) (knl_domains callee),
                   knl_instructions :=
                     concat (map (\<lambda>x. if calls name (fst x) then inline_call callee x else [x])
                                 (knl_instructions caller)),
                   knl_data :=
                     knl_data caller
                     @ map (\<lambda>d. with_name (label @ data_name d) d)
                           (filter is_temporary (knl_data callee))\<rparr>\<rparr>))"

text \<open>The kernel \<^verbatim>\<open>generate\<close> makes of the instructions and of the context the lowering
  left: the domains of the indices, the loop priority in the order of the indices, and
  the instructions with their priorities.\<close>

definition assemble_kernel ::
  "string \<Rightarrow> lp_data list \<Rightarrow> lp_insn list \<Rightarrow> LoopyContext \<Rightarrow> lp_kernel" where
  "assemble_kernel kernel_name data instructions ctx =
     \<lparr>knl_name = kernel_name,
      knl_domains = create_domains (index_extent ctx),
      knl_instructions = prioritize instructions,
      knl_data = data,
      knl_loop_priority = map fst (index_extent ctx)\<rparr>"

text \<open>The last lines of \<^verbatim>\<open>generate\<close>: with a pending auxiliary kernel the kernel becomes a
  program, the auxiliary kernel is registered, matched and inlined; without one the
  kernel is returned as it is.\<close>

definition with_pending :: "lp_kernel \<Rightarrow> lp_kernel option \<Rightarrow> generated" where
  "with_pending knl pending =
     (case pending of
        Some aux \<Rightarrow>
          Program (inline_callable_kernel
                     (match_caller_callee_argument_dimension
                        (register_callable_kernel (make_program knl) aux)
                        (knl_name aux))
                     (knl_name aux))
      | None \<Rightarrow> Kernel knl)"

definition generate ::
  "nat \<Rightarrow> ImperoC \<Rightarrow> lp_data list \<Rightarrow> dtype \<Rightarrow> string \<Rightarrow> (gem gindex \<times> string) list \<Rightarrow> bool \<Rightarrow>
   lp_kernel option \<Rightarrow> (error + generated) \<times> lp_kernel option" where
  "generate d impero_c args st kernel_name names incr g =
     (case finfo_resolution st of
        Inl e \<Rightarrow> (Inl e, g)
      | Inr eps \<Rightarrow>
          (case assign_dtypes (temporaries impero_c) st of
             Inl e \<Rightarrow> (Inl e, g)
           | Inr typed \<Rightarrow>
               (case map_res declare_temporary
                       (enumerate 0 typed)
                       (new_context impero_c st eps names incr g) of
                  (Inl e, c) \<Rightarrow> (Inl e, matfree_solve_knl c)
                | (Inr temps, c) \<Rightarrow>
                    (case statement d (tree impero_c) c of
                       (Inl e, c') \<Rightarrow> (Inl e, matfree_solve_knl c')
                     | (Inr instructions, c') \<Rightarrow>
                         (Inr (with_pending
                                 (assemble_kernel kernel_name (args @ temps) instructions c')
                                 (matfree_solve_knl c')), None)))))"

section \<open>What the auxiliary kernel computes\<close>

text \<open>
  The instruction text of the auxiliary kernel is a program of its own; this section is
  its embedding. An iname takes the values of its domain in increasing order, a
  statement with an iname of its own is a loop over that iname, and the C instruction
  leaves the loop over \<open>i_6\<close>.

  The arithmetic of the target is a parameter: the literals of the text, the four
  operations, negation and the comparison. \<open>action_A\<close> and \<open>action_A_on_p\<close> are the two
  external callables of the text; \<open>A\<close> is passed to them untouched. Arrays have their
  declared length \<open>n\<close>.
\<close>

record 'a arith =
  lit :: "rat \<Rightarrow> 'a"
  add :: "'a \<Rightarrow> 'a \<Rightarrow> 'a"
  sub :: "'a \<Rightarrow> 'a \<Rightarrow> 'a"
  mul :: "'a \<Rightarrow> 'a \<Rightarrow> 'a"
  quot :: "'a \<Rightarrow> 'a \<Rightarrow> 'a"
  neg :: "'a \<Rightarrow> 'a"
  less_than :: "'a \<Rightarrow> 'a \<Rightarrow> bool"

definition iname_values :: "domain \<Rightarrow> string \<Rightarrow> nat list" where
  "iname_values domn i = (case map_of domn i of None \<Rightarrow> [] | Some (lo, hi) \<Rightarrow> map nat [lo..hi])"

text \<open>\<^verbatim>\<open>s = 0\<close> followed by \<^verbatim>\<open>s = s + u[i]*v[i]\<close> over the values of an iname.\<close>

definition dot :: "'a arith \<Rightarrow> nat list \<Rightarrow> 'a list \<Rightarrow> 'a list \<Rightarrow> 'a" where
  "dot ar is u v = foldl (\<lambda>s i. add ar s (mul ar (u ! i) (v ! i))) (lit ar 0) is"

record 'a cg_state =
  cg_x :: "'a list"
  cg_r :: "'a list"
  cg_p :: "'a list"
  cg_rk_norm :: 'a

text \<open>The instructions before the loop: \<open>x0\<close>, \<open>Aonx\<close>, \<open>residual0\<close>, \<open>projector0\<close>,
  \<open>rk_norm0\<close> and \<open>rk_norm1\<close>.\<close>

definition cg_x0 :: "'a arith \<Rightarrow> nat \<Rightarrow> 'a list" where
  "cg_x0 ar n = map (\<lambda>i_0. lit ar 1) (iname_values (matfree_cg_domain n) ''i_0'')"

definition cg_init :: "'a arith \<Rightarrow> ('m \<Rightarrow> 'a list \<Rightarrow> 'a list) \<Rightarrow> nat \<Rightarrow> 'm \<Rightarrow> 'a list \<Rightarrow> 'a cg_state" where
  "cg_init ar action_A n A b =
     (let domn = matfree_cg_domain n;
          x = cg_x0 ar n;
          A_on_x = action_A A x;
          r = map (\<lambda>i_3. sub ar (A_on_x ! i_3) (b ! i_3)) (iname_values domn ''i_3'');
          p = map (\<lambda>i_4. neg ar (r ! i_4)) (iname_values domn ''i_4'');
          rk_norm = dot ar (iname_values domn ''i_5'') r r
      in \<lparr>cg_x = x, cg_r = r, cg_p = p, cg_rk_norm = rk_norm\<rparr>)"

text \<open>One round of the loop up to the stop criterion (\<open>Aonp\<close> to \<open>rkp1_normk\<close>): the new
  \<open>x\<close> and \<open>r\<close>, with \<open>rkp1_norm\<close>. \<open>A_on_p\<close> is written by the call
  at the start of every round, so it is not carried from one round to the next (the
  instruction \<open>Aonp0\<close> that clears it at the end of a round changes nothing here).\<close>

definition cg_update ::
  "'a arith \<Rightarrow> ('m \<Rightarrow> 'a list \<Rightarrow> 'a list) \<Rightarrow> nat \<Rightarrow> 'm \<Rightarrow> 'a cg_state \<Rightarrow> 'a cg_state \<times> 'a" where
  "cg_update ar action_A_on_p n A s =
     (let domn = matfree_cg_domain n;
          A_on_p = action_A_on_p A (cg_p s);
          p_on_Ap = dot ar (iname_values domn ''j_2'') (cg_p s) A_on_p;
          alpha = quot ar (cg_rk_norm s) p_on_Ap;
          x = map (\<lambda>i_10. add ar (cg_x s ! i_10) (mul ar alpha (cg_p s ! i_10)))
                (iname_values domn ''i_10'');
          r = map (\<lambda>i_11. add ar (cg_r s ! i_11) (mul ar alpha (A_on_p ! i_11)))
                (iname_values domn ''i_11'');
          rkp1_norm = dot ar (iname_values domn ''i_12'') r r
      in (s\<lparr>cg_x := x, cg_r := r\<rparr>, rkp1_norm))"

text \<open>The stop criterion: \<^verbatim>\<open>if (rkp1_norm < 0.000001) break;\<close>\<close>

definition converged :: "'a arith \<Rightarrow> 'a \<Rightarrow> bool" where
  "converged ar rkp1_norm = less_than ar rkp1_norm (lit ar (1 / 1000000))"

text \<open>The rest of a round (\<open>beta\<close>, \<open>rk_normk\<close>, \<open>projectork\<close>).\<close>

definition cg_direction :: "'a arith \<Rightarrow> nat \<Rightarrow> 'a cg_state \<Rightarrow> 'a \<Rightarrow> 'a cg_state" where
  "cg_direction ar n s rkp1_norm =
     (let beta = quot ar rkp1_norm (cg_rk_norm s);
          p = map (\<lambda>i_15. sub ar (mul ar beta (cg_p s ! i_15)) (cg_r s ! i_15))
                (iname_values (matfree_cg_domain n) ''i_15'')
      in s\<lparr>cg_rk_norm := rkp1_norm, cg_p := p\<rparr>)"

text \<open>The loop over the values of \<open>i_6\<close>. Besides the state it returns the \<open>rkp1_norm\<close>
  of every round it entered, in order.\<close>

fun cg_loop ::
  "'a arith \<Rightarrow> ('m \<Rightarrow> 'a list \<Rightarrow> 'a list) \<Rightarrow> nat \<Rightarrow> 'm \<Rightarrow> nat list \<Rightarrow> 'a cg_state \<Rightarrow>
   'a cg_state \<times> 'a list" where
  "cg_loop ar action_A_on_p n A [] s = (s, [])"
| "cg_loop ar action_A_on_p n A (i_6 # rest) s =
     (let (s1, rkp1_norm) = cg_update ar action_A_on_p n A s
      in if converged ar rkp1_norm then (s1, [rkp1_norm])
         else
           (let (s2, norms) = cg_loop ar action_A_on_p n A rest (cg_direction ar n s1 rkp1_norm)
            in (s2, rkp1_norm # norms)))"

text \<open>The kernel: the output array, and the norms of the rounds of the loop.\<close>

definition matfree_cg_run ::
  "'a arith \<Rightarrow> ('m \<Rightarrow> 'a list \<Rightarrow> 'a list) \<Rightarrow> ('m \<Rightarrow> 'a list \<Rightarrow> 'a list) \<Rightarrow> nat \<Rightarrow> 'm \<Rightarrow>
   'a list \<Rightarrow> 'a list \<times> 'a list" where
  "matfree_cg_run ar action_A action_A_on_p n A b =
     (let domn = matfree_cg_domain n;
          (s, norms) = cg_loop ar action_A_on_p n A (iname_values domn ''i_6'')
                         (cg_init ar action_A n A b)
      in (map (\<lambda>i_16. cg_x s ! i_16) (iname_values domn ''i_16''), norms))"

text \<open>Exact arithmetic on the rationals, and the action of a matrix given by its rows.\<close>

definition rat_arith :: "rat arith" where
  "rat_arith = \<lparr>lit = (\<lambda>q. q), add = (+), sub = (-), mul = (*), quot = (/), neg = uminus,
                less_than = (<)\<rparr>"

definition matvec :: "rat list list \<Rightarrow> rat list \<Rightarrow> rat list" where
  "matvec A v = map (\<lambda>row. sum_list (map2 (*) row v)) A"

text \<open>An imperative tree whose nodes are stored in no temporary, for examples.\<close>

definition no_temporaries :: "impero \<Rightarrow> ImperoC" where
  "no_temporaries t = \<lparr>tree = t, temporaries = [], impero_indices = Map.empty\<rparr>"

section \<open>The meaning of a subscript\<close>

text \<open>
  The value of an integer expression built from variables, integers, sums and products,
  under an assignment of integers to the variables; other expressions have none.
\<close>

fun pym_eval :: "(string \<Rightarrow> int) \<Rightarrow> pym \<Rightarrow> int option" where
  "pym_eval env (p_Variable name) = Some (env name)"
| "pym_eval env (p_Int k) = Some k"
| "pym_eval env (p_Sum xs) = map_option sum_list (those (map (pym_eval env) xs))"
| "pym_eval env (p_Product xs) = map_option prod_list (those (map (pym_eval env) xs))"
| "pym_eval env _ = None"

text \<open>
  The affine expression the spec asks for, for one dimension \<open>(off, idxs)\<close> of a
  \<^verbatim>\<open>FlexiblyIndexed\<close> node: as an expression over the variables the indices are bound to in
  the context, and as a number once the variables have values.
\<close>

definition affine_subscript :: "LoopyContext \<Rightarrow> int \<times> (gem gindex \<times> int) list \<Rightarrow> pym" where
  "affine_subscript ctx = (\<lambda>(off, idxs).
     p_Sum (p_Int off #
            map (\<lambda>(index, stride). p_Product [the (map_of (active_indices ctx) index), p_Int stride])
              idxs))"

definition index_value :: "(string \<Rightarrow> int) \<Rightarrow> LoopyContext \<Rightarrow> gem gindex \<Rightarrow> int" where
  "index_value env ctx index =
     (case map_of (active_indices ctx) index of Some (p_Variable name) \<Rightarrow> env name | _ \<Rightarrow> 0)"

definition affine_value ::
  "(string \<Rightarrow> int) \<Rightarrow> LoopyContext \<Rightarrow> int \<times> (gem gindex \<times> int) list \<Rightarrow> int" where
  "affine_value env ctx = (\<lambda>(off, idxs).
     off + sum_list (map (\<lambda>(index, stride). index_value env ctx index * stride) idxs))"

text \<open>Every index of the node that is an \<open>Index\<close> is bound to a variable in the context.\<close>

definition indices_bound :: "LoopyContext \<Rightarrow> (int \<times> (gem gindex \<times> int) list) list \<Rightarrow> bool" where
  "indices_bound ctx dim2idxs =
     list_all (\<lambda>(off, idxs).
       list_all (\<lambda>(index, stride).
         is_Index index \<longrightarrow>
           (case map_of (active_indices ctx) index of Some (p_Variable name) \<Rightarrow> True | _ \<Rightarrow> False))
         idxs) dim2idxs"

definition all_Index :: "(int \<times> (gem gindex \<times> int) list) list \<Rightarrow> bool" where
  "all_Index dim2idxs =
     list_all (\<lambda>(off, idxs). list_all (\<lambda>(index, stride). is_Index index) idxs) dim2idxs"

section \<open>The names in the table\<close>

text \<open>
  What the table of a context looks like as long as only \<^verbatim>\<open>_gem_to_pym_var\<close> writes to it:
  every entry is a variable whose name the generator has given out, and no two keys
  share an entry. \<open>has_name\<close> tells the nodes with a \<^verbatim>\<open>name\<close> attribute, and \<open>nameable\<close>
  the nodes for which the lookup cannot raise: those in the table and those with a name.
\<close>

definition table_inv :: "LoopyContext \<Rightarrow> bool" where
  "table_inv ctx =
     ((\<forall>k v. gem_to_pymbolic ctx k = Some v \<longrightarrow>
               (\<exists>name. v = p_Variable name \<and> name \<in> set (name_gen ctx)))
      \<and> (\<forall>k k' v. gem_to_pymbolic ctx k = Some v \<and> gem_to_pymbolic ctx k' = Some v \<longrightarrow> k = k'))"

definition has_name :: "gem \<Rightarrow> bool" where
  "has_name e = (case node_name e of Inr _ \<Rightarrow> True | Inl _ \<Rightarrow> False)"

definition nameable :: "LoopyContext \<Rightarrow> gem \<Rightarrow> bool" where
  "nameable ctx e = (gem_to_pymbolic ctx (gem_key e) \<noteq> None \<or> has_name e)"

section \<open>Matrix-free solves in a tree\<close>

text \<open>The tree has an \<^verbatim>\<open>Evaluate\<close> of a matrix-free \<^verbatim>\<open>Solve\<close> node. A lowering that
  returns has visited every statement of the tree.\<close>

fun has_matfree :: "impero \<Rightarrow> bool" where
  "has_matfree (imp_Block cs) = (\<exists>c \<in> set cs. has_matfree c)"
| "has_matfree (imp_For index body) = has_matfree body"
| "has_matfree (imp_Evaluate expr) = (cls expr = gem_Solve True)"
| "has_matfree _ = False"

text \<open>How the global may change over a call: it keeps its value, or it holds an
  auxiliary kernel of \<^verbatim>\<open>loopy_matfree_solve\<close>.\<close>

definition is_matfree_cg :: "lp_kernel option \<Rightarrow> bool" where
  "is_matfree_cg g = (\<exists>n shp. g = Some (matfree_cg_kernel n shp))"

definition pending_ok :: "lp_kernel option \<Rightarrow> lp_kernel option \<Rightarrow> bool" where
  "pending_ok g g' = (g' = g \<or> is_matfree_cg g')"

text \<open>The value of the global after a lowering of the tree that returns: the auxiliary
  kernel of the last matrix-free \<^verbatim>\<open>Solve\<close> the lowering came to, in the order of the
  statements, and the value before when there is none.\<close>

fun pending_after :: "impero \<Rightarrow> lp_kernel option \<Rightarrow> lp_kernel option" where
  "pending_after (imp_Block cs) g = fold pending_after cs g"
| "pending_after (imp_For index body) g = pending_after body g"
| "pending_after (imp_Evaluate expr) g =
     (if cls expr = gem_Solve True then
        (case shape expr of
           n # _ \<Rightarrow> Some (matfree_cg_kernel n (shape expr))
         | [] \<Rightarrow> g)
      else g)"
| "pending_after _ g = g"

text \<open>
  A node whose variable can be written down without lowering anything else: it is in
  the table or has a name, and the index table has no index for it. \<open>extends\<close> is how a
  context changes when such variables are written down, and \<open>scope_ok\<close> says that the
  active indices are bound to variables.
\<close>

definition plain :: "LoopyContext \<Rightarrow> gem \<Rightarrow> bool" where
  "plain ctx e =
     (nameable ctx e \<and> (case indices ctx (gem_key e) of None \<Rightarrow> True | Some mi \<Rightarrow> mi = []))"

definition extends :: "LoopyContext \<Rightarrow> LoopyContext \<Rightarrow> bool" where
  "extends c c' =
     (indices c' = indices c \<and> active_indices c' = active_indices c
      \<and> (\<forall>k w. gem_to_pymbolic c k = Some w \<longrightarrow> gem_to_pymbolic c' k = Some w))"

definition scope_ok :: "LoopyContext \<Rightarrow> bool" where
  "scope_ok ctx = (case active_inames ctx of Inr _ \<Rightarrow> True | Inl _ \<Rightarrow> False)"

text \<open>The scenario of the spec: one \<^verbatim>\<open>Evaluate\<close> of \<^verbatim>\<open>Solve(A, b)\<close> for a system of size \<open>n\<close>,
  stored in the temporary \<open>t0\<close>; and, for size 4 and the names \<open>A\<close> and \<open>b\<close>, the kernel
  \<^verbatim>\<open>generate\<close> assembles for it, as far as it does not depend on the routine that is
  called.\<close>

definition solve_node :: "bool \<Rightarrow> nat \<Rightarrow> string \<Rightarrow> string \<Rightarrow> gem" where
  "solve_node matfree n a b =
     Node 2 (gem_Solve matfree) [n]
       [Node 0 (gem_Variable a) [n, n] [], Node 1 (gem_Variable b) [n] []]"

definition solve_tree :: "bool \<Rightarrow> nat \<Rightarrow> string \<Rightarrow> string \<Rightarrow> ImperoC" where
  "solve_tree matfree n a b =
     \<lparr>tree = imp_Evaluate (solve_node matfree n a b),
      temporaries = [solve_node matfree n a b],
      impero_indices = [gem_key (solve_node matfree n a b) \<mapsto> []]\<rparr>"

definition solve_call :: "string \<Rightarrow> lp_insn" where
  "solve_call routine =
     lp_CallInstruction
       [SubArrayRef [p_Variable ''i''] (p_Subscript (p_Variable ''t0'') [p_Variable ''i''])]
       (p_Call (p_Variable routine)
          [SubArrayRef [p_Variable ''i_0'', p_Variable ''i_1'']
             (p_Subscript (p_Variable ''A'') [p_Variable ''i_0'', p_Variable ''i_1'']),
           SubArrayRef [p_Variable ''i_2'']
             (p_Subscript (p_Variable ''b'') [p_Variable ''i_2''])])
       {}"

definition solve_kernel :: "string \<Rightarrow> lp_kernel" where
  "solve_kernel routine =
     \<lparr>knl_name = ''loopy_kernel'',
      knl_domains = [[(''i'', 0, 3)], [(''i_0'', 0, 3)], [(''i_1'', 0, 3)], [(''i_2'', 0, 3)]],
      knl_instructions = [(solve_call routine, 1)],
      knl_data = [lp_TemporaryVariable ''t0'' np_float64 [4] None False],
      knl_loop_priority = [''i'', ''i_0'', ''i_1'', ''i_2'']\<rparr>"

text \<open>Two matrix-free solves in one tree: a system of size 4 stored in \<open>t0\<close>, then a
  system of size 2 stored in \<open>t1\<close>.\<close>

definition two_solves :: ImperoC where
  "two_solves =
     \<lparr>tree = imp_Block
               [imp_Evaluate (solve_node True 4 ''A'' ''b''),
                imp_Evaluate (solve_node True 2 ''C'' ''d'')],
      temporaries = [solve_node True 4 ''A'' ''b'', solve_node True 2 ''C'' ''d''],
      impero_indices =
        [gem_key (solve_node True 4 ''A'' ''b'') \<mapsto> [],
         gem_key (solve_node True 2 ''C'' ''d'') \<mapsto> []]\<rparr>"

text \<open>The kernel \<^verbatim>\<open>generate\<close> assembles for the two solves, before the auxiliary kernel
  is dealt with.\<close>

definition two_solves_kernel :: lp_kernel where
  "two_solves_kernel =
     \<lparr>knl_name = ''loopy_kernel'',
      knl_domains =
        [[(''i'', 0, 3)], [(''i_0'', 0, 3)], [(''i_1'', 0, 3)], [(''i_2'', 0, 3)],
         [(''i_3'', 0, 1)], [(''i_4'', 0, 1)], [(''i_5'', 0, 1)], [(''i_6'', 0, 1)]],
      knl_instructions =
        [(solve_call ''matfree_cg_kernel'', 2),
         (lp_CallInstruction
            [SubArrayRef [p_Variable ''i_3'']
               (p_Subscript (p_Variable ''t1'') [p_Variable ''i_3''])]
            (p_Call (p_Variable ''matfree_cg_kernel'')
               [SubArrayRef [p_Variable ''i_4'', p_Variable ''i_5'']
                  (p_Subscript (p_Variable ''C'') [p_Variable ''i_4'', p_Variable ''i_5'']),
                SubArrayRef [p_Variable ''i_6'']
                  (p_Subscript (p_Variable ''d'') [p_Variable ''i_6''])])
            {}, 1)],
      knl_data =
        [lp_TemporaryVariable ''t0'' np_float64 [4] None False,
         lp_TemporaryVariable ''t1'' np_float64 [2] None False],
      knl_loop_priority = [''i'', ''i_0'', ''i_1'', ''i_2'', ''i_3'', ''i_4'', ''i_5'', ''i_6'']\<rparr>"


section \<open>Properties\<close>

subsection \<open>Type inference of a conditional\<close>

text \<open>
  C8. For a \<^verbatim>\<open>Conditional(cond, then, else)\<close> the inferencer returns the union of the
  candidate sets of the two branches; the condition is not visited, so neither its
  candidates nor an error of its inference reach the result.
\<close>

theorem assign_dtype_conditional:
  "assign_dtype' st rt (Node i gem_Conditional sh [cond, thn, els]) =
     (case assign_dtype' st rt thn of
        Inl err \<Rightarrow> Inl err
      | Inr a \<Rightarrow> (case assign_dtype' st rt els of
                    Inl err \<Rightarrow> Inl err
                  | Inr b \<Rightarrow> Inr (a \<union> b)))"
  by (simp add: set_union_def split: sum.splits)

theorem assign_dtype_conditional_witness:
  "assign_dtype' np_complex128 np_float64
     (Node 3 gem_Conditional []
        [Node 0 (gem_Comparison ''<'') [] [Node 4 (gem_Variable ''a'') [] [],
                                          Node 5 (gem_Variable ''b'') [] []],
         Node 1 (gem_Variable ''x'') [] [],
         Node 2 gem_Zero [] []]) = Inr {np_complex128, np_float64}"
  using assign_dtype_conditional [of np_complex128 np_float64 3 "[]"
          "Node 0 (gem_Comparison ''<'') [] [Node 4 (gem_Variable ''a'') [] [],
                                            Node 5 (gem_Variable ''b'') [] []]"
          "Node 1 (gem_Variable ''x'') [] []" "Node 2 gem_Zero [] []"]
  by (simp add: insert_commute)

subsection \<open>Scalar constants\<close>







text \<open>
  C10. A scalar constant that is not a NaN and whose one-decimal rounding is zero is
  emitted as it is, whatever the resolution of the context.
\<close>

theorem expression_scalar_zero_rounding:
  assumes "is_Constant expr" and "shape expr = []" and "node_value expr = Inr v"
    and "\<not> np_isnan v" and "np_round1 v = Fin 0"
  shows "expression' (Suc d) expr ctx = (Inr (p_Float v), ctx)"
  using assms
  by (auto simp: is_Constant_def expression_scalar_def truthy_def Let_def split: cls.splits)

theorem expression_scalar_zero_rounding_witness:
  "is_Constant (Node 7 (gem_Literal [Fin (- 4 / 100)] np_float64) [] [])
   \<and> node_value (Node 7 (gem_Literal [Fin (- 4 / 100)] np_float64) [] []) = Inr (Fin (- 4 / 100))
   \<and> np_round1 (Fin (- 4 / 100)) = Fin 0
   \<and> np_less (np_absdiff (Fin (- 4 / 100)) (Fin 0)) (1 / 10)
   \<and> expression' (Suc 0) (Node 7 (gem_Literal [Fin (- 4 / 100)] np_float64) [] [])
       (new_context (no_temporaries (imp_Block [])) np_float64 (1 / 10) [] True None) =
     (Inr (p_Float (Fin (- 4 / 100))),
      new_context (no_temporaries (imp_Block [])) np_float64 (1 / 10) [] True None)"
proof -
  have r: "rint (- (2 / 5)) = 0" by code_simp
  have c: "is_Constant (Node 7 (gem_Literal [Fin (- 4 / 100)] np_float64) [] [])"
    by (simp add: is_Constant_def)
  have s: "shape (Node 7 (gem_Literal [Fin (- 4 / 100)] np_float64) [] []) = []" by simp
  have v: "node_value (Node 7 (gem_Literal [Fin (- 4 / 100)] np_float64) [] []) = Inr (Fin (- 4 / 100))"
    by (simp add: node_value_def)
  have n: "\<not> np_isnan (Fin (- 4 / 100))" by (simp add: np_isnan_def)
  have z: "np_round1 (Fin (- 4 / 100)) = Fin 0" by (simp add: np_round1_def r)
  have l: "np_less (np_absdiff (Fin (- 4 / 100)) (Fin 0)) (1 / 10)" by (simp add: np_less_def)
  show ?thesis
    using c v z l expression_scalar_zero_rounding [OF c s v n z, of 0
        "new_context (no_temporaries (imp_Block [])) np_float64 (1 / 10) [] True None"]
    by simp
qed

subsection \<open>The scope of the active indices\<close>

lemma pop_keys_present:
  "distinct ks \<Longrightarrow> set ks \<subseteq> fst ` set (active_indices c) \<Longrightarrow>
   pop_keys ks c = (Inr (), c\<lparr>active_indices := filter (\<lambda>p. fst p \<notin> set ks) (active_indices c)\<rparr>)"
proof (induction ks arbitrary: c)
  case Nil
  then show ?case by simp
next
  case (Cons k ks)
  let ?d = "filter (\<lambda>p. fst p \<noteq> k) (active_indices c)"
  from Cons.prems have pop: "dict_pop k (active_indices c) = Inr ?d"
    by (simp add: dict_pop_def)
  have "set ks \<subseteq> fst ` set ?d"
  proof
    fix x assume x: "x \<in> set ks"
    with Cons.prems obtain p where p: "p \<in> set (active_indices c)" "fst p = x"
      by auto
    from x Cons.prems have "x \<noteq> k" by auto
    with p have "p \<in> set ?d" by simp
    with p show "x \<in> fst ` set ?d" by force
  qed
  with Cons.prems Cons.IH [of "c\<lparr>active_indices := ?d\<rparr>"]
  have "pop_keys ks (c\<lparr>active_indices := ?d\<rparr>) =
          (Inr (), c\<lparr>active_indices := filter (\<lambda>p. fst p \<notin> set ks) ?d\<rparr>)"
    by simp
  moreover have "filter (\<lambda>p. fst p \<notin> set ks) ?d =
                 filter (\<lambda>p. fst p \<notin> set (k # ks)) (active_indices c)"
    by (auto intro!: filter_cong)
  ultimately show ?case using pop by simp
qed

text \<open>
  C2, as the code has it. When the body raises, the scope ends with the error and with
  the context as the body left it: nothing is popped. When the body returns and the keys
  of the mapping are still bound, the scope returns the body's value and removes exactly
  those keys from the active indices.
\<close>

theorem active_indices_scope_exits:
  "(body (ctx\<lparr>active_indices := dict_update (active_indices ctx) mapping\<rparr>) = (Inl e, c)
      \<longrightarrow> active_indices_scope mapping body ctx = (Inl e, c))
   \<and> (body (ctx\<lparr>active_indices := dict_update (active_indices ctx) mapping\<rparr>) = (Inr v, c)
        \<and> distinct (map fst mapping) \<and> fst ` set mapping \<subseteq> fst ` set (active_indices c)
      \<longrightarrow> active_indices_scope mapping body ctx =
            (Inr v, c\<lparr>active_indices :=
                         filter (\<lambda>p. fst p \<notin> fst ` set mapping) (active_indices c)\<rparr>))"
  by (auto simp: active_indices_scope_def pop_keys_present)

theorem active_indices_scope_exits_witness:
  "active_indices_scope [(Index 0 None (Some 3), p_Variable ''i'')]
       (\<lambda>c. (Inr (length (active_indices c)), c))
       (new_context (no_temporaries (imp_Block [])) np_float64 (1 / 10) [] True None) =
     (Inr 1, new_context (no_temporaries (imp_Block [])) np_float64 (1 / 10) [] True None)
   \<and> active_indices_scope [(Index 0 None (Some 3), p_Variable ''i'')]
       (\<lambda>c. (Inl KeyError :: error + nat, c))
       (new_context (no_temporaries (imp_Block [])) np_float64 (1 / 10) [] True None) =
     (Inl KeyError,
      (new_context (no_temporaries (imp_Block [])) np_float64 (1 / 10) [] True None)
        \<lparr>active_indices := [(Index 0 None (Some 3), p_Variable ''i'')]\<rparr>)"
  using
    active_indices_scope_exits [of "\<lambda>c. (Inr (length (active_indices c)), c)"
      "new_context (no_temporaries (imp_Block [])) np_float64 (1 / 10) [] True None"
      "[(Index 0 None (Some 3), p_Variable ''i'')]" KeyError
      "(new_context (no_temporaries (imp_Block [])) np_float64 (1 / 10) [] True None)
        \<lparr>active_indices := [(Index 0 None (Some 3), p_Variable ''i'')]\<rparr>" 1]
    active_indices_scope_exits [of "\<lambda>c. (Inl KeyError :: error + nat, c)"
      "new_context (no_temporaries (imp_Block [])) np_float64 (1 / 10) [] True None"
      "[(Index 0 None (Some 3), p_Variable ''i'')]" KeyError
      "(new_context (no_temporaries (imp_Block [])) np_float64 (1 / 10) [] True None)
        \<lparr>active_indices := [(Index 0 None (Some 3), p_Variable ''i'')]\<rparr>" 1]
  by (simp add: new_context_def dict_update_def)

text \<open>
  C2 as the spec words it has the bindings popped on every exit path. A loop whose body
  reaches a \<^verbatim>\<open>Failure\<close> node ends with the node's exception, and the index of the loop is
  still bound in the context: the active indices were empty before the loop.
\<close>

theorem active_indices_scope_counterexample:
  "active_indices (new_context (no_temporaries (imp_Block [])) np_float64 (1 / 10) [] True None) = []
   \<and> fst (statement 5
        (imp_For (Index 0 None (Some 3))
           (imp_Return (Node 0 (gem_Variable ''y'') [] []) (Node 1 (gem_Failure ''unsupported'') [] [])))
        (new_context (no_temporaries (imp_Block [])) np_float64 (1 / 10) [] True None))
      = Inl (GemFailure ''unsupported'')
   \<and> active_indices (snd (statement 5
        (imp_For (Index 0 None (Some 3))
           (imp_Return (Node 0 (gem_Variable ''y'') [] []) (Node 1 (gem_Failure ''unsupported'') [] [])))
        (new_context (no_temporaries (imp_Block [])) np_float64 (1 / 10) [] True None)))
      = [(Index 0 None (Some 3), p_Variable ''i'')]"
  by code_simp

subsection \<open>Bessel functions\<close>

lemma res_split: "fst r = Inr v \<Longrightarrow> r = (Inr v, snd r)"
  by (cases r) simp

text \<open>
  C6, as the code has it. For a math function whose name starts with \<open>cyl_bessel_\<close> and
  which has the two operands \<open>nu\<close> and \<open>arg\<close>: under a complex scalar type the lowering
  raises the unsupported-operation error, whatever the function is and before an operand
  is lowered. Under a real scalar type, with operands that lower to \<open>nu'\<close> and \<open>arg'\<close>, it
  gives a call: of \<open>boost::math::\<close> and the name for \<open>cyl_bessel_i\<close> and \<open>cyl_bessel_k\<close>;
  else, with \<open>f\<close> the last letter of the name, of \<open>f0\<close> on \<open>arg'\<close> when the order is the
  literal constant 0, of \<open>f1\<close> on \<open>arg'\<close> when it is the literal constant 1, and of \<open>fn\<close> on
  \<open>nu'\<close> and \<open>arg'\<close> otherwise.
\<close>

theorem expression_mathfunction_bessel:
  assumes "take 11 name = ''cyl_bessel_''"
    and "cls expr = gem_MathFunction name"
    and "children expr = [nu, arg]"
  shows
    "(is_complex (scalar_type ctx) \<longrightarrow>
        expression' (Suc d) expr ctx =
          (Inl (NotImplementedError
                  ''Bessel functions for complex numbers: missing implementation''), ctx))
     \<and> (\<not> is_complex (scalar_type ctx)
          \<and> expression d nu False ctx = (Inr nu', c1)
          \<and> expression d arg False c1 = (Inr arg', c2) \<longrightarrow>
        expression' (Suc d) expr ctx =
          (Inr (if name \<in> {''cyl_bessel_i'', ''cyl_bessel_k''}
                  then p_Call (p_Variable (''boost::math::'' @ name)) [nu', arg']
                else if is_gem_Zero nu then p_Call (p_Variable ([last name] @ ''0'')) [arg']
                else if is_gem_one nu then p_Call (p_Variable ([last name] @ ''1'')) [arg']
                else p_Call (p_Variable ([last name] @ ''n'')) [nu', arg']), c2))"
  using assms by (simp add: expression_mathfunction_def bind_res_def Let_def)

theorem expression_mathfunction_bessel_witness:
  "fst (expression' (Suc 3)
          (Node 2 (gem_MathFunction ''cyl_bessel_j'') []
             [Node 0 gem_Zero [] [], Node 1 (gem_Variable ''x'') [] []])
          (new_context (no_temporaries (imp_Block [])) np_float64 (1 / 10) [] True None))
     = Inr (p_Call (p_Variable ''j0'') [p_Variable ''x''])
   \<and> fst (expression' (Suc 3)
          (Node 2 (gem_MathFunction ''cyl_bessel_i'') []
             [Node 0 gem_Zero [] [], Node 1 (gem_Variable ''x'') [] []])
          (new_context (no_temporaries (imp_Block [])) np_complex128 (1 / 10) [] True None))
     = Inl (NotImplementedError ''Bessel functions for complex numbers: missing implementation'')"
proof -
  let ?nu = "Node 0 gem_Zero [] []"
  let ?arg = "Node 1 (gem_Variable ''x'') [] []"
  let ?j = "Node 2 (gem_MathFunction ''cyl_bessel_j'') [] [?nu, ?arg]"
  let ?i = "Node 2 (gem_MathFunction ''cyl_bessel_i'') [] [?nu, ?arg]"
  let ?real = "new_context (no_temporaries (imp_Block [])) np_float64 (1 / 10) [] True None"
  let ?cplx = "new_context (no_temporaries (imp_Block [])) np_complex128 (1 / 10) [] True None"
  let ?c1 = "snd (expression 3 ?nu False ?real)"
  let ?c2 = "snd (expression 3 ?arg False ?c1)"
  have pj: "take 11 ''cyl_bessel_j'' = ''cyl_bessel_''" by simp
  have pi: "take 11 ''cyl_bessel_i'' = ''cyl_bessel_''" by simp
  have h1: "expression 3 ?nu False ?real = (Inr (p_Float (Fin 0)), ?c1)"
    by (rule res_split) code_simp
  have h2: "expression 3 ?arg False ?c1 = (Inr (p_Variable ''x''), ?c2)"
    by (rule res_split) code_simp
  have r: "\<not> is_complex (scalar_type ?real)" by (simp add: new_context_def)
  have c: "is_complex (scalar_type ?cplx)" by (simp add: new_context_def)
  have z: "is_gem_Zero ?nu" by (simp add: is_gem_Zero_def)
  from expression_mathfunction_bessel [of "''cyl_bessel_j''" ?j ?nu ?arg ?real 3
         "p_Float (Fin 0)" ?c1 "p_Variable ''x''" ?c2, OF pj] r h1 h2 z
  have "expression' (Suc 3) ?j ?real = (Inr (p_Call (p_Variable ''j0'') [p_Variable ''x'']), ?c2)"
    by simp
  moreover
  from expression_mathfunction_bessel [of "''cyl_bessel_i''" ?i ?nu ?arg ?cplx 3
         "p_Float (Fin 0)" ?c1 "p_Variable ''x''" ?c2, OF pi] c
  have "expression' (Suc 3) ?i ?cplx =
          (Inl (NotImplementedError
                  ''Bessel functions for complex numbers: missing implementation''), ?cplx)"
    by simp
  ultimately show ?thesis by simp
qed

text \<open>
  C6 as the spec words it raises the error only for the modified Bessel functions. The
  ordinary Bessel function \<open>cyl_bessel_j\<close> under the scalar type \<open>complex128\<close> raises it
  too.
\<close>

theorem expression_mathfunction_counterexample:
  "fst (expression' (Suc 3)
          (Node 2 (gem_MathFunction ''cyl_bessel_j'') []
             [Node 0 gem_Zero [] [], Node 1 (gem_Variable ''x'') [] []])
          (new_context (no_temporaries (imp_Block [])) np_complex128 (1 / 10) [] True None))
     = Inl (NotImplementedError ''Bessel functions for complex numbers: missing implementation'')"
  by code_simp

subsection \<open>The auxiliary kernel: its name, its data, its loop\<close>

text \<open>
  C9. For a shape that starts with \<open>n\<close>, \<^verbatim>\<open>loopy_matfree_solve\<close> stores in the global the
  kernel \<open>matfree_cg_kernel\<close> of \<open>n\<close> and the shape, and nothing of the context enters
  that kernel: its name is \<open>matfree_cg_kernel\<close>; it declares \<open>A\<close>, \<open>b\<close>, \<open>x\<close>, \<open>output\<close>,
  \<open>A_on_x\<close>, \<open>A_on_p\<close> and \<open>p\<close>, each of type \<open>float64\<close>, \<open>A\<close> of shape \<open>n \<times> n\<close> and the
  others of the shape of the node; and \<open>n\<close> bounds the inames of its domain.
\<close>

theorem loopy_matfree_solve_kernel:
  "loopy_matfree_solve lhs reads (n # shp) ctx =
     (Inr (), ctx\<lparr>matfree_solve_knl := Some (matfree_cg_kernel n (n # shp))\<rparr>)
   \<and> knl_name (matfree_cg_kernel n (n # shp)) = ''matfree_cg_kernel''
   \<and> map data_name (knl_data (matfree_cg_kernel n (n # shp))) =
       [''A'', ''b'', ''x'', ''output'', ''A_on_x'', ''A_on_p'', ''p'']
   \<and> map data_dtype (knl_data (matfree_cg_kernel n (n # shp))) = replicate 7 np_float64
   \<and> map data_shape (knl_data (matfree_cg_kernel n (n # shp))) =
       [n, n] # replicate 6 (n # shp)
   \<and> knl_domains (matfree_cg_kernel n (n # shp)) = [matfree_cg_domain n]"
  by (simp add: loopy_matfree_solve_def matfree_cg_kernel_def eval_nat_numeral)

theorem loopy_matfree_solve_kernel_witness:
  "scalar_type (new_context (no_temporaries (imp_Block [])) np_complex64 (1 / 10) [] True None)
     = np_complex64
   \<and> matfree_solve_knl (snd (loopy_matfree_solve [] [] [4]
        (new_context (no_temporaries (imp_Block [])) np_complex64 (1 / 10) [] True None)))
     = Some (matfree_cg_kernel 4 [4])
   \<and> map data_dtype (knl_data (matfree_cg_kernel 4 [4])) = replicate 7 np_float64
   \<and> map data_shape (knl_data (matfree_cg_kernel 4 [4])) =
       [[4, 4], [4], [4], [4], [4], [4], [4]]"
  using loopy_matfree_solve_kernel [of "[]" "[]" 4 "[]"
          "new_context (no_temporaries (imp_Block [])) np_complex64 (1 / 10) [] True None"]
  by (simp add: new_context_def eval_nat_numeral)

lemma iname_values_i_6: "iname_values (matfree_cg_domain n) ''i_6'' = map nat [0..3 * int n]"
  by (simp add: iname_values_def matfree_cg_domain_def)

lemma iname_values_i_0: "iname_values (matfree_cg_domain n) ''i_0'' = map nat [0..int n - 1]"
  by (simp add: iname_values_def matfree_cg_domain_def)

lemma cg_loop_norms:
  "length (snd (cg_loop ar act n A is s)) \<le> length is
   \<and> (is \<noteq> [] \<longrightarrow> snd (cg_loop ar act n A is s) \<noteq> [])
   \<and> (\<forall>k. Suc k < length (snd (cg_loop ar act n A is s))
          \<longrightarrow> \<not> converged ar (snd (cg_loop ar act n A is s) ! k))
   \<and> (length (snd (cg_loop ar act n A is s)) < length is
          \<longrightarrow> converged ar (last (snd (cg_loop ar act n A is s))))"
proof (induction "is" arbitrary: s)
  case Nil
  then show ?case by simp
next
  case (Cons i rest)
  obtain s1 rk where u: "cg_update ar act n A s = (s1, rk)" by (cases "cg_update ar act n A s")
  show ?case
  proof (cases "converged ar rk")
    case True
    with u show ?thesis by simp
  next
    case False
    let ?t = "cg_direction ar n s1 rk"
    obtain s2 norms where l: "cg_loop ar act n A rest ?t = (s2, norms)"
      by (cases "cg_loop ar act n A rest ?t")
    from False u l have eq: "snd (cg_loop ar act n A (i # rest) s) = rk # norms" by simp
    from Cons.IH [of ?t] l have ih:
      "length norms \<le> length rest" "rest \<noteq> [] \<longrightarrow> norms \<noteq> []"
      "\<forall>k. Suc k < length norms \<longrightarrow> \<not> converged ar (norms ! k)"
      "length norms < length rest \<longrightarrow> converged ar (last norms)"
      by simp_all
    have "\<forall>k. Suc k < length (rk # norms) \<longrightarrow> \<not> converged ar ((rk # norms) ! k)"
    proof (intro allI impI)
      fix k assume k: "Suc k < length (rk # norms)"
      show "\<not> converged ar ((rk # norms) ! k)"
      proof (cases k)
        case 0
        with False show ?thesis by simp
      next
        case (Suc j)
        with k ih(3) show ?thesis by simp
      qed
    qed
    moreover have "length (rk # norms) < length (i # rest) \<longrightarrow> converged ar (last (rk # norms))"
      using ih(2) ih(4) by auto
    ultimately show ?thesis using eq ih(1) by simp
  qed
qed

text \<open>
  C5, as the code has it. The kernel starts from the iterate \<open>x\<close> with all \<open>n\<close> entries
  equal to 1. The loop enters at most \<open>3n + 1\<close> rounds and at least one (the iname \<open>i_6\<close>
  runs from 0 to \<open>3n\<close>, both included). No round but the last one it enters found
  \<open>rkp1_norm\<close> below \<open>0.000001\<close>, and when it enters fewer than \<open>3n + 1\<close> rounds the last of
  them did: the loop ends as soon as the new residual norm is below the tolerance.
\<close>

theorem matfree_cg_iterations:
  "cg_x (cg_init ar action_A n A b) = replicate n (lit ar 1)
   \<and> length (snd (matfree_cg_run ar action_A action_A_on_p n A b)) \<le> 3 * n + 1
   \<and> snd (matfree_cg_run ar action_A action_A_on_p n A b) \<noteq> []
   \<and> (\<forall>k. Suc k < length (snd (matfree_cg_run ar action_A action_A_on_p n A b))
          \<longrightarrow> \<not> converged ar (snd (matfree_cg_run ar action_A action_A_on_p n A b) ! k))
   \<and> (length (snd (matfree_cg_run ar action_A action_A_on_p n A b)) < 3 * n + 1
          \<longrightarrow> converged ar (last (snd (matfree_cg_run ar action_A action_A_on_p n A b))))"
proof -
  let ?is = "iname_values (matfree_cg_domain n) ''i_6''"
  let ?s = "cg_init ar action_A n A b"
  have len: "length ?is = 3 * n + 1" by (simp add: iname_values_i_6)
  then have ne: "?is \<noteq> []" by auto
  have run: "snd (matfree_cg_run ar action_A action_A_on_p n A b) =
             snd (cg_loop ar action_A_on_p n A ?is ?s)"
    by (simp add: matfree_cg_run_def Let_def split: prod.splits)
  have x0: "cg_x ?s = replicate n (lit ar 1)"
    by (simp add: cg_init_def cg_x0_def Let_def iname_values_i_0 map_replicate_const)
  from cg_loop_norms [of ar action_A_on_p n A ?is ?s] len ne x0 show ?thesis
    unfolding run by simp
qed

text \<open>The system \<open>2x + y = 0, x + 2y = 0\<close>: the start is \<open>(1, 1)\<close>, and the first round
  of the loop finds the residual norm 0, below the tolerance, and is the last one.\<close>

theorem matfree_cg_iterations_witness:
  "cg_x (cg_init rat_arith matvec 2 [[2, 1], [1, 2]] [0, 0]) = [1, 1]
   \<and> snd (matfree_cg_run rat_arith matvec matvec 2 [[2, 1], [1, 2]] [0, 0]) = [0]
   \<and> converged rat_arith 0"
proof -
  have n: "snd (matfree_cg_run rat_arith matvec matvec 2 [[2, 1], [1, 2]] [0, 0]) = [0]"
    by code_simp
  have l: "lit rat_arith 1 = 1" by (simp add: rat_arith_def)
  from matfree_cg_iterations [of rat_arith matvec 2 "[[2, 1], [1, 2]]" "[0, 0]" matvec]
  show ?thesis unfolding n l by (simp add: eval_nat_numeral)
qed

lemma cg_loop_continue:
  "cg_update ar act n A s = (s1, rk) \<Longrightarrow> \<not> converged ar rk \<Longrightarrow> cg_direction ar n s1 rk = s' \<Longrightarrow>
   snd (cg_loop ar act n A (i # rest) s) = rk # snd (cg_loop ar act n A rest s')"
  by (simp split: prod.splits)

lemma matfree_cg_run_norms:
  "snd (matfree_cg_run ar action_A action_A_on_p n A b) =
   snd (cg_loop ar action_A_on_p n A (iname_values (matfree_cg_domain n) ''i_6'')
          (cg_init ar action_A n A b))"
  by (simp add: matfree_cg_run_def Let_def split: prod.splits)

text \<open>
  C5 as the spec words it bounds the loop by \<open>3n\<close> rounds. For the system of size 2 with
  the rows \<open>(1, 2)\<close> and \<open>(-2, 1)\<close> and the right-hand side 0 the residual norm grows from
  round to round (40, 128, 4608/17, ...), and the loop enters 7 rounds.
\<close>

theorem matfree_cg_iterations_counterexample:
  "length (snd (matfree_cg_run rat_arith matvec matvec 2 [[1, 2], [- 2, 1]] [0, 0])) = 7
   \<and> \<not> length (snd (matfree_cg_run rat_arith matvec matvec 2 [[1, 2], [- 2, 1]] [0, 0])) \<le> 3 * 2"
proof -
  have init: "cg_init rat_arith matvec 2 [[1, 2], [- 2, 1]] [0, 0] = \<lparr>cg_x = [1, 1], cg_r = [3, - 1], cg_p = [- 3, 1], cg_rk_norm = 10\<rparr>"
    by code_simp
  have dom: "iname_values (matfree_cg_domain 2) ''i_6'' = [0, 1, 2, 3, 4, 5, 6]"
    by code_simp
  have u0: "cg_update rat_arith matvec 2 [[1, 2], [- 2, 1]] \<lparr>cg_x = [1, 1], cg_r = [3, - 1], cg_p = [- 3, 1], cg_rk_norm = 10\<rparr> = (\<lparr>cg_x = [- 2, 2], cg_r = [2, 6], cg_p = [- 3, 1], cg_rk_norm = 10\<rparr>, 40)"
    by code_simp
  have c0: "\<not> converged rat_arith (40)"
    by code_simp
  have d0: "cg_direction rat_arith 2 \<lparr>cg_x = [- 2, 2], cg_r = [2, 6], cg_p = [- 3, 1], cg_rk_norm = 10\<rparr> (40) = \<lparr>cg_x = [- 2, 2], cg_r = [2, 6], cg_p = [- 14, - 2], cg_rk_norm = 40\<rparr>"
    by code_simp
  have u1: "cg_update rat_arith matvec 2 [[1, 2], [- 2, 1]] \<lparr>cg_x = [- 2, 2], cg_r = [2, 6], cg_p = [- 14, - 2], cg_rk_norm = 40\<rparr> = (\<lparr>cg_x = [- (24 / 5), 8 / 5], cg_r = [- (8 / 5), 56 / 5], cg_p = [- 14, - 2], cg_rk_norm = 40\<rparr>, 128)"
    by code_simp
  have c1: "\<not> converged rat_arith (128)"
    by code_simp
  have d1: "cg_direction rat_arith 2 \<lparr>cg_x = [- (24 / 5), 8 / 5], cg_r = [- (8 / 5), 56 / 5], cg_p = [- 14, - 2], cg_rk_norm = 40\<rparr> (128) = \<lparr>cg_x = [- (24 / 5), 8 / 5], cg_r = [- (8 / 5), 56 / 5], cg_p = [- (216 / 5), - (88 / 5)], cg_rk_norm = 128\<rparr>"
    by code_simp
  have u2: "cg_update rat_arith matvec 2 [[1, 2], [- 2, 1]] \<lparr>cg_x = [- (24 / 5), 8 / 5], cg_r = [- (8 / 5), 56 / 5], cg_p = [- (216 / 5), - (88 / 5)], cg_rk_norm = 128\<rparr> = (\<lparr>cg_x = [- (624 / 85), 48 / 85], cg_r = [- (528 / 85), 1296 / 85], cg_p = [- (216 / 5), - (88 / 5)], cg_rk_norm = 128\<rparr>, 4608 / 17)"
    by code_simp
  have c2: "\<not> converged rat_arith (4608 / 17)"
    by code_simp
  have d2: "cg_direction rat_arith 2 \<lparr>cg_x = [- (624 / 85), 48 / 85], cg_r = [- (528 / 85), 1296 / 85], cg_p = [- (216 / 5), - (88 / 5)], cg_rk_norm = 128\<rparr> (4608 / 17) = \<lparr>cg_x = [- (624 / 85), 48 / 85], cg_r = [- (528 / 85), 1296 / 85], cg_p = [- (7248 / 85), - (4464 / 85)], cg_rk_norm = 4608 / 17\<rparr>"
    by code_simp
  have u3: "cg_update rat_arith matvec 2 [[1, 2], [- 2, 1]] \<lparr>cg_x = [- (624 / 85), 48 / 85], cg_r = [- (528 / 85), 1296 / 85], cg_p = [- (7248 / 85), - (4464 / 85)], cg_rk_norm = 4608 / 17\<rparr> = (\<lparr>cg_x = [- (30336 / 3145), - (2688 / 3145)], cg_r = [- (35712 / 3145), 57984 / 3145], cg_p = [- (7248 / 85), - (4464 / 85)], cg_rk_norm = 4608 / 17\<rparr>, 294912 / 629)"
    by code_simp
  have c3: "\<not> converged rat_arith (294912 / 629)"
    by code_simp
  have d3: "cg_direction rat_arith 2 \<lparr>cg_x = [- (30336 / 3145), - (2688 / 3145)], cg_r = [- (35712 / 3145), 57984 / 3145], cg_p = [- (7248 / 85), - (4464 / 85)], cg_rk_norm = 4608 / 17\<rparr> (294912 / 629) = \<lparr>cg_x = [- (30336 / 3145), - (2688 / 3145)], cg_r = [- (35712 / 3145), 57984 / 3145], cg_p = [- (85632 / 629), - (68736 / 629)], cg_rk_norm = 294912 / 629\<rparr>"
    by code_simp
  have u4: "cg_update rat_arith matvec 2 [[1, 2], [- 2, 1]] \<lparr>cg_x = [- (30336 / 3145), - (2688 / 3145)], cg_r = [- (35712 / 3145), 57984 / 3145], cg_p = [- (85632 / 629), - (68736 / 629)], cg_rk_norm = 294912 / 629\<rparr> = (\<lparr>cg_x = [- (96000 / 8177), - (20736 / 8177)], cg_r = [- (137472 / 8177), 171264 / 8177], cg_p = [- (85632 / 629), - (68736 / 629)], cg_rk_norm = 294912 / 629\<rparr>, 5898240 / 8177)"
    by code_simp
  have c4: "\<not> converged rat_arith (5898240 / 8177)"
    by code_simp
  have d4: "cg_direction rat_arith 2 \<lparr>cg_x = [- (96000 / 8177), - (20736 / 8177)], cg_r = [- (137472 / 8177), 171264 / 8177], cg_p = [- (85632 / 629), - (68736 / 629)], cg_rk_norm = 294912 / 629\<rparr> (5898240 / 8177) = \<lparr>cg_x = [- (96000 / 8177), - (20736 / 8177)], cg_r = [- (137472 / 8177), 171264 / 8177], cg_p = [- (1575168 / 8177), - (1545984 / 8177)], cg_rk_norm = 5898240 / 8177\<rparr>"
    by code_simp
  have u5: "cg_update rat_arith matvec 2 [[1, 2], [- 2, 1]] \<lparr>cg_x = [- (96000 / 8177), - (20736 / 8177)], cg_r = [- (137472 / 8177), 171264 / 8177], cg_p = [- (1575168 / 8177), - (1545984 / 8177)], cg_rk_norm = 5898240 / 8177\<rparr> = (\<lparr>cg_x = [- (11271168 / 825877), - (3640320 / 825877)], cg_r = [- (18551808 / 825877), 18902016 / 825877], cg_p = [- (1575168 / 8177), - (1545984 / 8177)], cg_rk_norm = 5898240 / 8177\<rparr>, 849346560 / 825877)"
    by code_simp
  have c5: "\<not> converged rat_arith (849346560 / 825877)"
    by code_simp
  have d5: "cg_direction rat_arith 2 \<lparr>cg_x = [- (11271168 / 825877), - (3640320 / 825877)], cg_r = [- (18551808 / 825877), 18902016 / 825877], cg_p = [- (1575168 / 8177), - (1545984 / 8177)], cg_rk_norm = 5898240 / 8177\<rparr> (849346560 / 825877) = \<lparr>cg_x = [- (11271168 / 825877), - (3640320 / 825877)], cg_r = [- (18551808 / 825877), 18902016 / 825877], cg_p = [- (208272384 / 825877), - (241523712 / 825877)], cg_rk_norm = 849346560 / 825877\<rparr>"
    by code_simp
  have u6: "cg_update rat_arith matvec 2 [[1, 2], [- 2, 1]] \<lparr>cg_x = [- (11271168 / 825877), - (3640320 / 825877)], cg_r = [- (18551808 / 825877), 18902016 / 825877], cg_p = [- (208272384 / 825877), - (241523712 / 825877)], cg_rk_norm = 849346560 / 825877\<rparr> = (\<lparr>cg_x = [- (1842591744 / 119752165), - (769370112 / 119752165)], cg_r = [- (3381331968 / 119752165), 2915813376 / 119752165], cg_p = [- (208272384 / 825877), - (241523712 / 825877)], cg_rk_norm = 849346560 / 825877\<rparr>, 33294385152 / 23950433)"
    by code_simp
  have c6: "\<not> converged rat_arith (33294385152 / 23950433)"
    by code_simp
  have d6: "cg_direction rat_arith 2 \<lparr>cg_x = [- (1842591744 / 119752165), - (769370112 / 119752165)], cg_r = [- (3381331968 / 119752165), 2915813376 / 119752165], cg_p = [- (208272384 / 825877), - (241523712 / 825877)], cg_rk_norm = 849346560 / 825877\<rparr> (33294385152 / 23950433) = \<lparr>cg_x = [- (1842591744 / 119752165), - (769370112 / 119752165)], cg_r = [- (3381331968 / 119752165), 2915813376 / 119752165], cg_p = [- (37440055296 / 119752165), - (50254460928 / 119752165)], cg_rk_norm = 33294385152 / 23950433\<rparr>"
    by code_simp
  have l7: "snd (cg_loop rat_arith matvec 2 [[1, 2], [- 2, 1]] [] \<lparr>cg_x = [- (1842591744 / 119752165), - (769370112 / 119752165)], cg_r = [- (3381331968 / 119752165), 2915813376 / 119752165], cg_p = [- (37440055296 / 119752165), - (50254460928 / 119752165)], cg_rk_norm = 33294385152 / 23950433\<rparr>) = []"
    by simp
  have l6: "snd (cg_loop rat_arith matvec 2 [[1, 2], [- 2, 1]] [6] \<lparr>cg_x = [- (11271168 / 825877), - (3640320 / 825877)], cg_r = [- (18551808 / 825877), 18902016 / 825877], cg_p = [- (208272384 / 825877), - (241523712 / 825877)], cg_rk_norm = 849346560 / 825877\<rparr>) = [33294385152 / 23950433]"
    using cg_loop_continue [OF u6 c6 d6, of 6 "[]"] by (simp only: l7)
  have l5: "snd (cg_loop rat_arith matvec 2 [[1, 2], [- 2, 1]] [5, 6] \<lparr>cg_x = [- (96000 / 8177), - (20736 / 8177)], cg_r = [- (137472 / 8177), 171264 / 8177], cg_p = [- (1575168 / 8177), - (1545984 / 8177)], cg_rk_norm = 5898240 / 8177\<rparr>) = [849346560 / 825877, 33294385152 / 23950433]"
    using cg_loop_continue [OF u5 c5 d5, of 5 "[6]"] by (simp only: l6)
  have l4: "snd (cg_loop rat_arith matvec 2 [[1, 2], [- 2, 1]] [4, 5, 6] \<lparr>cg_x = [- (30336 / 3145), - (2688 / 3145)], cg_r = [- (35712 / 3145), 57984 / 3145], cg_p = [- (85632 / 629), - (68736 / 629)], cg_rk_norm = 294912 / 629\<rparr>) = [5898240 / 8177, 849346560 / 825877, 33294385152 / 23950433]"
    using cg_loop_continue [OF u4 c4 d4, of 4 "[5, 6]"] by (simp only: l5)
  have l3: "snd (cg_loop rat_arith matvec 2 [[1, 2], [- 2, 1]] [3, 4, 5, 6] \<lparr>cg_x = [- (624 / 85), 48 / 85], cg_r = [- (528 / 85), 1296 / 85], cg_p = [- (7248 / 85), - (4464 / 85)], cg_rk_norm = 4608 / 17\<rparr>) = [294912 / 629, 5898240 / 8177, 849346560 / 825877, 33294385152 / 23950433]"
    using cg_loop_continue [OF u3 c3 d3, of 3 "[4, 5, 6]"] by (simp only: l4)
  have l2: "snd (cg_loop rat_arith matvec 2 [[1, 2], [- 2, 1]] [2, 3, 4, 5, 6] \<lparr>cg_x = [- (24 / 5), 8 / 5], cg_r = [- (8 / 5), 56 / 5], cg_p = [- (216 / 5), - (88 / 5)], cg_rk_norm = 128\<rparr>) = [4608 / 17, 294912 / 629, 5898240 / 8177, 849346560 / 825877, 33294385152 / 23950433]"
    using cg_loop_continue [OF u2 c2 d2, of 2 "[3, 4, 5, 6]"] by (simp only: l3)
  have l1: "snd (cg_loop rat_arith matvec 2 [[1, 2], [- 2, 1]] [1, 2, 3, 4, 5, 6] \<lparr>cg_x = [- 2, 2], cg_r = [2, 6], cg_p = [- 14, - 2], cg_rk_norm = 40\<rparr>) = [128, 4608 / 17, 294912 / 629, 5898240 / 8177, 849346560 / 825877, 33294385152 / 23950433]"
    using cg_loop_continue [OF u1 c1 d1, of 1 "[2, 3, 4, 5, 6]"] by (simp only: l2)
  have l0: "snd (cg_loop rat_arith matvec 2 [[1, 2], [- 2, 1]] [0, 1, 2, 3, 4, 5, 6] \<lparr>cg_x = [1, 1], cg_r = [3, - 1], cg_p = [- 3, 1], cg_rk_norm = 10\<rparr>) = [40, 128, 4608 / 17, 294912 / 629, 5898240 / 8177, 849346560 / 825877, 33294385152 / 23950433]"
    using cg_loop_continue [OF u0 c0 d0, of 0 "[1, 2, 3, 4, 5, 6]"] by (simp only: l1)
  have "snd (matfree_cg_run rat_arith matvec matvec 2 [[1, 2], [- 2, 1]] [0, 0]) = [40, 128, 4608 / 17, 294912 / 629, 5898240 / 8177, 849346560 / 825877, 33294385152 / 23950433]"
    by (simp only: matfree_cg_run_norms dom init l0)
  then show ?thesis by simp
qed

subsection \<open>Flexibly indexed nodes\<close>

lemma sequence_map_Inr:
  "(\<And>x. x \<in> set xs \<Longrightarrow> f x = Inr (g x)) \<Longrightarrow> sequence (map f xs) = Inr (map g xs)"
  by (induction xs) auto

lemma sequence_map_Inl:
  "(\<And>x. x \<in> set xs \<Longrightarrow> f x = Inl e \<or> (\<exists>y. f x = Inr y)) \<Longrightarrow> \<exists>x \<in> set xs. f x = Inl e \<Longrightarrow>
   sequence (map f xs) = Inl e"
proof (induction xs)
  case Nil
  then show ?case by simp
next
  case (Cons x xs)
  show ?case
  proof (cases "f x")
    case (Inl a)
    with Cons.prems(1) [of x] show ?thesis by auto
  next
    case (Inr y)
    with Cons.prems have "\<exists>x \<in> set xs. f x = Inl e" by auto
    with Cons.IH Cons.prems(1) have "sequence (map f xs) = Inl e" by auto
    with Inr show ?thesis by simp
  qed
qed

lemma those_map_Some:
  "(\<And>x. x \<in> set xs \<Longrightarrow> f x = Some (g x)) \<Longrightarrow> those (map f xs) = Some (map g xs)"
  by (induction xs) auto

lemma flexi_dim_affine:
  assumes "list_all (\<lambda>(index, stride). is_Index index) idxs"
    and "list_all (\<lambda>(index, stride). is_Index index \<longrightarrow>
           (case map_of (active_indices c) index of Some (p_Variable name) \<Rightarrow> True | _ \<Rightarrow> False)) idxs"
  shows "flexi_dim c (off, idxs) = Inr (affine_subscript c (off, idxs))"
    and "pym_eval env (affine_subscript c (off, idxs)) = Some (affine_value env c (off, idxs))"
proof -
  have bound: "\<exists>name. map_of (active_indices c) index = Some (p_Variable name)"
    if "(index, stride) \<in> set idxs" for index stride
    using that assms by (auto simp: list_all_iff split: option.splits pym.splits)
  have "sequence (map (flexi_term c) idxs) =
        Inr (map (\<lambda>(index, stride). p_Product [the (map_of (active_indices c) index), p_Int stride]) idxs)"
  proof (rule sequence_map_Inr)
    fix x assume x: "x \<in> set idxs"
    obtain index stride where p: "x = (index, stride)" by (cases x)
    with x bound obtain name where "map_of (active_indices c) index = Some (p_Variable name)"
      by blast
    with p show "flexi_term c x =
        Inr ((\<lambda>(index, stride). p_Product [the (map_of (active_indices c) index), p_Int stride]) x)"
      by (simp add: flexi_term_def)
  qed
  with assms(1) show "flexi_dim c (off, idxs) = Inr (affine_subscript c (off, idxs))"
    by (simp add: flexi_dim_def affine_subscript_def)
  have "those (map (pym_eval env)
          (map (\<lambda>(index, stride). p_Product [the (map_of (active_indices c) index), p_Int stride]) idxs)) =
        Some (map (\<lambda>(index, stride). index_value env c index * stride) idxs)"
    unfolding map_map
  proof (rule those_map_Some)
    fix x assume x: "x \<in> set idxs"
    obtain index stride where p: "x = (index, stride)" by (cases x)
    with x bound obtain name where "map_of (active_indices c) index = Some (p_Variable name)"
      by blast
    with p show "(pym_eval env \<circ>
           (\<lambda>(index, stride). p_Product [the (map_of (active_indices c) index), p_Int stride])) x =
        Some ((\<lambda>(index, stride). index_value env c index * stride) x)"
      by (simp add: index_value_def)
  qed
  then show "pym_eval env (affine_subscript c (off, idxs)) = Some (affine_value env c (off, idxs))"
    by (simp add: affine_subscript_def affine_value_def)
qed

lemma flexi_dim_violation:
  assumes "list_all (\<lambda>(index, stride). is_Index index \<longrightarrow>
           (case map_of (active_indices c) index of Some (p_Variable name) \<Rightarrow> True | _ \<Rightarrow> False)) idxs"
  shows "flexi_dim c (off, idxs) =
           (if list_all (\<lambda>(index, stride). is_Index index) idxs
            then Inr (affine_subscript c (off, idxs)) else Inl (AssertionError ''''))"
  using flexi_dim_affine(1) [OF _ assms] by (simp add: flexi_dim_def)

text \<open>
  C7. Take a \<^verbatim>\<open>FlexiblyIndexed\<close> node whose operand lowers to \<open>var\<close> and whose indices, as
  far as they are \<open>Index\<close>es, are bound to loop variables in the active-index scope. When
  every index is an \<open>Index\<close>, the node lowers to the subscript of \<open>var\<close> whose entry for a
  dimension \<open>(off, idxs)\<close> is the sum of \<open>off\<close> and the products of an index's variable and
  its stride, and under every assignment of values to the loop variables that entry has
  the value \<open>off + \<Sum> value(index) * stride\<close>. When some index is not an \<open>Index\<close>, the
  lowering fails its assertion.
\<close>

theorem expression_flexiblyindexed_affine:
  assumes "cls expr = gem_FlexiblyIndexed dim2idxs"
    and "children expr = child # others"
    and "expression d child False ctx = (Inr var, c)"
    and "indices_bound c dim2idxs"
  shows
    "(all_Index dim2idxs \<longrightarrow>
        expression' (Suc d) expr ctx =
          (Inr (p_Subscript var (map (affine_subscript c) dim2idxs)), c)
        \<and> (\<forall>env. \<forall>dim \<in> set dim2idxs.
              pym_eval env (affine_subscript c dim) = Some (affine_value env c dim)))
     \<and> (\<not> all_Index dim2idxs \<longrightarrow>
        expression' (Suc d) expr ctx = (Inl (AssertionError ''''), c))"
proof (intro conjI impI)
  assume ok: "all_Index dim2idxs"
  have "sequence (map (flexi_dim c) dim2idxs) = Inr (map (affine_subscript c) dim2idxs)"
  proof (rule sequence_map_Inr)
    fix dim assume "dim \<in> set dim2idxs"
    with ok assms(4) show "flexi_dim c dim = Inr (affine_subscript c dim)"
      by (cases dim) (auto simp: all_Index_def indices_bound_def list_all_iff intro!: flexi_dim_affine(1))
  qed
  with assms show "expression' (Suc d) expr ctx =
      (Inr (p_Subscript var (map (affine_subscript c) dim2idxs)), c)"
    by (simp add: expression_flexiblyindexed_def arg0_def bind_res_def)
  show "\<forall>env. \<forall>dim \<in> set dim2idxs.
          pym_eval env (affine_subscript c dim) = Some (affine_value env c dim)"
  proof (intro allI ballI)
    fix env dim assume "dim \<in> set dim2idxs"
    with ok assms(4) show "pym_eval env (affine_subscript c dim) = Some (affine_value env c dim)"
      by (cases dim) (auto simp: all_Index_def indices_bound_def list_all_iff intro!: flexi_dim_affine(2))
  qed
next
  assume bad: "\<not> all_Index dim2idxs"
  have "sequence (map (flexi_dim c) dim2idxs) = Inl (AssertionError '''')"
  proof (rule sequence_map_Inl)
    fix dim assume m: "dim \<in> set dim2idxs"
    obtain off idxs where p: "dim = (off, idxs)" by (cases dim)
    with m assms(4) have "list_all (\<lambda>(index, stride). is_Index index \<longrightarrow>
           (case map_of (active_indices c) index of Some (p_Variable name) \<Rightarrow> True | _ \<Rightarrow> False)) idxs"
      by (auto simp: indices_bound_def list_all_iff)
    from flexi_dim_violation [OF this, of off] p
    show "flexi_dim c dim = Inl (AssertionError '''') \<or> (\<exists>y. flexi_dim c dim = Inr y)"
      by (cases "list_all (\<lambda>(index, stride). is_Index index) idxs") simp_all
  next
    from bad obtain dim where dim: "dim \<in> set dim2idxs"
      "\<not> (case dim of (off, idxs) \<Rightarrow> list_all (\<lambda>(index, stride). is_Index index) idxs)"
      unfolding all_Index_def list_all_iff [of _ dim2idxs] by blast
    obtain off idxs where "dim = (off, idxs)" by (cases dim)
    with dim have d: "(off, idxs) \<in> set dim2idxs"
      "\<not> list_all (\<lambda>(index, stride). is_Index index) idxs"
      by simp_all
    with assms(4) have "list_all (\<lambda>(index, stride). is_Index index \<longrightarrow>
           (case map_of (active_indices c) index of Some (p_Variable name) \<Rightarrow> True | _ \<Rightarrow> False)) idxs"
      by (auto simp: indices_bound_def list_all_iff)
    from flexi_dim_violation [OF this, of off] d(2)
    have "flexi_dim c (off, idxs) = Inl (AssertionError '''')" by simp
    with d show "\<exists>dim \<in> set dim2idxs. flexi_dim c dim = Inl (AssertionError '''')" by blast
  qed
  with assms show "expression' (Suc d) expr ctx = (Inl (AssertionError ''''), c)"
    by (simp add: expression_flexiblyindexed_def arg0_def bind_res_def)
qed

text \<open>The entry \<open>2 + 3 i + j\<close> of an array \<open>A\<close>, where \<open>i\<close> and \<open>j\<close> are bound to the loop
  variables \<open>i\<close> and \<open>i_0\<close>: at \<open>i = 1\<close> and \<open>i_0 = 2\<close> it has the value 7. With a
  \<open>VariableIndex\<close> in the place of \<open>j\<close> the assertion fails.\<close>

theorem expression_flexiblyindexed_affine_witness:
  "fst (expression' (Suc 3)
          (Node 1 (gem_FlexiblyIndexed
                     [(2, [(Index 0 None (Some 4), 3), (Index 1 None (Some 5), 1)])]) []
             [Node 0 (gem_Variable ''A'') [20] []])
          ((new_context (no_temporaries (imp_Block [])) np_float64 (1 / 10) [] True None)
             \<lparr>active_indices := [(Index 0 None (Some 4), p_Variable ''i''),
                                 (Index 1 None (Some 5), p_Variable ''i_0'')]\<rparr>))
     = Inr (p_Subscript (p_Variable ''A'')
              [p_Sum [p_Int 2, p_Product [p_Variable ''i'', p_Int 3],
                      p_Product [p_Variable ''i_0'', p_Int 1]]])
   \<and> pym_eval (\<lambda>name. if name = ''i'' then 1 else 2)
        (p_Sum [p_Int 2, p_Product [p_Variable ''i'', p_Int 3],
                p_Product [p_Variable ''i_0'', p_Int 1]]) = Some 7
   \<and> fst (expression' (Suc 3)
          (Node 1 (gem_FlexiblyIndexed
                     [(2, [(Index 0 None (Some 4), 3),
                           (VariableIndex (Node 2 (gem_Variable ''k'') [] []), 1)])]) []
             [Node 0 (gem_Variable ''A'') [20] []])
          ((new_context (no_temporaries (imp_Block [])) np_float64 (1 / 10) [] True None)
             \<lparr>active_indices := [(Index 0 None (Some 4), p_Variable ''i''),
                                 (Index 1 None (Some 5), p_Variable ''i_0'')]\<rparr>))
     = Inl (AssertionError '''')"
proof -
  let ?child = "Node 0 (gem_Variable ''A'') [20] []"
  let ?dims = "[(2, [(Index 0 None (Some 4), 3), (Index 1 None (Some 5), 1)])]
                 :: (int \<times> (gem gindex \<times> int) list) list"
  let ?bad = "[(2, [(Index 0 None (Some 4), 3),
                    (VariableIndex (Node 2 (gem_Variable ''k'') [] []), 1)])]
                 :: (int \<times> (gem gindex \<times> int) list) list"
  let ?ctx = "(new_context (no_temporaries (imp_Block [])) np_float64 (1 / 10) [] True None)
                \<lparr>active_indices := [(Index 0 None (Some 4), p_Variable ''i''),
                                    (Index 1 None (Some 5), p_Variable ''i_0'')]\<rparr>"
  let ?c = "snd (expression 3 ?child False ?ctx)"
  let ?env = "\<lambda>name. if name = ''i'' then 1 else (2::int)"
  let ?sub = "p_Sum [p_Int 2, p_Product [p_Variable ''i'', p_Int 3],
                     p_Product [p_Variable ''i_0'', p_Int 1]]"
  have h: "expression 3 ?child False ?ctx = (Inr (p_Variable ''A''), ?c)"
    by (rule res_split) code_simp
  have b1: "indices_bound ?c ?dims" by code_simp
  have b2: "indices_bound ?c ?bad" by code_simp
  have a1: "all_Index ?dims" by code_simp
  have a2: "\<not> all_Index ?bad" by code_simp
  have s: "affine_subscript ?c (2, [(Index 0 None (Some 4), 3), (Index 1 None (Some 5), 1)]) = ?sub"
    by code_simp
  have v: "affine_value ?env ?c (2, [(Index 0 None (Some 4), 3), (Index 1 None (Some 5), 1)]) = 7"
    by code_simp
  from expression_flexiblyindexed_affine
         [of "Node 1 (gem_FlexiblyIndexed ?dims) [] [?child]" ?dims ?child "[]" 3 ?ctx
             "p_Variable ''A''" ?c, OF _ _ h b1] a1
  have good: "expression' (Suc 3) (Node 1 (gem_FlexiblyIndexed ?dims) [] [?child]) ?ctx =
                (Inr (p_Subscript (p_Variable ''A'') (map (affine_subscript ?c) ?dims)), ?c)"
    and val: "\<forall>env. \<forall>dim \<in> set ?dims.
                pym_eval env (affine_subscript ?c dim) = Some (affine_value env ?c dim)"
    by simp_all
  from val have "pym_eval ?env ?sub = Some 7"
    unfolding s [symmetric] v [symmetric] by simp
  moreover from good have "fst (expression' (Suc 3) (Node 1 (gem_FlexiblyIndexed ?dims) [] [?child]) ?ctx)
      = Inr (p_Subscript (p_Variable ''A'') [?sub])"
    by (simp only: fst_conv list.map s)
  moreover
  from expression_flexiblyindexed_affine
         [of "Node 1 (gem_FlexiblyIndexed ?bad) [] [?child]" ?bad ?child "[]" 3 ?ctx
             "p_Variable ''A''" ?c, OF _ _ h b2] a2
  have "fst (expression' (Suc 3) (Node 1 (gem_FlexiblyIndexed ?bad) [] [?child]) ?ctx)
      = Inl (AssertionError '''')"
    by simp
  ultimately show ?thesis by simp
qed

subsection \<open>Names of nodes\<close>

lemma digit_char_inj: "d < 10 \<Longrightarrow> e < 10 \<Longrightarrow> digit_char d = digit_char e \<Longrightarrow> d = e"
proof -
  assume d: "d < 10" and e: "e < 10" and eq: "digit_char d = digit_char e"
  from eq have "(of_char (char_of (48 + d)) :: nat) = of_char (char_of (48 + e))"
    by (simp add: digit_char_def)
  with d e show "d = e" by simp
qed

lemma str_nat_nonempty: "str_nat n \<noteq> []"
  by (subst str_nat.simps) simp

lemma str_nat_inj: "str_nat m = str_nat n \<Longrightarrow> m = n"
proof (induction m arbitrary: n rule: str_nat.induct)
  case (1 m)
  show ?case
  proof (cases "m < 10")
    case True
    then have m: "str_nat m = [digit_char m]" by (subst str_nat.simps) simp
    show ?thesis
    proof (cases "n < 10")
      case n: True
      then have "str_nat n = [digit_char n]" by (subst str_nat.simps) simp
      with m "1.prems" True n show ?thesis by (auto dest: digit_char_inj)
    next
      case False
      then have "str_nat n = str_nat (n div 10) @ [digit_char (n mod 10)]"
        by (subst str_nat.simps) simp
      with m "1.prems" show ?thesis by (simp add: str_nat_nonempty)
    qed
  next
    case False
    then have m: "str_nat m = str_nat (m div 10) @ [digit_char (m mod 10)]"
      by (subst str_nat.simps) simp
    show ?thesis
    proof (cases "n < 10")
      case True
      then have "str_nat n = [digit_char n]" by (subst str_nat.simps) simp
      with m "1.prems" have "str_nat (m div 10) @ [digit_char (m mod 10)] = [] @ [digit_char n]"
        by simp
      then have "str_nat (m div 10) = []" by (simp only: append1_eq_conv)
      then show ?thesis by (simp add: str_nat_nonempty)
    next
      case n: False
      then have "str_nat n = str_nat (n div 10) @ [digit_char (n mod 10)]"
        by (subst str_nat.simps) simp
      with m "1.prems" have eq: "str_nat (m div 10) = str_nat (n div 10)"
        "digit_char (m mod 10) = digit_char (n mod 10)"
        by simp_all
      from "1.IH" [OF False eq(1)] have "m div 10 = n div 10" .
      moreover have "m mod 10 < 10" "n mod 10 < 10" by simp_all
      from digit_char_inj [OF this eq(2)] have "m mod 10 = n mod 10" .
      ultimately show ?thesis by (metis div_mult_mod_eq)
    qed
  qed
qed

lemma candidates_distinct: "distinct (candidates based_on n)"
proof -
  have "inj_on (\<lambda>k. based_on @ ''_'' @ str_nat k) (set [0..<n])"
    by (rule inj_onI) (auto dest: str_nat_inj)
  then have "distinct (map (\<lambda>k. based_on @ ''_'' @ str_nat k) [0..<n])"
    by (simp add: distinct_map)
  moreover have "based_on \<notin> set (map (\<lambda>k. based_on @ ''_'' @ str_nat k) [0..<n])"
    by auto
  ultimately show ?thesis by (simp add: candidates_def)
qed

lemma unique_name_fresh:
  assumes "unique_name existing based_on = (name, taken)"
  shows "name \<notin> set existing \<and> taken = name # existing"
proof -
  let ?cs = "candidates based_on (length existing)"
  have "\<exists>c \<in> set ?cs. c \<notin> set existing"
  proof (rule ccontr)
    assume "\<not> (\<exists>c \<in> set ?cs. c \<notin> set existing)"
    then have "set ?cs \<subseteq> set existing" by auto
    then have "card (set ?cs) \<le> card (set existing)" by (simp add: card_mono)
    moreover have "card (set ?cs) = length ?cs"
      by (rule distinct_card) (rule candidates_distinct)
    moreover have "length ?cs = Suc (length existing)"
      by (simp add: candidates_def)
    moreover have "card (set existing) \<le> length existing" by (rule card_length)
    ultimately show False by simp
  qed
  then obtain c where "find (\<lambda>c. c \<notin> set existing) ?cs = Some c"
    by (cases "find (\<lambda>c. c \<notin> set existing) ?cs") (auto simp: find_None_iff)
  moreover from this have "c \<notin> set existing" by (auto simp: find_Some_iff)
  ultimately show ?thesis using assms by (auto simp: unique_name_def)
qed

lemma gem_to_pym_var_recorded:
  assumes "nameable ctx x"
  shows "\<exists>v c. gem_to_pym_var x ctx = (Inr v, c)
           \<and> gem_to_pymbolic c (gem_key x) = Some v
           \<and> (\<forall>k w. gem_to_pymbolic ctx k = Some w \<longrightarrow> gem_to_pymbolic c k = Some w)
           \<and> (table_inv ctx \<longrightarrow> table_inv c)"
proof (cases "gem_to_pymbolic ctx (gem_key x)")
  case (Some v)
  then show ?thesis by (simp add: gem_to_pym_var_def)
next
  case None
  with assms obtain based_on where n: "node_name x = Inr based_on"
    by (auto simp: nameable_def has_name_def split: sum.splits)
  obtain name taken where u: "unique_name (name_gen ctx) based_on = (name, taken)"
    by (cases "unique_name (name_gen ctx) based_on")
  from unique_name_fresh [OF u] have fresh: "name \<notin> set (name_gen ctx)" "taken = name # name_gen ctx"
    by simp_all
  let ?c = "ctx\<lparr>name_gen := taken,
                 gem_to_pymbolic := (gem_to_pymbolic ctx)(gem_key x \<mapsto> p_Variable name)\<rparr>"
  from None n u have r: "gem_to_pym_var x ctx = (Inr (p_Variable name), ?c)"
    by (simp add: gem_to_pym_var_def name_gen_call_def Let_def)
  have "table_inv ?c" if inv: "table_inv ctx"
    unfolding table_inv_def
  proof (intro conjI allI impI)
    fix k v assume "gem_to_pymbolic ?c k = Some v"
    with inv fresh show "\<exists>name. v = p_Variable name \<and> name \<in> set (name_gen ?c)"
      by (auto simp: table_inv_def split: if_splits)
  next
    fix k k' v assume h: "gem_to_pymbolic ?c k = Some v \<and> gem_to_pymbolic ?c k' = Some v"
    from inv fresh have old: "gem_to_pymbolic ctx j \<noteq> Some (p_Variable name)" for j
      by (auto simp: table_inv_def)
    from inv have inj: "gem_to_pymbolic ctx j = Some w \<Longrightarrow> gem_to_pymbolic ctx j' = Some w \<Longrightarrow> j = j'"
      for j j' w
      unfolding table_inv_def by blast
    from h old inj show "k = k'"
      by (auto split: if_splits)
  qed
  moreover from None have "\<forall>k w. gem_to_pymbolic ctx k = Some w \<longrightarrow> gem_to_pymbolic ?c k = Some w"
    by auto
  ultimately show ?thesis using r by simp
qed

lemma map_res_gem_to_pym_var:
  assumes "list_all (nameable ctx) nodes"
  shows "\<exists>pyms c. map_res gem_to_pym_var nodes ctx = (Inr pyms, c)
           \<and> length pyms = length nodes
           \<and> (\<forall>i < length nodes. gem_to_pymbolic c (gem_key (nodes ! i)) = Some (pyms ! i))
           \<and> (\<forall>k w. gem_to_pymbolic ctx k = Some w \<longrightarrow> gem_to_pymbolic c k = Some w)
           \<and> (table_inv ctx \<longrightarrow> table_inv c)"
  using assms
proof (induction nodes arbitrary: ctx)
  case Nil
  then show ?case by simp
next
  case (Cons x xs)
  from Cons.prems have "nameable ctx x" by simp
  from gem_to_pym_var_recorded [OF this]
  obtain v c1 where x: "gem_to_pym_var x ctx = (Inr v, c1)"
    "gem_to_pymbolic c1 (gem_key x) = Some v"
    "\<forall>k w. gem_to_pymbolic ctx k = Some w \<longrightarrow> gem_to_pymbolic c1 k = Some w"
    "table_inv ctx \<longrightarrow> table_inv c1"
    by blast
  from Cons.prems x(3) have "list_all (nameable c1) xs"
    by (auto simp: list_all_iff nameable_def)
  from Cons.IH [OF this]
  obtain pyms c2 where xs: "map_res gem_to_pym_var xs c1 = (Inr pyms, c2)"
    "length pyms = length xs"
    "\<forall>i < length xs. gem_to_pymbolic c2 (gem_key (xs ! i)) = Some (pyms ! i)"
    "\<forall>k w. gem_to_pymbolic c1 k = Some w \<longrightarrow> gem_to_pymbolic c2 k = Some w"
    "table_inv c1 \<longrightarrow> table_inv c2"
    by blast
  have "map_res gem_to_pym_var (x # xs) ctx = (Inr (v # pyms), c2)"
    using x(1) xs(1) by (simp add: bind_res_def)
  moreover have "\<forall>i < length (x # xs). gem_to_pymbolic c2 (gem_key ((x # xs) ! i)) = Some ((v # pyms) ! i)"
  proof (intro allI impI)
    fix i assume "i < length (x # xs)"
    then show "gem_to_pymbolic c2 (gem_key ((x # xs) ! i)) = Some ((v # pyms) ! i)"
      using x(2) xs(3) xs(4) by (cases i) auto
  qed
  moreover have "\<forall>k w. gem_to_pymbolic ctx k = Some w \<longrightarrow> gem_to_pymbolic c2 k = Some w"
    using x(3) xs(4) by blast
  ultimately show ?case using xs(2) x(4) xs(5) by simp
qed

text \<open>
  C3, as the code has it. Take any sequence of lookups of nodes that are in the table or
  have a name, in any context. No lookup raises, and two lookups of nodes that are equal
  in structure return the same variable, whether they are lookups of one instance or of
  two: the table is keyed by the value of a node. In a context whose table was written
  by the lookup only, two lookups of nodes that differ in structure return two
  variables.
\<close>

theorem gem_to_pym_var_memoized:
  assumes "list_all (nameable ctx) nodes"
  shows "\<exists>pyms c. map_res gem_to_pym_var nodes ctx = (Inr pyms, c)
           \<and> length pyms = length nodes
           \<and> (\<forall>i < length nodes. \<forall>j < length nodes.
                 (gem_key (nodes ! i) = gem_key (nodes ! j) \<longrightarrow> pyms ! i = pyms ! j)
                 \<and> (table_inv ctx \<and> pyms ! i = pyms ! j \<longrightarrow>
                      gem_key (nodes ! i) = gem_key (nodes ! j)))"
proof -
  from map_res_gem_to_pym_var [OF assms]
  obtain pyms c where r: "map_res gem_to_pym_var nodes ctx = (Inr pyms, c)"
    "length pyms = length nodes"
    "\<forall>i < length nodes. gem_to_pymbolic c (gem_key (nodes ! i)) = Some (pyms ! i)"
    "table_inv ctx \<longrightarrow> table_inv c"
    by blast
  have "(gem_key (nodes ! i) = gem_key (nodes ! j) \<longrightarrow> pyms ! i = pyms ! j)
        \<and> (table_inv ctx \<and> pyms ! i = pyms ! j \<longrightarrow> gem_key (nodes ! i) = gem_key (nodes ! j))"
    if "i < length nodes" "j < length nodes" for i j
  proof (intro conjI impI)
    assume "gem_key (nodes ! i) = gem_key (nodes ! j)"
    with r(3) that show "pyms ! i = pyms ! j"
      by (metis option.inject)
  next
    assume a: "table_inv ctx \<and> pyms ! i = pyms ! j"
    with r(3) that have "gem_to_pymbolic c (gem_key (nodes ! i)) = Some (pyms ! i)"
      "gem_to_pymbolic c (gem_key (nodes ! j)) = Some (pyms ! i)"
      by simp_all
    moreover from a r(4) have "table_inv c" by simp
    ultimately show "gem_key (nodes ! i) = gem_key (nodes ! j)"
      unfolding table_inv_def by blast
  qed
  with r(1) r(2) show ?thesis by blast
qed

text \<open>Two instances of the variable \<open>A\<close> and one of the variable \<open>B\<close>, looked up in the
  order first, second, first, third in the context \<^verbatim>\<open>generate\<close> starts from: the names
  are \<open>A\<close>, \<open>A\<close>, \<open>A\<close> and \<open>B\<close>.\<close>

theorem gem_to_pym_var_memoized_witness:
  "fst (map_res gem_to_pym_var
          [Node 0 (gem_Variable ''A'') [3] [], Node 1 (gem_Variable ''A'') [3] [],
           Node 0 (gem_Variable ''A'') [3] [], Node 2 (gem_Variable ''B'') [3] []]
          (new_context (no_temporaries (imp_Block [])) np_float64 (1 / 10) [] True None))
     = Inr [p_Variable ''A'', p_Variable ''A'', p_Variable ''A'', p_Variable ''B'']
   \<and> table_inv (new_context (no_temporaries (imp_Block [])) np_float64 (1 / 10) [] True None)"
proof -
  let ?ctx = "new_context (no_temporaries (imp_Block [])) np_float64 (1 / 10) [] True None"
  let ?nodes = "[Node 0 (gem_Variable ''A'') [3] [], Node 1 (gem_Variable ''A'') [3] [],
                 Node 0 (gem_Variable ''A'') [3] [], Node 2 (gem_Variable ''B'') [3] []]"
  have i: "table_inv ?ctx" by (simp add: table_inv_def new_context_def)
  have n: "list_all (nameable ?ctx) ?nodes"
    by (simp add: nameable_def has_name_def node_name_def)
  from gem_to_pym_var_memoized [OF n]
  obtain pyms c where "map_res gem_to_pym_var ?nodes ?ctx = (Inr pyms, c)" by blast
  moreover have "fst (map_res gem_to_pym_var ?nodes ?ctx)
      = Inr [p_Variable ''A'', p_Variable ''A'', p_Variable ''A'', p_Variable ''B'']"
    by code_simp
  ultimately show ?thesis using i by simp
qed

text \<open>
  C3 as the spec words it gives two names to two instances that are equal in structure.
  Two instances of the variable \<open>A\<close> of shape \<open>(3)\<close> are one key of the table, and the
  lookup of the second returns the name the first was given.
\<close>

theorem gem_to_pym_var_counterexample:
  "Node 0 (gem_Variable ''A'') [3] [] \<noteq> Node 1 (gem_Variable ''A'') [3] []
   \<and> gem_key (Node 0 (gem_Variable ''A'') [3] []) = gem_key (Node 1 (gem_Variable ''A'') [3] [])
   \<and> fst (map_res gem_to_pym_var
            [Node 0 (gem_Variable ''A'') [3] [], Node 1 (gem_Variable ''A'') [3] []]
            (new_context (no_temporaries (imp_Block [])) np_float64 (1 / 10) [] True None))
       = Inr [p_Variable ''A'', p_Variable ''A'']"
  by code_simp

subsection \<open>The pending auxiliary kernel\<close>

text \<open>Lowering an expression does not touch the global.\<close>

lemma mf_bind_res:
  "(\<And>v c1. matfree_solve_knl (snd (f v c1)) = matfree_solve_knl c1) \<Longrightarrow>
   matfree_solve_knl (snd (bind_res r f)) = matfree_solve_knl (snd r)"
  by (cases r) (auto simp: bind_res_def split: sum.splits)

lemma mf_map_res:
  "(\<And>x c. matfree_solve_knl (snd (f x c)) = matfree_solve_knl c) \<Longrightarrow>
   matfree_solve_knl (snd (map_res f xs c)) = matfree_solve_knl c"
  by (induction xs arbitrary: c) (simp_all add: mf_bind_res)

lemma mf_name_gen_call [simp]:
  "matfree_solve_knl (snd (name_gen_call s c)) = matfree_solve_knl c"
  by (simp add: name_gen_call_def split: prod.splits)

lemma mf_index_names_get [simp]:
  "matfree_solve_knl (snd (index_names_get k c)) = matfree_solve_knl c"
  by (simp add: index_names_get_def split: option.splits)

lemma mf_gem_to_pym_var [simp]:
  "matfree_solve_knl (snd (gem_to_pym_var x c)) = matfree_solve_knl c"
  by (auto simp: gem_to_pym_var_def name_gen_call_def Let_def
        split: option.splits sum.splits prod.splits)

lemma mf_pymbolic_index [simp]:
  "matfree_solve_knl (snd (pymbolic_index ext c)) = matfree_solve_knl c"
proof -
  obtain seed c0 where a: "index_names_get (Inr ext) c = (seed, c0)"
    by (cases "index_names_get (Inr ext) c")
  obtain name c1 where b: "name_gen_call seed c0 = (name, c1)"
    by (cases "name_gen_call seed c0")
  from a have "matfree_solve_knl c0 = matfree_solve_knl c"
    using mf_index_names_get [of "Inr ext" c] by simp
  moreover from b have "matfree_solve_knl c1 = matfree_solve_knl c0"
    using mf_name_gen_call [of seed c0] by simp
  ultimately show ?thesis using a b by (simp add: pymbolic_index_def)
qed

lemma mf_pymbolic_multiindex [simp]:
  "matfree_solve_knl (snd (pymbolic_multiindex shp c)) = matfree_solve_knl c"
  by (simp add: pymbolic_multiindex_def mf_map_res)

lemma mf_gem_to_pym_index [simp]:
  "matfree_solve_knl (snd (gem_to_pym_index index c)) = matfree_solve_knl c"
proof (cases index)
  case (Index n nm ext)
  obtain seed c0 where a: "index_names_get (Inl index) c = (seed, c0)"
    by (cases "index_names_get (Inl index) c")
  obtain name c1 where b: "name_gen_call seed c0 = (name, c1)"
    by (cases "name_gen_call seed c0")
  from a have "matfree_solve_knl c0 = matfree_solve_knl c"
    using mf_index_names_get [of "Inl index" c] by simp
  moreover from b have "matfree_solve_knl c1 = matfree_solve_knl c0"
    using mf_name_gen_call [of seed c0] by simp
  ultimately show ?thesis using a b Index by (simp add: gem_to_pym_index_def)
qed (simp_all add: gem_to_pym_index_def)

lemma mf_gem_to_pym_multiindex [simp]:
  "matfree_solve_knl (snd (gem_to_pym_multiindex mi c)) = matfree_solve_knl c"
  by (simp add: gem_to_pym_multiindex_def mf_map_res)

lemma mf_assignment [simp]:
  "matfree_solve_knl (snd (assignment lhs rhs c)) = matfree_solve_knl c"
  by (simp add: assignment_def split: sum.splits)

lemma mf_call_instruction [simp]:
  "matfree_solve_knl (snd (call_instruction lhs rhs c)) = matfree_solve_knl c"
  by (simp add: call_instruction_def split: sum.splits)

lemma mf_pop_keys [simp]:
  "matfree_solve_knl (snd (pop_keys ks c)) = matfree_solve_knl c"
  by (induction ks arbitrary: c) (simp_all split: sum.splits)

lemma mf_handlers:
  assumes "\<And>x c. matfree_solve_knl (snd (lower x c)) = matfree_solve_knl c"
  shows "matfree_solve_knl (snd (expression_nary lower build expr ctx)) = matfree_solve_knl ctx"
    and "matfree_solve_knl (snd (expression_division lower expr ctx)) = matfree_solve_knl ctx"
    and "matfree_solve_knl (snd (expression_comparison lower operator expr ctx)) = matfree_solve_knl ctx"
    and "matfree_solve_knl (snd (expression_conditional lower expr ctx)) = matfree_solve_knl ctx"
    and "matfree_solve_knl (snd (expression_mathfunction lower name expr ctx)) = matfree_solve_knl ctx"
    and "matfree_solve_knl (snd (expression_flexiblyindexed lower dim2idxs expr ctx)) = matfree_solve_knl ctx"
    and "matfree_solve_knl (snd (fetch_index lower index ctx)) = matfree_solve_knl ctx"
proof -
  note [simp] = assms mf_map_res mf_bind_res
  show n: "matfree_solve_knl (snd (expression_nary lower build expr ctx)) = matfree_solve_knl ctx"
    for build
    by (simp add: expression_nary_def)
  show "matfree_solve_knl (snd (expression_division lower expr ctx)) = matfree_solve_knl ctx"
    by (subst expression_division_def, subst mf_bind_res) (simp_all split: list.splits)
  show "matfree_solve_knl (snd (expression_comparison lower operator expr ctx)) = matfree_solve_knl ctx"
    by (subst expression_comparison_def, subst mf_bind_res) (simp_all split: list.splits)
  show "matfree_solve_knl (snd (expression_conditional lower expr ctx)) = matfree_solve_knl ctx"
    by (subst expression_conditional_def, subst mf_bind_res) (simp_all split: list.splits)
  show "matfree_solve_knl (snd (expression_mathfunction lower name expr ctx)) = matfree_solve_knl ctx"
    by (simp add: expression_mathfunction_def n Let_def split: list.splits)
  show "matfree_solve_knl (snd (expression_flexiblyindexed lower dim2idxs expr ctx)) = matfree_solve_knl ctx"
    by (simp add: expression_flexiblyindexed_def split: sum.splits)
  show "matfree_solve_knl (snd (fetch_index lower index ctx)) = matfree_solve_knl ctx"
    by (simp add: fetch_index_def split: gindex.splits option.splits)
qed

lemma mf_expression_indexed:
  assumes "\<And>x c. matfree_solve_knl (snd (lower x c)) = matfree_solve_knl c"
    and "\<And>mi c. matfree_solve_knl (snd (fetch mi c)) = matfree_solve_knl c"
  shows "matfree_solve_knl (snd (expression_indexed fetch lower multiindex expr ctx)) = matfree_solve_knl ctx"
proof -
  have "matfree_solve_knl (snd (case arg0 expr of Inl e \<Rightarrow> (Inl e, c1)
          | Inr child \<Rightarrow> bind_res (lower child c1) (\<lambda>var c2.
             case var of p_Subscript aggregate index \<Rightarrow> (Inr (p_Subscript aggregate (index @ rank)), c2)
             | _ \<Rightarrow> (Inr (p_Subscript var rank), c2)))) = matfree_solve_knl c1" for rank c1
    by (cases "arg0 expr") (simp_all add: mf_bind_res assms(1) split: pym.splits)
  then show ?thesis
    unfolding expression_indexed_def by (subst mf_bind_res) (simp_all add: assms(2))
qed

lemma mf_expression_all:
  "(\<forall>e t c. matfree_solve_knl (snd (expression d e t c)) = matfree_solve_knl c)
   \<and> (\<forall>e c. matfree_solve_knl (snd (expression' d e c)) = matfree_solve_knl c)
   \<and> (\<forall>e c. matfree_solve_knl (snd (pymbolic_variable d e c)) = matfree_solve_knl c)
   \<and> (\<forall>mi c. matfree_solve_knl (snd (fetch_multiindex d mi c)) = matfree_solve_knl c)"
proof (induction d)
  case 0
  show ?case by simp
next
  case (Suc d)
  then have ih: "\<And>e t c. matfree_solve_knl (snd (expression d e t c)) = matfree_solve_knl c"
    "\<And>e c. matfree_solve_knl (snd (expression' d e c)) = matfree_solve_knl c"
    "\<And>e c. matfree_solve_knl (snd (pymbolic_variable d e c)) = matfree_solve_knl c"
    "\<And>mi c. matfree_solve_knl (snd (fetch_multiindex d mi c)) = matfree_solve_knl c"
    by simp_all
  have low: "\<And>x c. matfree_solve_knl (snd ((\<lambda>c. expression d c False) x c)) = matfree_solve_knl c"
    by (simp add: ih)
  have e: "matfree_solve_knl (snd (expression (Suc d) e t c)) = matfree_solve_knl c" for e t c
    by (simp add: ih)
  have e': "matfree_solve_knl (snd (expression' (Suc d) e c)) = matfree_solve_knl c" for e c
    by (cases "cls e")
       (simp_all add: ih mf_handlers [of "\<lambda>c. expression d c False", OF low]
          mf_expression_indexed [of "\<lambda>c. expression d c False" "fetch_multiindex d", OF low ih(4)])
  have p: "matfree_solve_knl (snd (pymbolic_variable (Suc d) e c)) = matfree_solve_knl c" for e c
    by (simp, subst mf_bind_res) (simp_all add: ih mf_bind_res split: option.splits)
  have f: "matfree_solve_knl (snd (fetch_multiindex (Suc d) mi c)) = matfree_solve_knl c" for mi c
    by (simp add: mf_map_res mf_handlers(7) [of "\<lambda>e. expression d e False", OF low])
  from e e' p f show ?case by blast
qed

lemma mf_expression [simp]:
  "matfree_solve_knl (snd (expression d e t c)) = matfree_solve_knl c"
  "matfree_solve_knl (snd (expression' d e c)) = matfree_solve_knl c"
  "matfree_solve_knl (snd (pymbolic_variable d e c)) = matfree_solve_knl c"
  "matfree_solve_knl (snd (fetch_multiindex d mi c)) = matfree_solve_knl c"
  using mf_expression_all [of d] by simp_all

text \<open>Over a call the global keeps its value or comes to hold an auxiliary kernel.\<close>

lemma pending_ok_refl [simp]: "pending_ok g g"
  by (simp add: pending_ok_def)

lemma pending_ok_trans: "pending_ok a b \<Longrightarrow> pending_ok b c \<Longrightarrow> pending_ok a c"
  by (auto simp: pending_ok_def)

lemma is_matfree_cg_pending: "is_matfree_cg a \<Longrightarrow> pending_ok a b \<Longrightarrow> is_matfree_cg b"
  by (auto simp: pending_ok_def)

lemma po_bind_res:
  "pending_ok g (matfree_solve_knl (snd r)) \<Longrightarrow>
   (\<And>v c1. pending_ok (matfree_solve_knl c1) (matfree_solve_knl (snd (f v c1)))) \<Longrightarrow>
   pending_ok g (matfree_solve_knl (snd (bind_res r f)))"
  by (cases r) (auto simp: bind_res_def split: sum.splits intro: pending_ok_trans)

lemma po_map_res:
  "(\<And>x c. pending_ok (matfree_solve_knl c) (matfree_solve_knl (snd (f x c)))) \<Longrightarrow>
   pending_ok (matfree_solve_knl c) (matfree_solve_knl (snd (map_res f xs c)))"
proof (induction xs arbitrary: c)
  case Nil
  show ?case by simp
next
  case (Cons x xs)
  show ?case
    unfolding map_res.simps
  proof (rule po_bind_res)
    show "pending_ok (matfree_solve_knl c) (matfree_solve_knl (snd (f x c)))" by (rule Cons.prems)
  next
    fix v c1
    show "pending_ok (matfree_solve_knl c1)
            (matfree_solve_knl (snd (bind_res (map_res f xs c1) (\<lambda>ys c2. (Inr (v # ys), c2)))))"
      by (rule po_bind_res) (simp_all add: Cons.IH Cons.prems)
  qed
qed

lemma bind_res_Inr:
  "bind_res r f = (Inr v, c) \<Longrightarrow> \<exists>u c1. r = (Inr u, c1) \<and> f u c1 = (Inr v, c)"
  by (cases r) (auto simp: bind_res_def split: sum.splits)

lemma map_res_Cons_Inr:
  "map_res f (x # xs) c = (Inr ys, c') \<Longrightarrow>
   \<exists>y c1 ys'. f x c = (Inr y, c1) \<and> map_res f xs c1 = (Inr ys', c') \<and> ys = y # ys'"
  by (auto dest!: bind_res_Inr)

lemma map_res_length: "map_res f xs c = (Inr ys, c') \<Longrightarrow> length ys = length xs"
proof (induction xs arbitrary: c ys)
  case Nil
  then show ?case by simp
next
  case (Cons x xs)
  from map_res_Cons_Inr [OF Cons.prems] Cons.IH show ?case by auto
qed

lemma mf_sub_array_ref [simp]:
  "matfree_solve_knl (snd (sub_array_ref d node c)) = matfree_solve_knl c"
  by (simp add: sub_array_ref_def mf_bind_res)

lemma mf_pymbolic_variable_and_destruct [simp]:
  "matfree_solve_knl (snd (pymbolic_variable_and_destruct d node c)) = matfree_solve_knl c"
  by (simp add: pymbolic_variable_and_destruct_def mf_bind_res split: pym.splits)

lemma mf_leaf_statements [simp]:
  "matfree_solve_knl (snd (statement_initialise d e c)) = matfree_solve_knl c"
  "matfree_solve_knl (snd (statement_accumulate d e c)) = matfree_solve_knl c"
  "matfree_solve_knl (snd (statement_return d v e c)) = matfree_solve_knl c"
  "matfree_solve_knl (snd (statement_returnaccumulate d v e c)) = matfree_solve_knl c"
  by (simp_all add: statement_initialise_def statement_accumulate_def statement_return_def
        statement_returnaccumulate_def mf_bind_res split: sum.splits)

lemma mf_active_indices_scope:
  assumes "\<And>c. matfree_solve_knl (snd (body c)) = matfree_solve_knl c"
  shows "matfree_solve_knl (snd (active_indices_scope m body ctx)) = matfree_solve_knl ctx"
proof -
  let ?c0 = "ctx\<lparr>active_indices := dict_update (active_indices ctx) m\<rparr>"
  obtain r c1 where b: "body ?c0 = (r, c1)" by (cases "body ?c0")
  with assms [of ?c0] have c1: "matfree_solve_knl c1 = matfree_solve_knl ctx" by simp
  obtain r2 c2 where p: "pop_keys (map fst m) c1 = (r2, c2)" by (cases "pop_keys (map fst m) c1")
  with mf_pop_keys [of "map fst m" c1] have "matfree_solve_knl c2 = matfree_solve_knl c1" by simp
  with b p c1 show ?thesis
    by (simp add: active_indices_scope_def split: sum.splits)
qed

lemma po_active_indices_scope:
  assumes "\<And>c. pending_ok (matfree_solve_knl c) (matfree_solve_knl (snd (body c)))"
  shows "pending_ok (matfree_solve_knl ctx) (matfree_solve_knl (snd (active_indices_scope m body ctx)))"
proof -
  let ?c0 = "ctx\<lparr>active_indices := dict_update (active_indices ctx) m\<rparr>"
  obtain r c1 where b: "body ?c0 = (r, c1)" by (cases "body ?c0")
  with assms [of ?c0] have c1: "pending_ok (matfree_solve_knl ctx) (matfree_solve_knl c1)" by simp
  obtain r2 c2 where p: "pop_keys (map fst m) c1 = (r2, c2)" by (cases "pop_keys (map fst m) c1")
  with mf_pop_keys [of "map fst m" c1] have "matfree_solve_knl c2 = matfree_solve_knl c1" by simp
  with b p c1 show ?thesis
    by (simp add: active_indices_scope_def split: sum.splits)
qed

lemma active_indices_scope_Inr:
  assumes "active_indices_scope m body ctx = (Inr v, c)"
  shows "\<exists>c0 c1. body c0 = (Inr v, c1) \<and> matfree_solve_knl c0 = matfree_solve_knl ctx
           \<and> matfree_solve_knl c = matfree_solve_knl c1"
proof -
  let ?c0 = "ctx\<lparr>active_indices := dict_update (active_indices ctx) m\<rparr>"
  obtain r c1 where b: "body ?c0 = (r, c1)" by (cases "body ?c0")
  obtain r2 c2 where p: "pop_keys (map fst m) c1 = (r2, c2)" by (cases "pop_keys (map fst m) c1")
  with mf_pop_keys [of "map fst m" c1] have k: "matfree_solve_knl c2 = matfree_solve_knl c1" by simp
  from assms b p have "r = Inr v \<and> c = c2"
    by (auto simp: active_indices_scope_def split: sum.splits)
  with b k have "body ?c0 = (Inr v, c1) \<and> matfree_solve_knl ?c0 = matfree_solve_knl ctx
      \<and> matfree_solve_knl c = matfree_solve_knl c1"
    by simp
  then show ?thesis by blast
qed

text \<open>\<^verbatim>\<open>statement_evaluate\<close>: only the branch of the matrix-free solve writes the global.\<close>

lemma mf_loopy_matfree_solve:
  "pending_ok (matfree_solve_knl c) (matfree_solve_knl (snd (loopy_matfree_solve lhs reads shp c)))"
  by (cases shp) (auto simp: loopy_matfree_solve_def pending_ok_def is_matfree_cg_def)

lemma mf_statement_evaluate:
  assumes "cls expr \<noteq> gem_Solve True"
  shows "matfree_solve_knl (snd (statement_evaluate d expr ctx)) = matfree_solve_knl ctx"
proof (cases "cls expr")
  case gem_ListTensor
  have "matfree_solve_knl (snd (bind_res (expression d val False c1) (assignment lhs))) = matfree_solve_knl c1"
    for val c1 lhs
    by (simp add: mf_bind_res)
  then show ?thesis using gem_ListTensor
    by (simp add: statement_evaluate_def mf_bind_res mf_map_res split: prod.splits)
next
  case (gem_ComponentTensor multiindex)
  have "matfree_solve_knl (snd (case arg0 expr of Inl e \<Rightarrow> (Inl e, ca)
            | Inr child \<Rightarrow> bind_res (expression d child False ca) (\<lambda>rhs c3.
                bind_res (assignment lhs rhs c3) (\<lambda>insn c'. (Inr [insn], c'))))) = matfree_solve_knl ca"
    for lhs ca
    by (simp add: mf_bind_res split: sum.splits)
  then show ?thesis using gem_ComponentTensor
    by (simp add: statement_evaluate_def mf_bind_res mf_active_indices_scope split: prod.splits)
next
  case gem_Inverse
  then show ?thesis
    by (simp add: statement_evaluate_def mf_bind_res split: sum.splits)
next
  case gem_Action
  then show ?thesis
    by (simp add: statement_evaluate_def mf_bind_res mf_map_res)
next
  case (gem_Solve matfree)
  with assms have "\<not> matfree" by simp
  with gem_Solve show ?thesis
    by (simp add: statement_evaluate_def mf_bind_res mf_map_res)
qed (simp_all add: statement_evaluate_def mf_bind_res)

lemma po_statement_evaluate:
  "pending_ok (matfree_solve_knl ctx) (matfree_solve_knl (snd (statement_evaluate d expr ctx)))"
proof (cases "cls expr = gem_Solve True")
  case False
  then show ?thesis by (simp add: mf_statement_evaluate)
next
  case True
  have last: "pending_ok (matfree_solve_knl c3)
      (matfree_solve_knl (snd (case matfree_solve_knl c3 of None \<Rightarrow> (Inl AttributeError, c3)
         | Some knl \<Rightarrow> call_instruction lhs (p_Call (p_Variable (knl_name knl)) reads) c3)))"
    for c3 lhs reads
    by (simp split: option.splits)
  have solve: "pending_ok (matfree_solve_knl c2)
      (matfree_solve_knl (snd (bind_res (loopy_matfree_solve lhs reads (shape expr) c2) (\<lambda>u c3.
         case matfree_solve_knl c3 of None \<Rightarrow> (Inl AttributeError, c3)
         | Some knl \<Rightarrow> call_instruction lhs (p_Call (p_Variable (knl_name knl)) reads) c3))))"
    for c2 lhs reads
  proof (rule po_bind_res)
    show "pending_ok (matfree_solve_knl c2)
            (matfree_solve_knl (snd (loopy_matfree_solve lhs reads (shape expr) c2)))"
      by (rule mf_loopy_matfree_solve)
  next
    fix v c3
    show "pending_ok (matfree_solve_knl c3)
      (matfree_solve_knl (snd (case matfree_solve_knl c3 of None \<Rightarrow> (Inl AttributeError, c3)
         | Some knl \<Rightarrow> call_instruction lhs (p_Call (p_Variable (knl_name knl)) reads) c3)))"
      by (rule last)
  qed
  have operands: "pending_ok (matfree_solve_knl c1)
      (matfree_solve_knl (snd (bind_res (map_res (sub_array_ref d) (children expr) c1) (\<lambda>reads c2.
         bind_res (loopy_matfree_solve lhs reads (shape expr) c2) (\<lambda>u c3.
         case matfree_solve_knl c3 of None \<Rightarrow> (Inl AttributeError, c3)
         | Some knl \<Rightarrow> call_instruction lhs (p_Call (p_Variable (knl_name knl)) reads) c3)))))"
    for c1 lhs
  proof (rule po_bind_res)
    show "pending_ok (matfree_solve_knl c1)
            (matfree_solve_knl (snd (map_res (sub_array_ref d) (children expr) c1)))"
      by (simp add: mf_map_res)
  next
    fix reads c2
    show "pending_ok (matfree_solve_knl c2)
      (matfree_solve_knl (snd (bind_res (loopy_matfree_solve lhs reads (shape expr) c2) (\<lambda>u c3.
         case matfree_solve_knl c3 of None \<Rightarrow> (Inl AttributeError, c3)
         | Some knl \<Rightarrow> call_instruction lhs (p_Call (p_Variable (knl_name knl)) reads) c3))))"
      by (rule solve)
  qed
  have "pending_ok (matfree_solve_knl ctx)
      (matfree_solve_knl (snd (bind_res (sub_array_ref d expr ctx) (\<lambda>lhs c1.
         bind_res (map_res (sub_array_ref d) (children expr) c1) (\<lambda>reads c2.
         bind_res (loopy_matfree_solve [lhs] reads (shape expr) c2) (\<lambda>u c3.
         case matfree_solve_knl c3 of None \<Rightarrow> (Inl AttributeError, c3)
         | Some knl \<Rightarrow> call_instruction [lhs] (p_Call (p_Variable (knl_name knl)) reads) c3))))))"
  proof (rule po_bind_res)
    show "pending_ok (matfree_solve_knl ctx) (matfree_solve_knl (snd (sub_array_ref d expr ctx)))"
      by simp
  next
    fix lhs c1
    show "pending_ok (matfree_solve_knl c1)
      (matfree_solve_knl (snd (bind_res (map_res (sub_array_ref d) (children expr) c1) (\<lambda>reads c2.
         bind_res (loopy_matfree_solve [lhs] reads (shape expr) c2) (\<lambda>u c3.
         case matfree_solve_knl c3 of None \<Rightarrow> (Inl AttributeError, c3)
         | Some knl \<Rightarrow> call_instruction [lhs] (p_Call (p_Variable (knl_name knl)) reads) c3)))))"
      by (rule operands)
  qed
  then show ?thesis using True
    by (simp add: statement_evaluate_def)
qed

lemma statement_evaluate_matfree:
  assumes "cls expr = gem_Solve True" and "statement_evaluate d expr ctx = (Inr insns, c)"
  shows "\<exists>lhs reads inames n rest.
           shape expr = n # rest
           \<and> insns = [lp_CallInstruction [lhs] (p_Call (p_Variable ''matfree_cg_kernel'') reads) inames]
           \<and> length reads = length (children expr)
           \<and> matfree_solve_knl c = Some (matfree_cg_kernel n (shape expr))"
proof -
  from assms have "bind_res (sub_array_ref d expr ctx) (\<lambda>lhs c1.
       bind_res (map_res (sub_array_ref d) (children expr) c1) (\<lambda>reads c2.
       bind_res (loopy_matfree_solve [lhs] reads (shape expr) c2) (\<lambda>u c3.
         case matfree_solve_knl c3 of None \<Rightarrow> (Inl AttributeError, c3)
         | Some knl \<Rightarrow> call_instruction [lhs] (p_Call (p_Variable (knl_name knl)) reads) c3)))
       = (Inr insns, c)"
    by (simp add: statement_evaluate_def)
  then obtain lhs c1 reads c2 u c3 where
    r: "map_res (sub_array_ref d) (children expr) c1 = (Inr reads, c2)"
    and m: "loopy_matfree_solve [lhs] reads (shape expr) c2 = (Inr u, c3)"
    and k: "(case matfree_solve_knl c3 of None \<Rightarrow> (Inl AttributeError, c3)
         | Some knl \<Rightarrow> call_instruction [lhs] (p_Call (p_Variable (knl_name knl)) reads) c3)
       = (Inr insns, c)"
    by (blast dest!: bind_res_Inr)
  from m obtain n rest where s: "shape expr = n # rest"
    and c3: "c3 = c2\<lparr>matfree_solve_knl := Some (matfree_cg_kernel n (shape expr))\<rparr>"
    by (cases "shape expr") (auto simp: loopy_matfree_solve_def)
  from k c3 obtain inames where
    "insns = [lp_CallInstruction [lhs] (p_Call (p_Variable ''matfree_cg_kernel'') reads) inames]"
    "c = c3"
    by (auto simp: call_instruction_def matfree_cg_kernel_def split: sum.splits)
  with s c3 map_res_length [OF r] show ?thesis by auto
qed

text \<open>\<^verbatim>\<open>statement\<close>.\<close>

lemma po_statement:
  "pending_ok (matfree_solve_knl ctx) (matfree_solve_knl (snd (statement d t ctx)))"
proof (induction d arbitrary: t ctx)
  case 0
  show ?case by simp
next
  case (Suc d)
  show ?case
  proof (cases t)
    case (imp_Block cs)
    then show ?thesis
      by (simp add: statement_block_def) (intro po_bind_res po_map_res Suc.IH, simp)
  next
    case (imp_For index body)
    show ?thesis
    proof (cases index)
      case (Index k nm ext)
      obtain seed c0 where a: "index_names_get (Inl index) ctx = (seed, c0)"
        by (cases "index_names_get (Inl index) ctx")
      obtain idx c1 where b: "name_gen_call seed c0 = (idx, c1)"
        by (cases "name_gen_call seed c0")
      from a mf_index_names_get [of "Inl index" ctx] b mf_name_gen_call [of seed c0]
      have "matfree_solve_knl c1 = matfree_solve_knl ctx" by simp
      with a b Index imp_For
        po_active_indices_scope [of "statement d body"
          "c1\<lparr>index_extent := dict_set idx (the ext) (index_extent c1)\<rparr>"
          "dict_of [(index, p_Variable idx)]", OF Suc.IH]
      show ?thesis by (simp add: statement_for_def)
    qed (simp_all add: imp_For statement_for_def)
  next
    case (imp_Evaluate expr)
    then show ?thesis by (simp add: po_statement_evaluate)
  qed simp_all
qed

lemma mf_statement:
  "\<not> has_matfree t \<Longrightarrow> matfree_solve_knl (snd (statement d t ctx)) = matfree_solve_knl ctx"
proof (induction d arbitrary: t ctx)
  case 0
  show ?case by simp
next
  case (Suc d)
  show ?case
  proof (cases t)
    case (imp_Block cs)
    with Suc.prems have none: "\<And>x. x \<in> set cs \<Longrightarrow> \<not> has_matfree x" by simp
    have "matfree_solve_knl (snd (map_res (statement d) xs c)) = matfree_solve_knl c"
      if "set xs \<subseteq> set cs" for xs c
      using that
    proof (induction xs arbitrary: c)
      case Nil
      show ?case by simp
    next
      case (Cons x xs)
      then have x: "\<not> has_matfree x" by (simp add: none)
      have "matfree_solve_knl (snd (bind_res (map_res (statement d) xs c1) (\<lambda>ys c2. (Inr (v # ys), c2))))
          = matfree_solve_knl c1" for v c1
        using Cons by (simp add: mf_bind_res)
      then show ?case
        by (simp add: mf_bind_res Suc.IH [OF x])
    qed
    with imp_Block show ?thesis
      by (simp add: statement_block_def mf_bind_res)
  next
    case (imp_For index body)
    with Suc.prems have body: "\<not> has_matfree body" by simp
    show ?thesis
    proof (cases index)
      case (Index k nm ext)
      obtain seed c0 where a: "index_names_get (Inl index) ctx = (seed, c0)"
        by (cases "index_names_get (Inl index) ctx")
      obtain idx c1 where b: "name_gen_call seed c0 = (idx, c1)"
        by (cases "name_gen_call seed c0")
      from a mf_index_names_get [of "Inl index" ctx] b mf_name_gen_call [of seed c0]
      have "matfree_solve_knl c1 = matfree_solve_knl ctx" by simp
      with a b Index imp_For
        mf_active_indices_scope [of "statement d body"
          "dict_of [(index, p_Variable idx)]"
          "c1\<lparr>index_extent := dict_set idx (the ext) (index_extent c1)\<rparr>", OF Suc.IH [OF body]]
      show ?thesis by (simp add: statement_for_def)
    qed (simp_all add: imp_For statement_for_def)
  next
    case (imp_Evaluate expr)
    with Suc.prems show ?thesis by (simp add: mf_statement_evaluate)
  qed simp_all
qed

lemma statement_matfree:
  "has_matfree t \<Longrightarrow> statement d t ctx = (Inr insns, c) \<Longrightarrow> is_matfree_cg (matfree_solve_knl c)"
proof (induction d arbitrary: t ctx insns c)
  case 0
  then show ?case by simp
next
  case (Suc d)
  show ?case
  proof (cases t)
    case (imp_Block cs)
    with Suc.prems obtain xss where
      m: "map_res (statement d) cs ctx = (Inr xss, c)"
      by (auto simp: statement_block_def dest!: bind_res_Inr)
    from imp_Block Suc.prems have ex: "\<exists>x \<in> set cs. has_matfree x" by simp
    have "is_matfree_cg (matfree_solve_knl c')"
      if "map_res (statement d) xs c0 = (Inr ys, c')" "\<exists>x \<in> set xs. has_matfree x" for xs c0 ys c'
      using that
    proof (induction xs arbitrary: c0 ys)
      case Nil
      then show ?case by simp
    next
      case (Cons x xs)
      from map_res_Cons_Inr [OF Cons.prems(1)] obtain y c1 ys' where
        x: "statement d x c0 = (Inr y, c1)" and xs: "map_res (statement d) xs c1 = (Inr ys', c')"
        by blast
      show ?case
      proof (cases "has_matfree x")
        case True
        from Suc.IH [OF True x] have "is_matfree_cg (matfree_solve_knl c1)" .
        moreover have "pending_ok (matfree_solve_knl c1) (matfree_solve_knl c')"
          using po_map_res [of "statement d" c1 xs, OF po_statement] xs by simp
        ultimately show ?thesis by (rule is_matfree_cg_pending)
      next
        case False
        with Cons.prems(2) have "\<exists>x \<in> set xs. has_matfree x" by simp
        from Cons.IH [OF xs this] show ?thesis .
      qed
    qed
    from this [OF m ex] show ?thesis .
  next
    case (imp_For index body)
    with Suc.prems have body: "has_matfree body" by simp
    from imp_For Suc.prems have f: "statement_for (statement d) index body ctx = (Inr insns, c)"
      by simp
    then obtain m c2 where "active_indices_scope m (statement d body) c2 = (Inr insns, c)"
      by (cases index)
         (auto simp: statement_for_def Let_def split: if_splits prod.splits)
    from active_indices_scope_Inr [OF this] obtain c0 c1 where
      "statement d body c0 = (Inr insns, c1)" "matfree_solve_knl c = matfree_solve_knl c1"
      by blast
    with Suc.IH [OF body] show ?thesis by simp
  next
    case (imp_Evaluate expr)
    with Suc.prems statement_evaluate_matfree [of expr d ctx insns c] show ?thesis
      by (auto simp: is_matfree_cg_def)
  qed (use Suc.prems in simp_all)
qed

lemma mf_declare_temporary:
  "matfree_solve_knl (snd (declare_temporary x c)) = matfree_solve_knl c"
  by (cases x) (simp add: declare_temporary_def Let_def split: option.splits sum.splits)

text \<open>A lowering that returns leaves in the global the auxiliary kernel of the last
  matrix-free solve of the tree.\<close>

lemma statement_for_Inr:
  assumes "statement_for lower index body ctx = (Inr insns, c)"
  shows "\<exists>m c2. active_indices_scope m (lower body) c2 = (Inr insns, c)
           \<and> matfree_solve_knl c2 = matfree_solve_knl ctx"
proof (cases index)
  case (Index k nm ext)
  obtain seed c0 where a: "index_names_get (Inl index) ctx = (seed, c0)"
    by (cases "index_names_get (Inl index) ctx")
  obtain idx c1 where b: "name_gen_call seed c0 = (idx, c1)"
    by (cases "name_gen_call seed c0")
  from a mf_index_names_get [of "Inl index" ctx] b mf_name_gen_call [of seed c0]
  have g: "matfree_solve_knl c1 = matfree_solve_knl ctx" by simp
  let ?c2 = "c1\<lparr>index_extent := dict_set idx (the ext) (index_extent c1)\<rparr>"
  from assms a b Index
  have "active_indices_scope (dict_of [(index, p_Variable idx)]) (lower body) ?c2 = (Inr insns, c)"
    by (simp add: statement_for_def split: if_splits)
  moreover from g have "matfree_solve_knl ?c2 = matfree_solve_knl ctx" by simp
  ultimately show ?thesis by blast
qed (use assms in \<open>simp_all add: statement_for_def\<close>)

lemma statement_pending_after:
  "statement d t ctx = (Inr insns, c) \<Longrightarrow>
   matfree_solve_knl c = pending_after t (matfree_solve_knl ctx)"
proof (induction d arbitrary: t ctx insns c)
  case 0
  then show ?case by simp
next
  case (Suc d)
  show ?case
  proof (cases t)
    case (imp_Block cs)
    with Suc.prems obtain xss where m: "map_res (statement d) cs ctx = (Inr xss, c)"
      by (auto simp: statement_block_def dest!: bind_res_Inr)
    have "matfree_solve_knl c' = fold pending_after xs (matfree_solve_knl c0)"
      if "map_res (statement d) xs c0 = (Inr ys, c')" for xs c0 ys c'
      using that
    proof (induction xs arbitrary: c0 ys)
      case Nil
      then show ?case by simp
    next
      case (Cons x xs)
      from map_res_Cons_Inr [OF Cons.prems] obtain y c1 ys' where
        x: "statement d x c0 = (Inr y, c1)" and xs: "map_res (statement d) xs c1 = (Inr ys', c')"
        by blast
      from Suc.IH [OF x] Cons.IH [OF xs] show ?case by simp
    qed
    from this [OF m] imp_Block show ?thesis by simp
  next
    case (imp_For index body)
    with Suc.prems have "statement_for (statement d) index body ctx = (Inr insns, c)"
      by simp
    from statement_for_Inr [OF this] obtain m c2 where
      s: "active_indices_scope m (statement d body) c2 = (Inr insns, c)"
      and g: "matfree_solve_knl c2 = matfree_solve_knl ctx"
      by blast
    from active_indices_scope_Inr [OF s] obtain c0 c1 where
      b: "statement d body c0 = (Inr insns, c1)"
      and g0: "matfree_solve_knl c0 = matfree_solve_knl c2"
      and g1: "matfree_solve_knl c = matfree_solve_knl c1"
      by blast
    from Suc.IH [OF b] g g0 g1 imp_For show ?thesis by simp
  next
    case (imp_Evaluate expr)
    with Suc.prems have e: "statement_evaluate d expr ctx = (Inr insns, c)" by simp
    show ?thesis
    proof (cases "cls expr = gem_Solve True")
      case True
      from statement_evaluate_matfree [OF True e] imp_Evaluate True show ?thesis by auto
    next
      case False
      from mf_statement_evaluate [OF False, of d ctx] e imp_Evaluate False show ?thesis by simp
    qed
  next
    case (imp_Initialise e)
    with Suc.prems mf_leaf_statements(1) [of d e ctx] show ?thesis by simp
  next
    case (imp_Accumulate e)
    with Suc.prems mf_leaf_statements(2) [of d e ctx] show ?thesis by simp
  next
    case (imp_Return v e)
    with Suc.prems mf_leaf_statements(3) [of d v e ctx] show ?thesis by simp
  next
    case (imp_ReturnAccumulate v e)
    with Suc.prems mf_leaf_statements(4) [of d v e ctx] show ?thesis by simp
  next
    case imp_Noop
    with Suc.prems show ?thesis by simp
  qed
qed

text \<open>Inlining leaves no call of the auxiliary kernel in the root kernel.\<close>

lemma calls_inline_call: "x \<in> set (inline_call callee y) \<Longrightarrow> \<not> calls name (fst x)"
  by (cases y) (auto simp: inline_call_def calls_def Let_def)

lemma knl_name_match_callee [simp]: "knl_name (match_callee caller call callee) = knl_name callee"
  by (simp add: match_callee_def)

lemma no_call_with_pending:
  assumes "with_pending knl (Some aux) = Program P"
  shows "\<forall>x \<in> set (knl_instructions (root_kernel P)). \<not> calls (knl_name aux) (fst x)"
proof -
  let ?name = "knl_name aux"
  let ?m = "match_caller_callee_argument_dimension
              (register_callable_kernel (make_program knl) aux) ?name"
  have root: "root_kernel ?m = knl"
    by (simp add: match_caller_callee_argument_dimension_def register_callable_kernel_def
          make_program_def split: option.splits prod.splits)
  have "\<exists>k. callables ?m = [k] \<and> knl_name k = ?name"
    by (simp add: match_caller_callee_argument_dimension_def register_callable_kernel_def
          make_program_def split: option.splits prod.splits)
  then obtain k where k: "callables ?m = [k]" "knl_name k = ?name" by blast
  from assms have P: "P = inline_callable_kernel ?m ?name" by (simp add: with_pending_def)
  show ?thesis
  proof (cases "\<exists>x \<in> set (knl_instructions knl). calls ?name (fst x)")
    case False
    with P k root show ?thesis by (simp add: inline_callable_kernel_def Let_def)
  next
    case True
    then have "\<not> (\<forall>x \<in> set (knl_instructions knl). \<not> calls ?name (fst x))" by blast
    with P k root have "knl_instructions (root_kernel P) =
        concat (map (\<lambda>x. if calls ?name (fst x) then inline_call k x else [x])
                    (knl_instructions knl))"
      by (simp add: inline_callable_kernel_def Let_def)
    then show ?thesis by (auto dest: calls_inline_call split: if_splits)
  qed
qed

lemma fold_unchanged: "(\<And>x g. x \<in> set xs \<Longrightarrow> f x g = g) \<Longrightarrow> fold f xs g = g"
  by (induction xs arbitrary: g) simp_all

lemma pending_after_unchanged: "\<not> has_matfree t \<Longrightarrow> pending_after t g = g"
proof (induction t arbitrary: g)
  case (imp_Block cs)
  then show ?case by (simp add: fold_unchanged)
qed simp_all

text \<open>\<^verbatim>\<open>generate\<close>: a call that returns has declared the temporaries and lowered the whole
  tree, starting with the global as it found it, and leaves the global empty.\<close>

lemma generate_Inr:
  assumes "generate d ic args st nm names incr g = (Inr r, g')"
  shows "g' = None
    \<and> (\<exists>eps typed temps c insns c'.
          finfo_resolution st = Inr eps
          \<and> assign_dtypes (temporaries ic) st = Inr typed
          \<and> map_res declare_temporary (enumerate 0 typed) (new_context ic st eps names incr g)
              = (Inr temps, c)
          \<and> matfree_solve_knl c = g
          \<and> statement d (tree ic) c = (Inr insns, c')
          \<and> r = with_pending (assemble_kernel nm (args @ temps) insns c')
                   (pending_after (tree ic) g))"
proof -
  from assms obtain eps where eps: "finfo_resolution st = Inr eps"
    by (cases "finfo_resolution st") (simp_all add: generate_def)
  from assms eps obtain typed where typed: "assign_dtypes (temporaries ic) st = Inr typed"
    by (cases "assign_dtypes (temporaries ic) st") (simp_all add: generate_def)
  let ?c0 = "new_context ic st eps names incr g"
  obtain rt c where t: "map_res declare_temporary (enumerate 0 typed) ?c0 = (rt, c)"
    by (cases "map_res declare_temporary (enumerate 0 typed) ?c0")
  from mf_map_res [of declare_temporary "enumerate 0 typed" ?c0, OF mf_declare_temporary] t
  have g: "matfree_solve_knl c = g" by (simp add: new_context_def)
  from assms eps typed t obtain temps where temps: "rt = Inr temps"
    by (cases rt) (simp_all add: generate_def)
  obtain rs c' where s: "statement d (tree ic) c = (rs, c')"
    by (cases "statement d (tree ic) c")
  from assms eps typed t temps s obtain insns where insns: "rs = Inr insns"
    by (cases rs) (simp_all add: generate_def)
  from statement_pending_after [of d "tree ic" c insns c'] s insns g
  have p: "matfree_solve_knl c' = pending_after (tree ic) g" by simp
  from assms eps typed t temps s insns p have "g' = None
      \<and> r = with_pending (assemble_kernel nm (args @ temps) insns c') (pending_after (tree ic) g)"
    by (simp add: generate_def)
  with eps typed t temps g s insns show ?thesis by blast
qed

text \<open>With enough depth, the lowering of a matrix-free solve over plain operands returns.\<close>

lemma extends_refl [simp]: "extends c c"
  by (simp add: extends_def)

lemma extends_trans: "extends a b \<Longrightarrow> extends b c \<Longrightarrow> extends a c"
  by (simp add: extends_def)

lemma plain_extends: "plain c x \<Longrightarrow> extends c c' \<Longrightarrow> plain c' x"
  by (auto simp: plain_def extends_def nameable_def)

lemma scope_ok_extends: "scope_ok c \<Longrightarrow> extends c c' \<Longrightarrow> scope_ok c'"
  by (simp add: scope_ok_def extends_def active_inames_def)

lemma map_res_extends:
  assumes "\<And>x c. P c x \<Longrightarrow> \<exists>v c'. f x c = (Inr v, c') \<and> extends c c'"
    and "\<And>x c c'. P c x \<Longrightarrow> extends c c' \<Longrightarrow> P c' x"
    and "list_all (P c) xs"
  shows "\<exists>vs c'. map_res f xs c = (Inr vs, c') \<and> extends c c'"
  using assms(3)
proof (induction xs arbitrary: c)
  case Nil
  show ?case by simp
next
  case (Cons x xs)
  from Cons.prems have "P c x" by simp
  from assms(1) [OF this] obtain v c1 where x: "f x c = (Inr v, c1)" "extends c c1" by blast
  from Cons.prems assms(2) x(2) have "list_all (P c1) xs" by (auto simp: list_all_iff)
  from Cons.IH [OF this] obtain vs c2 where xs: "map_res f xs c1 = (Inr vs, c2)" "extends c1 c2"
    by blast
  from x xs have "map_res f (x # xs) c = (Inr (v # vs), c2)" by (simp add: bind_res_def)
  with extends_trans [OF x(2) xs(2)] show ?case by blast
qed

lemma pymbolic_index_returns: "\<exists>v c'. pymbolic_index ext c = (Inr v, c') \<and> extends c c'"
  by (auto simp: pymbolic_index_def index_names_get_def name_gen_call_def extends_def Let_def
        split: option.splits prod.splits)

lemma pymbolic_multiindex_returns:
  "\<exists>idx c'. pymbolic_multiindex shp c = (Inr idx, c') \<and> extends c c'"
  unfolding pymbolic_multiindex_def
  by (rule map_res_extends [of "\<lambda>c x. True"]) (simp_all add: pymbolic_index_returns list_all_iff)

lemma gem_to_pym_var_returns:
  assumes "nameable c x"
  shows "\<exists>v c'. gem_to_pym_var x c = (Inr v, c') \<and> extends c c'"
proof (cases "gem_to_pymbolic c (gem_key x)")
  case (Some v)
  then show ?thesis by (simp add: gem_to_pym_var_def)
next
  case None
  with assms obtain based_on where "node_name x = Inr based_on"
    by (auto simp: nameable_def has_name_def split: sum.splits)
  with None show ?thesis
    by (auto simp: gem_to_pym_var_def name_gen_call_def extends_def Let_def split: prod.splits)
qed

lemma pymbolic_variable_returns:
  assumes "plain c x"
  shows "\<exists>v c'. pymbolic_variable (Suc (Suc d)) x c = (Inr v, c') \<and> extends c c'"
proof -
  from assms have "nameable c x" by (simp add: plain_def)
  from gem_to_pym_var_returns [OF this] obtain v c1 where
    v: "gem_to_pym_var x c = (Inr v, c1)" "extends c c1"
    by blast
  from plain_extends [OF assms v(2)]
  have "indices c1 (gem_key x) = None \<or> indices c1 (gem_key x) = Some []"
    by (auto simp: plain_def split: option.splits)
  with v show ?thesis by (auto simp: bind_res_def)
qed

lemma sub_array_ref_returns:
  assumes "plain c x"
  shows "\<exists>v c'. sub_array_ref (Suc (Suc d)) x c = (Inr v, c') \<and> extends c c'"
proof -
  from pymbolic_multiindex_returns [of "shape x" c] obtain idx c1 where
    i: "pymbolic_multiindex (shape x) c = (Inr idx, c1)" "extends c c1"
    by blast
  from pymbolic_variable_returns [OF plain_extends [OF assms i(2)], of d] obtain v c2 where
    v: "pymbolic_variable (Suc (Suc d)) x c1 = (Inr v, c2)" "extends c1 c2"
    by blast
  from i v have "sub_array_ref (Suc (Suc d)) x c = (Inr (SubArrayRef idx (p_Subscript v idx)), c2)"
    by (simp add: sub_array_ref_def bind_res_def)
  with extends_trans [OF i(2) v(2)] show ?thesis by blast
qed

lemma statement_evaluate_returns:
  assumes "cls expr = gem_Solve True" and "shape expr = n # rest"
    and "list_all (plain ctx) (expr # children expr)" and "scope_ok ctx"
  shows "\<exists>insns c. statement_evaluate (Suc (Suc d)) expr ctx = (Inr insns, c)"
proof -
  from assms(3) have "plain ctx expr" by simp
  from sub_array_ref_returns [OF this, of d] obtain lhs c1 where
    l: "sub_array_ref (Suc (Suc d)) expr ctx = (Inr lhs, c1)" "extends ctx c1"
    by blast
  from assms(3) l(2) have "list_all (plain c1) (children expr)"
    by (auto simp: list_all_iff intro: plain_extends)
  then have "\<exists>vs c'. map_res (sub_array_ref (Suc (Suc d))) (children expr) c1 = (Inr vs, c')
               \<and> extends c1 c'"
  proof (rule map_res_extends [where P = plain, rotated 2])
    show "\<And>x c. plain c x \<Longrightarrow>
            \<exists>v c'. sub_array_ref (Suc (Suc d)) x c = (Inr v, c') \<and> extends c c'"
      by (rule sub_array_ref_returns)
    show "\<And>x c c'. plain c x \<Longrightarrow> extends c c' \<Longrightarrow> plain c' x"
      by (rule plain_extends)
  qed
  then obtain reads c2 where
    r: "map_res (sub_array_ref (Suc (Suc d))) (children expr) c1 = (Inr reads, c2)" "extends c1 c2"
    by blast
  from scope_ok_extends [OF scope_ok_extends [OF assms(4) l(2)] r(2)]
  obtain inames where "active_inames c2 = Inr inames"
    by (auto simp: scope_ok_def split: sum.splits)
  then have "active_inames (c2\<lparr>matfree_solve_knl := Some (matfree_cg_kernel n (n # rest))\<rparr>)
             = Inr inames"
    by (simp add: active_inames_def)
  with assms(1) assms(2) l(1) r(1) show ?thesis
    by (simp add: statement_evaluate_def bind_res_def loopy_matfree_solve_def
          call_instruction_def)
qed

text \<open>\<^verbatim>\<open>generate\<close> returns for a matrix-free solve of a system over two variables.\<close>

lemma str_nat_0: "str_nat 0 = ''0''"
  by code_simp

lemma assign_dtypes_solve_node:
  assumes "finfo_dtype st = Inr rt"
  shows "assign_dtypes [solve_node matfree n a b] st
           = Inr [(solve_node matfree n a b, find_common_type {st})]"
  using assms by (simp add: assign_dtypes_def solve_node_def set_union_def)

lemma generate_solve_tree_returns:
  assumes "st \<noteq> np_int8"
  shows "\<exists>insns c'.
           generate (Suc (Suc (Suc d))) (solve_tree True n a b) args st nm names incr g =
             (Inr (with_pending
                     (assemble_kernel nm
                        (args @ [lp_TemporaryVariable ''t0'' (find_common_type {st}) [n] None False])
                        insns c')
                     (Some (matfree_cg_kernel n [n]))), None)"
proof -
  let ?node = "solve_node True n a b"
  have "\<exists>eps. finfo_resolution st = Inr eps"
  proof (cases st)
    case np_int8
    with assms show ?thesis by simp
  qed (simp_all only: finfo_resolution.simps, blast+)
  then obtain eps where eps: "finfo_resolution st = Inr eps" by blast
  from assms obtain rt where rt: "finfo_dtype st = Inr rt" by (cases st) simp_all
  let ?init = "new_context (solve_tree True n a b) st eps names incr g"
  let ?entered = "?init\<lparr>gem_to_pymbolic := (gem_to_pymbolic ?init)(gem_key ?node \<mapsto> p_Variable ''t0'')\<rparr>"
  let ?t = "lp_TemporaryVariable ''t0'' (find_common_type {st}) [n] None False"
  have k: "indices ?init (gem_key ?node) = Some []"
    by (simp add: new_context_def solve_tree_def)
  have nc: "\<not> is_Constant ?node" by (simp add: is_Constant_def solve_node_def)
  from k nc have t: "map_res declare_temporary
          (enumerate 0 [(?node, find_common_type {st})]) ?init = (Inr [?t], ?entered)"
    by (simp add: declare_temporary_def bind_res_def index_extents_def str_nat_0 Let_def
          solve_node_def)
  have p: "list_all (plain ?entered) (?node # children ?node)"
    by (simp add: plain_def nameable_def has_name_def node_name_def new_context_def
          solve_tree_def solve_node_def)
  have s: "scope_ok ?entered" by (simp add: scope_ok_def active_inames_def new_context_def)
  have "cls ?node = gem_Solve True" "shape ?node = n # []" by (simp_all add: solve_node_def)
  from statement_evaluate_returns [OF this p s, of d] obtain insns c' where
    e: "statement_evaluate (Suc (Suc d)) ?node ?entered = (Inr insns, c')"
    by blast
  from statement_evaluate_matfree [OF \<open>cls ?node = gem_Solve True\<close> e]
  have m: "matfree_solve_knl c' = Some (matfree_cg_kernel n [n])"
    by (auto simp: solve_node_def)
  have tm: "temporaries (solve_tree True n a b) = [?node]"
    and tr: "tree (solve_tree True n a b) = imp_Evaluate ?node"
    by (simp_all add: solve_tree_def)
  have "generate (Suc (Suc (Suc d))) (solve_tree True n a b) args st nm names incr g =
          (Inr (with_pending (assemble_kernel nm (args @ [?t]) insns c')
                  (Some (matfree_cg_kernel n [n]))), None)"
    unfolding generate_def
    by (simp only: eps tm tr assign_dtypes_solve_node [OF rt] t e m sum.case prod.case
          statement.simps impero.case)
  then show ?thesis by blast
qed

text \<open>
  C1, as the code has it. Lowering the \<^verbatim>\<open>Evaluate\<close> of a matrix-free \<^verbatim>\<open>Solve\<close> node, when it
  returns, gives one call instruction whose target is \<open>matfree_cg_kernel\<close>, the name of
  the auxiliary kernel, with one operand per child of the node, and puts the auxiliary
  kernel for the node's shape into the global, in the place of what was there. The
  lowering returns, at every depth from 2 on, when the node has a shape and the node and
  its operands are plain in a context whose active indices are variables.

  A call of \<^verbatim>\<open>generate\<close> that returns leaves the global empty, and what it returns is the
  kernel it assembled, with the auxiliary kernel that is pending when the lowering ends:
  the one of the last matrix-free solve of the tree, and, when the tree has none, what
  was pending before the call. For a tree with a matrix-free solve this is a program, in
  which that one kernel was registered, matched and inlined, and no instruction of the
  root kernel calls \<open>matfree_cg_kernel\<close>; for a tree that is the \<^verbatim>\<open>Evaluate\<close> of one
  matrix-free solve the kernel is the one of that node. For a tree without a
  matrix-free solve and with the global empty it is a plain kernel. For \<open>Solve(A, b)\<close> of
  any size \<open>n\<close> over two variables, \<^verbatim>\<open>generate\<close> returns at every depth from 3 on, for
  every scalar type numpy has a resolution for, and the program is built with the
  auxiliary kernel for \<open>n\<close>.
\<close>

theorem matfree_solve_pending:
  "(cls expr = gem_Solve True \<and> statement_evaluate d expr ctx = (Inr insns, c) \<longrightarrow>
      (\<exists>lhs reads inames n rest.
          shape expr = n # rest
          \<and> insns = [lp_CallInstruction [lhs] (p_Call (p_Variable ''matfree_cg_kernel'') reads) inames]
          \<and> length reads = length (children expr)
          \<and> matfree_solve_knl c = Some (matfree_cg_kernel n (shape expr))))
   \<and> (cls expr = gem_Solve True \<and> shape expr = m # shp
        \<and> list_all (plain ctx) (expr # children expr) \<and> scope_ok ctx \<longrightarrow>
      (\<exists>lowered c1. statement_evaluate (Suc (Suc d)) expr ctx = (Inr lowered, c1)))
   \<and> (generate d ic args st nm names incr g = (Inr r, g') \<longrightarrow>
      g' = None
      \<and> (\<exists>eps typed temps c0 lowered c1.
            finfo_resolution st = Inr eps
            \<and> assign_dtypes (temporaries ic) st = Inr typed
            \<and> map_res declare_temporary (enumerate 0 typed)
                 (new_context ic st eps names incr g) = (Inr temps, c0)
            \<and> statement d (tree ic) c0 = (Inr lowered, c1)
            \<and> r = with_pending (assemble_kernel nm (args @ temps) lowered c1)
                     (pending_after (tree ic) g))
      \<and> (has_matfree (tree ic) \<longrightarrow>
            (\<exists>P k dims. r = Program P
               \<and> pending_after (tree ic) g = Some (matfree_cg_kernel k dims)
               \<and> (\<forall>x \<in> set (knl_instructions (root_kernel P)).
                     \<not> calls ''matfree_cg_kernel'' (fst x))))
      \<and> (tree ic = imp_Evaluate expr \<and> cls expr = gem_Solve True \<longrightarrow>
            (\<exists>n rest. shape expr = n # rest
               \<and> pending_after (tree ic) g = Some (matfree_cg_kernel n (shape expr))))
      \<and> (\<not> has_matfree (tree ic) \<and> g = None \<longrightarrow> (\<exists>K. r = Kernel K)))
   \<and> (st \<noteq> np_int8 \<longrightarrow>
      (\<exists>lowered c1.
          generate (Suc (Suc (Suc d))) (solve_tree True m a b) args st nm names incr g =
            (Inr (with_pending
                    (assemble_kernel nm
                       (args @ [lp_TemporaryVariable ''t0'' (find_common_type {st}) [m] None False])
                       lowered c1)
                    (Some (matfree_cg_kernel m [m]))), None)))"
proof (intro conjI impI)
  assume "cls expr = gem_Solve True \<and> statement_evaluate d expr ctx = (Inr insns, c)"
  then show "\<exists>lhs reads inames n rest.
          shape expr = n # rest
          \<and> insns = [lp_CallInstruction [lhs] (p_Call (p_Variable ''matfree_cg_kernel'') reads) inames]
          \<and> length reads = length (children expr)
          \<and> matfree_solve_knl c = Some (matfree_cg_kernel n (shape expr))"
    using statement_evaluate_matfree [of expr d ctx insns c] by simp
next
  assume "cls expr = gem_Solve True \<and> shape expr = m # shp
            \<and> list_all (plain ctx) (expr # children expr) \<and> scope_ok ctx"
  then show "\<exists>lowered c1. statement_evaluate (Suc (Suc d)) expr ctx = (Inr lowered, c1)"
    using statement_evaluate_returns [of expr m shp ctx d] by simp
next
  assume a: "generate d ic args st nm names incr g = (Inr r, g')"
  from generate_Inr [OF a] show "g' = None" by simp
next
  assume a: "generate d ic args st nm names incr g = (Inr r, g')"
  from generate_Inr [OF a]
  show "\<exists>eps typed temps c0 lowered c1.
            finfo_resolution st = Inr eps
            \<and> assign_dtypes (temporaries ic) st = Inr typed
            \<and> map_res declare_temporary (enumerate 0 typed)
                 (new_context ic st eps names incr g) = (Inr temps, c0)
            \<and> statement d (tree ic) c0 = (Inr lowered, c1)
            \<and> r = with_pending (assemble_kernel nm (args @ temps) lowered c1)
                     (pending_after (tree ic) g)"
    by blast
next
  assume a: "generate d ic args st nm names incr g = (Inr r, g')"
    and h: "has_matfree (tree ic)"
  from generate_Inr [OF a] obtain c0 lowered c1 K where
    g: "matfree_solve_knl c0 = g"
    and s: "statement d (tree ic) c0 = (Inr lowered, c1)"
    and r: "r = with_pending K (pending_after (tree ic) g)"
    by blast
  from statement_matfree [OF h s] statement_pending_after [OF s] g
  obtain k dims where p: "pending_after (tree ic) g = Some (matfree_cg_kernel k dims)"
    by (auto simp: is_matfree_cg_def)
  with r obtain P where P: "with_pending K (Some (matfree_cg_kernel k dims)) = Program P"
    "r = Program P"
    by (simp add: with_pending_def)
  from no_call_with_pending [OF P(1)]
  have "\<forall>x \<in> set (knl_instructions (root_kernel P)). \<not> calls ''matfree_cg_kernel'' (fst x)"
    by (simp add: matfree_cg_kernel_def)
  with p P(2)
  show "\<exists>P k dims. r = Program P
               \<and> pending_after (tree ic) g = Some (matfree_cg_kernel k dims)
               \<and> (\<forall>x \<in> set (knl_instructions (root_kernel P)).
                     \<not> calls ''matfree_cg_kernel'' (fst x))"
    by blast
next
  assume a: "generate d ic args st nm names incr g = (Inr r, g')"
    and t: "tree ic = imp_Evaluate expr \<and> cls expr = gem_Solve True"
  from generate_Inr [OF a] obtain c0 lowered c1 where
    s: "statement d (tree ic) c0 = (Inr lowered, c1)"
    by blast
  with t obtain d' where "statement_evaluate d' expr c0 = (Inr lowered, c1)"
    by (cases d) simp_all
  from statement_evaluate_matfree [OF _ this] t obtain n rest where "shape expr = n # rest"
    by blast
  with t
  show "\<exists>n rest. shape expr = n # rest
               \<and> pending_after (tree ic) g = Some (matfree_cg_kernel n (shape expr))"
    by simp
next
  assume a: "generate d ic args st nm names incr g = (Inr r, g')"
    and h: "\<not> has_matfree (tree ic) \<and> g = None"
  from generate_Inr [OF a] obtain K where "r = with_pending K (pending_after (tree ic) g)"
    by blast
  with h pending_after_unchanged [of "tree ic" g] show "\<exists>K. r = Kernel K"
    by (simp add: with_pending_def)
next
  assume "st \<noteq> np_int8"
  from generate_solve_tree_returns [OF this, of d m a b args nm names incr g]
  show "\<exists>lowered c1.
          generate (Suc (Suc (Suc d))) (solve_tree True m a b) args st nm names incr g =
            (Inr (with_pending
                    (assemble_kernel nm
                       (args @ [lp_TemporaryVariable ''t0'' (find_common_type {st}) [m] None False])
                       lowered c1)
                    (Some (matfree_cg_kernel m [m]))), None)" .
qed

text \<open>The scenario of the spec, compiled twice: with the matrix-free solve, where the
  call gives way to the two markers and the three instructions of the auxiliary kernel
  for size 4, whose arguments keep the dimensions \<open>4 \<times> 4\<close>, 4 and 4; and after it with the
  direct solve.\<close>

theorem matfree_solve_pending_witness:
  "generate 6 (solve_tree True 4 ''A'' ''b'') [] np_float64 ''loopy_kernel'' [] True None =
     (Inr (with_pending (solve_kernel ''matfree_cg_kernel'') (Some (matfree_cg_kernel 4 [4]))),
      None)
   \<and> (case with_pending (solve_kernel ''matfree_cg_kernel'') (Some (matfree_cg_kernel 4 [4])) of
        Program P \<Rightarrow>
          callables P = [matfree_cg_kernel 4 [4]]
          \<and> map fst (knl_instructions (root_kernel P)) =
              lp_NoOp {}
              # map (\<lambda>x. lp_Inlined ''matf_''
                            (arg_map (matfree_cg_kernel 4 [4]) (solve_call ''matfree_cg_kernel''))
                            {} (fst x))
                    (knl_instructions (matfree_cg_kernel 4 [4]))
              @ [lp_NoOp {}]
      | Kernel K \<Rightarrow> False)
   \<and> generate 6 (solve_tree False 4 ''A'' ''b'') [] np_float64 ''loopy_kernel'' [] True None =
     (Inr (Kernel (solve_kernel ''solve'')), None)"
proof -
  let ?r = "with_pending (solve_kernel ''matfree_cg_kernel'') (Some (matfree_cg_kernel 4 [4]))"
  have a: "generate 6 (solve_tree True 4 ''A'' ''b'') [] np_float64 ''loopy_kernel'' [] True None
             = (Inr ?r, None)"
    by code_simp
  have b: "generate 6 (solve_tree False 4 ''A'' ''b'') [] np_float64 ''loopy_kernel'' [] True None
             = (Inr (Kernel (solve_kernel ''solve'')), None)"
    by code_simp
  have p: "case ?r of
        Program P \<Rightarrow>
          callables P = [matfree_cg_kernel 4 [4]]
          \<and> map fst (knl_instructions (root_kernel P)) =
              lp_NoOp {}
              # map (\<lambda>x. lp_Inlined ''matf_''
                            (arg_map (matfree_cg_kernel 4 [4]) (solve_call ''matfree_cg_kernel''))
                            {} (fst x))
                    (knl_instructions (matfree_cg_kernel 4 [4]))
              @ [lp_NoOp {}]
      | Kernel K \<Rightarrow> False"
    by code_simp
  have t: "has_matfree (tree (solve_tree True 4 ''A'' ''b''))"
    by (simp add: solve_tree_def solve_node_def)
  have f: "\<not> has_matfree (tree (solve_tree False 4 ''A'' ''b''))"
    by (simp add: solve_tree_def solve_node_def)
  have st: "np_float64 \<noteq> np_int8" by simp
  from matfree_solve_pending [where d = 6 and ic = "solve_tree True 4 ''A'' ''b''" and args = "[]"
         and st = np_float64 and nm = "''loopy_kernel''" and names = "[]" and incr = True
         and g = None and r = ?r and g' = None] a t
  have "\<exists>P k dims. ?r = Program P
          \<and> pending_after (tree (solve_tree True 4 ''A'' ''b'')) None = Some (matfree_cg_kernel k dims)
          \<and> (\<forall>x \<in> set (knl_instructions (root_kernel P)). \<not> calls ''matfree_cg_kernel'' (fst x))"
    by blast
  moreover
  from matfree_solve_pending [where d = 6 and ic = "solve_tree False 4 ''A'' ''b''" and args = "[]"
         and st = np_float64 and nm = "''loopy_kernel''" and names = "[]" and incr = True
         and g = None and r = "Kernel (solve_kernel ''solve'')" and g' = None] b f
  have "\<exists>K. Kernel (solve_kernel ''solve'') = Kernel K"
    by blast
  moreover
  from matfree_solve_pending [where d = 3 and m = 4 and a = "''A''" and b = "''b''"
         and args = "[]" and st = np_float64 and nm = "''loopy_kernel''" and names = "[]"
         and incr = True and g = None] st
  have "\<exists>lowered c1.
          generate (Suc (Suc (Suc 3))) (solve_tree True 4 ''A'' ''b'') [] np_float64
            ''loopy_kernel'' [] True None =
            (Inr (with_pending
                    (assemble_kernel ''loopy_kernel''
                       ([] @ [lp_TemporaryVariable ''t0'' (find_common_type {np_float64}) [4] None False])
                       lowered c1)
                    (Some (matfree_cg_kernel 4 [4]))), None)"
    by blast
  ultimately show ?thesis using a b p by simp
qed

text \<open>
  C1 as the spec words it has, for every matrix-free solve that is lowered, the
  auxiliary kernel of that solve matched and inlined. With a solve of size 4 followed
  by a solve of size 2 both calls name \<open>matfree_cg_kernel\<close>, and the program is built
  with the auxiliary kernel for size 2 alone: the kernel for size 4 was overwritten in
  the global and is not among the callables.
\<close>

theorem matfree_solve_counterexample:
  "generate 6 two_solves [] np_float64 ''loopy_kernel'' [] True None =
     (Inr (with_pending two_solves_kernel (Some (matfree_cg_kernel 2 [2]))), None)
   \<and> map (\<lambda>x. calls ''matfree_cg_kernel'' (fst x)) (knl_instructions two_solves_kernel)
       = [True, True]
   \<and> matfree_cg_kernel 2 [2] \<noteq> matfree_cg_kernel 4 [4]
   \<and> (case with_pending two_solves_kernel (Some (matfree_cg_kernel 2 [2])) of
        Program P \<Rightarrow>
          map knl_domains (callables P) = [[matfree_cg_domain 2]]
          \<and> matfree_cg_domain 4 \<notin> set (concat (map knl_domains (callables P)))
      | Kernel K \<Rightarrow> False)"
  by code_simp

end
